(* ===== verification/Manta_Prelude.thy ===== *)
theory Manta_Prelude
  imports Main "HOL-Library.Word" "HOL-Library.State_Monad" "HOL-Library.AList"
begin

text \<open>
  What every component of the development shares: Go's error values and results, the state
  monad in which the effectful functions of the server are written with its weakest-precondition
  calculus, machine-integer wrap-around, and generic lemmas on association lists.

  An effectful Go function is a value of type \<open>('s, 'a) state\<close> (HOL-Library.State_Monad): it
  takes the state, returns the function's results and the new state. A pair of results
  \<open>(T, error)\<close> of the source is the sum \<open>'a res\<close>, \<open>Inl\<close> carrying the error; a single
  \<open>error\<close> result is a \<open>goerr option\<close>, \<open>None\<close> being \<open>nil\<close>.
\<close>

named_theorems wp_simps \<open>equations of the weakest precondition\<close>
named_theorems wp_intros \<open>rules that abstract from the result of an operation\<close>
named_theorems frames \<open>what an operation leaves unchanged\<close>
named_theorems clock_monos \<open>operations that never turn the clock back\<close>


section \<open>Error values\<close>

datatype errno =
    ENOENT | EEXIST | ENOTDIR | EISDIR | EBUSY | ENOTEMPTY | ECONNREFUSED | ESRCH | EPERM
  | ENOSPC | EIO | EINVAL | OtherErrno string

fun errno_string :: "errno \<Rightarrow> string" where
  "errno_string ENOENT = ''no such file or directory''"
| "errno_string EEXIST = ''file exists''"
| "errno_string ENOTDIR = ''not a directory''"
| "errno_string EISDIR = ''is a directory''"
| "errno_string EBUSY = ''device or resource busy''"
| "errno_string ENOTEMPTY = ''directory not empty''"
| "errno_string ECONNREFUSED = ''connection refused''"
| "errno_string ESRCH = ''no such process''"
| "errno_string EPERM = ''operation not permitted''"
| "errno_string ENOSPC = ''no space left on device''"
| "errno_string EIO = ''input/output error''"
| "errno_string EINVAL = ''invalid argument''"
| "errno_string (OtherErrno m) = m"

text \<open>
  The errors of the program: a raw \<open>syscall.Errno\<close>, an \<open>os.PathError\<close> (operation, path,
  cause), \<open>io.EOF\<close>, \<open>io.ErrUnexpectedEOF\<close>, an \<open>exec.ExitError\<close> with its exit status, a
  plain message, and \<open>fmt.Errorf\<close> with one \<open>%w\<close>: the text before it, the wrapped error, the
  text after it.
\<close>

datatype goerr =
    Errno errno
  | PathError string string errno
  | EOF
  | UnexpectedEOF
  | ExitError int string
  | ErrMsg string
  | Wrap string goerr string

fun Error :: "goerr \<Rightarrow> string" where
  "Error (Errno e) = errno_string e"
| "Error (PathError op p e) = op @ '' '' @ p @ '': '' @ errno_string e"
| "Error EOF = ''EOF''"
| "Error UnexpectedEOF = ''unexpected EOF''"
| "Error (ExitError _ m) = m"
| "Error (ErrMsg m) = m"
| "Error (Wrap pre e post) = pre @ Error e @ post"

text \<open>\<open>errors.Is\<close> against a \<open>syscall.Errno\<close> follows the chain of wrapped errors.\<close>

fun err_errno :: "goerr \<Rightarrow> errno option" where
  "err_errno (Errno e) = Some e"
| "err_errno (PathError _ _ e) = Some e"
| "err_errno (Wrap _ e _) = err_errno e"
| "err_errno _ = None"

definition errors_Is :: "goerr \<Rightarrow> errno \<Rightarrow> bool" where
  "errors_Is err e \<longleftrightarrow> err_errno err = Some e"

text \<open>\<open>errors.Is(err, io.EOF)\<close>.\<close>

fun errors_Is_EOF :: "goerr \<Rightarrow> bool" where
  "errors_Is_EOF EOF = True"
| "errors_Is_EOF (Wrap _ e _) = errors_Is_EOF e"
| "errors_Is_EOF _ = False"

text \<open>\<open>errors.As(err, *exec.ExitError)\<close>: the exit status of the innermost cause.\<close>

fun errors_As_ExitError :: "goerr \<Rightarrow> int option" where
  "errors_As_ExitError (ExitError c _) = Some c"
| "errors_As_ExitError (Wrap _ e _) = errors_As_ExitError e"
| "errors_As_ExitError _ = None"

text \<open>\<open>os.IsExist\<close> and \<open>os.IsNotExist\<close> look through a \<open>PathError\<close> but not through \<open>%w\<close>.\<close>

fun os_IsExist :: "goerr \<Rightarrow> bool" where
  "os_IsExist (Errno e) = (e = EEXIST \<or> e = ENOTEMPTY)"
| "os_IsExist (PathError _ _ e) = (e = EEXIST \<or> e = ENOTEMPTY)"
| "os_IsExist _ = False"

fun os_IsNotExist :: "goerr \<Rightarrow> bool" where
  "os_IsNotExist (Errno e) = (e = ENOENT)"
| "os_IsNotExist (PathError _ _ e) = (e = ENOENT)"
| "os_IsNotExist _ = False"

type_synonym 'a res = "goerr + 'a"

text \<open>\<open>fmt.Errorf\<close> with the wrapped error last, the form used almost everywhere.\<close>

abbreviation wrap :: "string \<Rightarrow> goerr \<Rightarrow> goerr" where
  "wrap pre e \<equiv> Wrap pre e ''''"


section \<open>Machine integers\<close>

text \<open>Go's \<open>int\<close>, \<open>int64\<close> and \<open>time.Duration\<close> are 64-bit two's complement.\<close>

definition wrap64 :: "int \<Rightarrow> int" where
  "wrap64 v = (let low = v mod 2 ^ 64 in if low < 2 ^ 63 then low else low - 2 ^ 64)"

lemma wrap64_range: "- (2 ^ 63) \<le> wrap64 v \<and> wrap64 v < 2 ^ 63"
proof -
  have "0 \<le> v mod 2 ^ 64" "v mod 2 ^ 64 < 2 ^ 64" by simp_all
  then show ?thesis unfolding wrap64_def Let_def by (auto simp del: mod_simps)
qed

lemma wrap64_id: "- (2 ^ 63) \<le> v \<Longrightarrow> v < 2 ^ 63 \<Longrightarrow> wrap64 v = v"
proof (cases "0 \<le> v")
  case False
  moreover assume "- (2 ^ 63) \<le> v"
  ultimately have "v mod 2 ^ 64 = v + 2 ^ 64"
    by (intro int_mod_pos_eq [where q = "-1"]) simp_all
  with False \<open>- (2 ^ 63) \<le> v\<close> show ?thesis by (simp add: wrap64_def)
qed (simp add: wrap64_def)

lemma wrap64_add_period: "wrap64 (v + 2 ^ 64) = wrap64 v"
  by (simp only: wrap64_def mod_add_self2)

text \<open>Go's integer division truncates towards zero.\<close>

definition go_quot :: "int \<Rightarrow> int \<Rightarrow> int" where
  "go_quot n d = (if 0 \<le> n \<longleftrightarrow> 0 \<le> d then \<bar>n\<bar> div \<bar>d\<bar> else - (\<bar>n\<bar> div \<bar>d\<bar>))"

lemma go_quot_nonneg: "0 \<le> n \<Longrightarrow> 0 < d \<Longrightarrow> go_quot n d = n div d"
  by (simp add: go_quot_def)

text \<open>Durations are counted in nanoseconds.\<close>

abbreviation Millisecond :: int where "Millisecond \<equiv> 1000000"
abbreviation Second :: int where "Second \<equiv> 1000000000"


section \<open>The state monad and its weakest precondition\<close>

abbreviation return :: "'a \<Rightarrow> ('s, 'a) state" where
  "return \<equiv> State_Monad.return"

definition gets :: "('s \<Rightarrow> 'a) \<Rightarrow> ('s, 'a) state" where
  "gets f = State (\<lambda>s. (f s, s))"

definition modify :: "('s \<Rightarrow> 's) \<Rightarrow> ('s, unit) state" where
  "modify f = State (\<lambda>s. ((), f s))"

definition wp :: "('s, 'a) state \<Rightarrow> ('a \<Rightarrow> 's \<Rightarrow> bool) \<Rightarrow> 's \<Rightarrow> bool" where
  "wp m Q s \<longleftrightarrow> (case run_state m s of (a, s') \<Rightarrow> Q a s')"

lemma run_gets [simp]: "run_state (gets f) s = (f s, s)"
  by (simp add: gets_def)

lemma run_modify [simp]: "run_state (modify f) s = ((), f s)"
  by (simp add: modify_def)

lemma wp_return [wp_simps]: "wp (return x) Q s = Q x s"
  by (simp add: wp_def)

lemma wp_bind [wp_simps]: "wp (State_Monad.bind m f) Q s = wp m (\<lambda>a. wp (f a) Q) s"
  by (simp add: wp_def split: prod.split)

lemma wp_gets [wp_simps]: "wp (gets f) Q s = Q (f s) s"
  by (simp add: wp_def)

lemma wp_modify [wp_simps]: "wp (modify f) Q s = Q () (f s)"
  by (simp add: wp_def)

lemma wp_State [wp_simps]: "wp (State f) Q s = (\<forall>a s'. f s = (a, s') \<longrightarrow> Q a s')"
  by (simp add: wp_def split: prod.split)

lemma wp_all: "wp m Q s = (\<forall>a s'. run_state m s = (a, s') \<longrightarrow> Q a s')"
  by (simp add: wp_def split: prod.split)

lemma wp_if [wp_simps]:
  "wp (if b then m else n) Q s = ((b \<longrightarrow> wp m Q s) \<and> (\<not> b \<longrightarrow> wp n Q s))"
  by simp

lemma wp_sum [wp_simps]:
  "wp (case x of Inl e \<Rightarrow> f e | Inr v \<Rightarrow> g v) Q s =
    ((\<forall>e. x = Inl e \<longrightarrow> wp (f e) Q s) \<and> (\<forall>v. x = Inr v \<longrightarrow> wp (g v) Q s))"
  by (simp split: sum.split)

lemma wp_option [wp_simps]:
  "wp (case x of None \<Rightarrow> m | Some v \<Rightarrow> g v) Q s =
    ((x = None \<longrightarrow> wp m Q s) \<and> (\<forall>v. x = Some v \<longrightarrow> wp (g v) Q s))"
  by (simp split: option.split)

lemma wp_prod [wp_simps]:
  "wp (case x of (a, b) \<Rightarrow> f a b) Q s = (\<forall>a b. x = (a, b) \<longrightarrow> wp (f a b) Q s)"
  by (simp split: prod.split)

lemma wp_Let [wp_simps]: "wp (Let x f) Q s = wp (f x) Q s"
  by simp

lemma wp_run: "wp m Q s \<Longrightarrow> run_state m s = (a, s') \<Longrightarrow> Q a s'"
  by (simp add: wp_def)

lemma wpI: "(\<And>a s'. run_state m s = (a, s') \<Longrightarrow> Q a s') \<Longrightarrow> wp m Q s"
  by (simp add: wp_def split: prod.split)

lemma wp_mono: "wp m P s \<Longrightarrow> (\<And>a s'. P a s' \<Longrightarrow> Q a s') \<Longrightarrow> wp m Q s"
  by (auto simp: wp_def split: prod.splits)

lemma wp_conj: "wp m P s \<Longrightarrow> wp m Q s \<Longrightarrow> wp m (\<lambda>a s'. P a s' \<and> Q a s') s"
  by (auto simp: wp_def split: prod.splits)

lemma run_state_prod [simp]:
  "run_state (case x of (a, b) \<Rightarrow> f a b) s = (case x of (a, b) \<Rightarrow> run_state (f a b) s)"
  by (simp split: prod.split)

lemma run_state_sum:
  "run_state (case x of Inl e \<Rightarrow> f e | Inr v \<Rightarrow> g v) s =
    (case x of Inl e \<Rightarrow> run_state (f e) s | Inr v \<Rightarrow> run_state (g v) s)"
  by (simp split: sum.split)

lemma run_state_option:
  "run_state (case x of None \<Rightarrow> m | Some v \<Rightarrow> g v) s =
    (case x of None \<Rightarrow> run_state m s | Some v \<Rightarrow> run_state (g v) s)"
  by (simp split: option.split)

lemma run_state_if:
  "run_state (if b then m else n) s = (if b then run_state m s else run_state n s)"
  by simp

lemmas run_simps = run_state_sum run_state_option run_state_if


section \<open>Relations every run of an operation keeps\<close>

text \<open>
  \<open>keeps R m\<close>: every run of \<open>m\<close> relates the state before to the state after. The
  frame and monotonicity facts of the operations are of this form, and compose by the rules
  of the locale below for any reflexive and transitive \<open>R\<close>.
\<close>

definition keeps :: "('s \<Rightarrow> 's \<Rightarrow> bool) \<Rightarrow> ('s, 'a) state \<Rightarrow> bool" where
  "keeps R m \<longleftrightarrow> (\<forall>s a s'. run_state m s = (a, s') \<longrightarrow> R s s')"

lemma keepsI: "(\<And>s a s'. run_state m s = (a, s') \<Longrightarrow> R s s') \<Longrightarrow> keeps R m"
  by (simp add: keeps_def)

lemma keepsD: "keeps R m \<Longrightarrow> run_state m s = (a, s') \<Longrightarrow> R s s'"
  by (simp add: keeps_def)

lemma keeps_wp: "keeps R m \<longleftrightarrow> (\<forall>s. wp m (\<lambda>_. R s) s)"
  by (auto simp: keeps_def wp_def split: prod.splits)

locale preorder_rel =
  fixes R :: "'s \<Rightarrow> 's \<Rightarrow> bool"
  assumes refl_R: "R s s"
    and trans_R: "R s t \<Longrightarrow> R t u \<Longrightarrow> R s u"
begin

lemma keeps_return: "keeps R (return x)"
  by (auto intro!: keepsI simp: refl_R)

lemma keeps_gets: "keeps R (gets f)"
  by (auto intro!: keepsI simp: refl_R)

lemma keeps_bind:
  "keeps R m \<Longrightarrow> (\<And>a. keeps R (f a)) \<Longrightarrow> keeps R (State_Monad.bind m f)"
  by (rule keepsI) (auto split: prod.splits dest!: keepsD intro: trans_R)

lemma keeps_if: "(b \<Longrightarrow> keeps R m) \<Longrightarrow> (\<not> b \<Longrightarrow> keeps R n) \<Longrightarrow> keeps R (if b then m else n)"
  by simp

lemma keeps_sum:
  "(\<And>e. keeps R (f e)) \<Longrightarrow> (\<And>v. keeps R (g v)) \<Longrightarrow>
    keeps R (case x of Inl e \<Rightarrow> f e | Inr v \<Rightarrow> g v)"
  by (cases x) auto

lemma keeps_option:
  "keeps R m \<Longrightarrow> (\<And>v. keeps R (g v)) \<Longrightarrow>
    keeps R (case x of None \<Rightarrow> m | Some v \<Rightarrow> g v)"
  by (cases x) auto

lemma keeps_prod: "(\<And>a b. keeps R (f a b)) \<Longrightarrow> keeps R (case x of (a, b) \<Rightarrow> f a b)"
  by (cases x) auto

lemma keeps_Let: "keeps R (f x) \<Longrightarrow> keeps R (Let x f)"
  by simp

lemmas keeps_rules =
  keeps_return keeps_gets keeps_bind keeps_if keeps_sum keeps_option
  keeps_prod keeps_Let

end


section \<open>What an operation can return\<close>

text \<open>\<open>returns m P\<close>: whatever the state, the result of \<open>m\<close> satisfies \<open>P\<close>.\<close>

definition returns :: "('s, 'a) state \<Rightarrow> ('a \<Rightarrow> bool) \<Rightarrow> bool" where
  "returns m P \<longleftrightarrow> (\<forall>s a s'. run_state m s = (a, s') \<longrightarrow> P a)"

lemma returnsD: "returns m P \<Longrightarrow> run_state m s = (a, s') \<Longrightarrow> P a"
  by (auto simp: returns_def)

lemma returns_return: "P x \<Longrightarrow> returns (return x) P"
  by (simp add: returns_def)

lemma returns_bind: "(\<And>a. returns (f a) P) \<Longrightarrow> returns (State_Monad.bind m f) P"
  by (auto simp: returns_def split: prod.splits)

lemma returns_if: "(b \<Longrightarrow> returns m P) \<Longrightarrow> (\<not> b \<Longrightarrow> returns n P) \<Longrightarrow> returns (if b then m else n) P"
  by simp

lemma returns_sum:
  "(\<And>e. x = Inl e \<Longrightarrow> returns (f e) P) \<Longrightarrow> (\<And>v. x = Inr v \<Longrightarrow> returns (g v) P) \<Longrightarrow>
    returns (case x of Inl e \<Rightarrow> f e | Inr v \<Rightarrow> g v) P"
  by (cases x) auto

lemma returns_option:
  "(x = None \<Longrightarrow> returns m P) \<Longrightarrow> (\<And>v. x = Some v \<Longrightarrow> returns (g v) P) \<Longrightarrow>
    returns (case x of None \<Rightarrow> m | Some v \<Rightarrow> g v) P"
  by (cases x) auto

lemma returns_prod: "(\<And>a b. x = (a, b) \<Longrightarrow> returns (f a b) P) \<Longrightarrow> returns (case x of (a, b) \<Rightarrow> f a b) P"
  by (cases x) auto

lemma returns_Let: "returns (f x) P \<Longrightarrow> returns (Let x f) P"
  by simp

lemmas returns_rules = returns_return returns_bind returns_if returns_sum returns_option returns_prod returns_Let

lemma wp_returns: "returns m P \<Longrightarrow> (\<And>a s'. P a \<Longrightarrow> Q a s') \<Longrightarrow> wp m Q s"
  by (auto simp: returns_def wp_all)


section \<open>Association lists\<close>

lemma map_of_filter_key:
  "map_of (filter (\<lambda>(k, v). P k) xs) k = (if P k then map_of xs k else None)"
  by (induction xs) auto

lemma distinct_keys_filter:
  "distinct (map fst xs) \<Longrightarrow> distinct (map fst (filter P xs))"
  by (induction xs) auto

end
