(* ===== verification/Go_Strings.thy ===== *)
theory Go_Strings
  imports Manta_Prelude "HOL-Library.Sublist" "HOL-Library.Char_ord"
begin

text \<open>
  The string functions of Go's standard library that the program calls: \<open>strings.TrimSpace\<close>,
  \<open>ToLower\<close>, \<open>HasPrefix\<close>, \<open>Contains\<close>, \<open>Join\<close>, the verbs \<open>%d\<close>, \<open>%03d\<close>, \<open>%02X\<close>,
  \<open>%q\<close> and \<open>%s\<close> of \<open>fmt\<close> (the last one on durations), \<open>strconv.Atoi\<close> and
  \<open>filepath.Clean\<close> and \<open>Join\<close>. A Go string is a sequence of bytes, here a \<open>char list\<close>.
\<close>

section \<open>Package strings\<close>

abbreviation byte :: "nat \<Rightarrow> char" where
  "byte n \<equiv> char_of n"

text \<open>
  The UTF-8 encodings of the code points with the Unicode property White\_Space, which is what
  \<open>TrimSpace\<close> removes at both ends.
\<close>

definition space_seqs :: "string list" where
  "space_seqs =
     [[CHR 0x09], [CHR 0x0A], [CHR 0x0B], [CHR 0x0C], [CHR 0x0D], [CHR 0x20],
      [CHR 0xC2, CHR 0x85], [CHR 0xC2, CHR 0xA0],
      [CHR 0xE1, CHR 0x9A, CHR 0x80], [CHR 0xE2, CHR 0x80, CHR 0x80],
      [CHR 0xE2, CHR 0x80, CHR 0x81], [CHR 0xE2, CHR 0x80, CHR 0x82],
      [CHR 0xE2, CHR 0x80, CHR 0x83], [CHR 0xE2, CHR 0x80, CHR 0x84],
      [CHR 0xE2, CHR 0x80, CHR 0x85], [CHR 0xE2, CHR 0x80, CHR 0x86],
      [CHR 0xE2, CHR 0x80, CHR 0x87], [CHR 0xE2, CHR 0x80, CHR 0x88],
      [CHR 0xE2, CHR 0x80, CHR 0x89], [CHR 0xE2, CHR 0x80, CHR 0x8A],
      [CHR 0xE2, CHR 0x80, CHR 0xA8], [CHR 0xE2, CHR 0x80, CHR 0xA9],
      [CHR 0xE2, CHR 0x80, CHR 0xAF], [CHR 0xE2, CHR 0x81, CHR 0x9F],
      [CHR 0xE3, CHR 0x80, CHR 0x80]]"

definition leading :: "string list \<Rightarrow> string \<Rightarrow> nat" where
  "leading seqs s = (case find (\<lambda>q. q \<noteq> [] \<and> take (length q) s = q) seqs of
     None \<Rightarrow> 0 | Some q \<Rightarrow> length q)"

lemma leading_le: "leading seqs s \<le> length s"
  by (auto simp: leading_def find_Some_iff split: option.splits)
     (metis length_take min.cobounded1)

function trim_left :: "string list \<Rightarrow> string \<Rightarrow> string" where
  "trim_left seqs s = (if leading seqs s = 0 then s else trim_left seqs (drop (leading seqs s) s))"
  by pat_completeness auto
termination
proof (relation "measure (\<lambda>(_, s). length s)")
  fix seqs s
  assume "leading seqs s \<noteq> 0"
  with leading_le [of seqs s] have "0 < leading seqs s" "leading seqs s \<le> length s" by auto
  then show "((seqs, drop (leading seqs s) s), seqs, s) \<in> measure (\<lambda>(_, s). length s)"
    by simp
qed simp

declare trim_left.simps [simp del]

definition TrimSpace :: "string \<Rightarrow> string" where
  "TrimSpace s = rev (trim_left (map rev space_seqs) (rev (trim_left space_seqs s)))"

text \<open>Text that begins and ends with a printable ASCII character is left alone.\<close>

definition printable :: "char \<Rightarrow> bool" where
  "printable c \<longleftrightarrow> CHR 0x20 < c \<and> c < CHR 0x7F"

lemma trim_left_stop: "leading seqs s = 0 \<Longrightarrow> trim_left seqs s = s"
  by (subst trim_left.simps) simp

lemma leading_printable:
  assumes "\<And>q. q \<in> set seqs \<Longrightarrow> q \<noteq> [] \<and> \<not> printable (hd q)" and "printable (hd s)" "s \<noteq> []"
  shows "leading seqs s = 0"
proof -
  have "take (length q) s \<noteq> q" if "q \<in> set seqs" for q
    using assms(1) [OF that] assms(2,3) by (metis hd_take length_greater_0_conv)
  then have "find (\<lambda>q. q \<noteq> [] \<and> take (length q) s = q) seqs = None"
    by (simp add: find_None_iff)
  then show ?thesis by (simp add: leading_def)
qed

lemma space_seqs_unprintable:
  "q \<in> set space_seqs \<Longrightarrow> q \<noteq> [] \<and> \<not> printable (hd q)"
  "q \<in> set (map rev space_seqs) \<Longrightarrow> q \<noteq> [] \<and> \<not> printable (hd q)"
  by (auto simp: space_seqs_def printable_def less_char_def)

lemma TrimSpace_Nil [simp]: "TrimSpace [] = []"
  by (simp add: TrimSpace_def space_seqs_def leading_def trim_left.simps)

lemma TrimSpace_printable:
  assumes "s \<noteq> []" "printable (hd s)" "printable (last s)"
  shows "TrimSpace s = s"
proof -
  have "leading space_seqs s = 0"
    by (rule leading_printable) (use assms space_seqs_unprintable(1) in auto)
  moreover have "leading (map rev space_seqs) (rev s) = 0"
    by (rule leading_printable) (use assms space_seqs_unprintable(2) in \<open>auto simp: hd_rev\<close>)
  ultimately show ?thesis by (simp add: TrimSpace_def trim_left_stop)
qed

text \<open>Trimming twice is trimming once.\<close>

lemma leading_trim: "leading seqs (trim_left seqs s) = 0"
  by (induction seqs s rule: trim_left.induct) (subst trim_left.simps, simp)

lemma trim_left_suffix: "\<exists>n. trim_left seqs s = drop n s"
proof (induction seqs s rule: trim_left.induct)
  case (1 seqs s)
  show ?case
  proof (cases "leading seqs s = 0")
    case True
    then show ?thesis by (intro exI [of _ 0]) (simp add: trim_left_stop)
  next
    case False
    with 1 obtain n where "trim_left seqs (drop (leading seqs s) s) = drop n (drop (leading seqs s) s)" by blast
    with False show ?thesis by (subst trim_left.simps) auto
  qed
qed

lemma leading_0: "leading seqs s = 0 \<longleftrightarrow> (\<forall>q \<in> set seqs. q = [] \<or> take (length q) s \<noteq> q)"
  by (auto simp: leading_def find_None_iff find_Some_iff split: option.splits)

lemma leading_prefix:
  assumes "leading seqs s = 0"
  shows "leading seqs (take n s) = 0"
proof -
  have "take (length q) s = q" if "take (length q) (take n s) = q" for q
  proof (cases "length q \<le> n")
    case False
    then have "length (take (length q) (take n s)) < length q" by simp
    with that show ?thesis by simp
  qed (use that in \<open>simp add: min_def\<close>)
  with assms show ?thesis unfolding leading_0 by blast
qed

lemma TrimSpace_idem: "TrimSpace (TrimSpace s) = TrimSpace s"
proof -
  let ?a = "trim_left space_seqs s"
  obtain n where "trim_left (map rev space_seqs) (rev ?a) = drop n (rev ?a)" using trim_left_suffix by blast
  then have t: "TrimSpace s = take (length ?a - n) ?a" by (simp add: TrimSpace_def rev_drop)
  have r: "trim_left (map rev space_seqs) (rev ?a) = rev (TrimSpace s)" by (simp add: TrimSpace_def)
  have "leading space_seqs (TrimSpace s) = 0" unfolding t by (rule leading_prefix [OF leading_trim])
  moreover have "leading (map rev space_seqs) (rev (TrimSpace s)) = 0" unfolding r [symmetric] by (rule leading_trim)
  ultimately show ?thesis by (subst TrimSpace_def) (simp add: trim_left_stop)
qed

text \<open>
  \<open>strings.ToLower\<close>. Every result is only compared with ASCII text, so the non-ASCII capitals
  that matter are the two whose lower case is ASCII: U+212A (Kelvin sign) and U+0130.
\<close>

fun ToLower :: "string \<Rightarrow> string" where
  "ToLower [] = []"
| "ToLower (c # s) =
    (if take 3 (c # s) = [CHR 0xE2, CHR 0x84, CHR 0xAA] then CHR ''k'' # ToLower (drop 2 s)
     else if take 2 (c # s) = [CHR 0xC4, CHR 0xB0] then CHR ''i'' # ToLower (drop 1 s)
     else if CHR ''A'' \<le> c \<and> c \<le> CHR ''Z'' then byte (of_char c + 32) # ToLower s
     else c # ToLower s)"

definition HasPrefix :: "string \<Rightarrow> string \<Rightarrow> bool" where
  "HasPrefix s p \<longleftrightarrow> take (length p) s = p"

fun Contains :: "string \<Rightarrow> string \<Rightarrow> bool" where
  "Contains [] sub = (sub = [])"
| "Contains (c # s) sub = (take (length sub) (c # s) = sub \<or> Contains s sub)"

fun strings_Join :: "string list \<Rightarrow> string \<Rightarrow> string" where
  "strings_Join [] sep = []"
| "strings_Join [x] sep = x"
| "strings_Join (x # xs) sep = x @ sep @ strings_Join xs sep"


section \<open>Numbers in text\<close>

definition digit :: "nat \<Rightarrow> char" where
  "digit d = byte (48 + d)"

fun utoa :: "nat \<Rightarrow> string" where
  "utoa n = (if n < 10 then [digit n] else utoa (n div 10) @ [digit (n mod 10)])"

declare utoa.simps [simp del]

definition itoa :: "int \<Rightarrow> string" where
  "itoa i = (if i < 0 then CHR ''-'' # utoa (nat (- i)) else utoa (nat i))"

text \<open>\<open>%03d\<close>: padded with zeros after the sign, to a width that counts the sign.\<close>

definition pad_itoa :: "nat \<Rightarrow> int \<Rightarrow> string" where
  "pad_itoa w i =
    (if i < 0 then CHR ''-'' # replicate (w - 1 - length (utoa (nat (- i)))) (CHR ''0'') @ utoa (nat (- i))
     else replicate (w - length (utoa (nat i))) (CHR ''0'') @ utoa (nat i))"

text \<open>\<open>%02X\<close> of a byte.\<close>

definition hexdigit :: "nat \<Rightarrow> char" where
  "hexdigit d = (if d < 10 then byte (48 + d) else byte (55 + d))"

definition hex2 :: "nat \<Rightarrow> string" where
  "hex2 n = [hexdigit (n div 16 mod 16), hexdigit (n mod 16)]"

definition is_digit :: "char \<Rightarrow> bool" where
  "is_digit c \<longleftrightarrow> CHR ''0'' \<le> c \<and> c \<le> CHR ''9''"

definition digits_val :: "string \<Rightarrow> nat" where
  "digits_val s = foldl (\<lambda>v c. 10 * v + (of_char c - 48)) 0 s"

text \<open>\<open>strconv.Atoi\<close>: an optional sign, at least one digit, a value in the range of \<open>int\<close>.\<close>

definition Atoi :: "string \<Rightarrow> int option" where
  "Atoi s =
    (let neg = (s \<noteq> [] \<and> hd s = CHR ''-'');
         body = (if s \<noteq> [] \<and> (hd s = CHR ''-'' \<or> hd s = CHR ''+'') then tl s else s);
         v = int (digits_val body)
     in if body = [] \<or> \<not> list_all is_digit body then None
        else if neg then (if v \<le> 2 ^ 63 then Some (- v) else None)
        else (if v < 2 ^ 63 then Some v else None))"

lemma of_char_digit: "d < 10 \<Longrightarrow> (of_char (digit d) :: nat) = 48 + d"
  by (simp add: digit_def of_char_of)

lemma is_digit_digit: "d < 10 \<Longrightarrow> is_digit (digit d)"
  by (simp add: is_digit_def less_eq_char_def of_char_digit)

lemma digits_val_snoc: "digits_val (s @ [c]) = 10 * digits_val s + (of_char c - 48)"
  by (simp add: digits_val_def)

lemma digits_val_utoa [simp]: "digits_val (utoa n) = n"
proof (induction n rule: utoa.induct)
  case (1 n)
  show ?case
  proof (cases "n < 10")
    case True
    then show ?thesis
      by (simp add: utoa.simps [of n] digits_val_def of_char_digit)
  next
    case False
    with 1 show ?thesis
      by (simp add: utoa.simps [of n] digits_val_snoc of_char_digit)
  qed
qed

lemma utoa_digits: "list_all is_digit (utoa n)"
proof (induction n rule: utoa.induct)
  case (1 n)
  show ?case
    using 1 by (cases "n < 10") (simp_all add: utoa.simps [of n] is_digit_digit)
qed

lemma utoa_Nil [simp]: "utoa n \<noteq> []"
  by (subst utoa.simps) simp

lemma utoa_inj [simp]: "utoa m = utoa n \<longleftrightarrow> m = n"
  by (metis digits_val_utoa)

lemma is_digit_not_minus: "is_digit c \<Longrightarrow> c \<noteq> CHR ''-''"
  by (auto simp: is_digit_def less_eq_char_def)

lemma hd_utoa_digit: "is_digit (hd (utoa n))"
  using utoa_digits [of n] by (cases "utoa n") simp_all

lemma utoa_not_minus: "CHR ''-'' # s \<noteq> utoa n"
  using hd_utoa_digit [of n] is_digit_not_minus by (metis list.sel(1))

lemma itoa_inj [simp]: "itoa i = itoa j \<longleftrightarrow> i = j"
proof -
  have neg: "CHR ''-'' # utoa m \<noteq> utoa n" "utoa n \<noteq> CHR ''-'' # utoa m" for m n
    using utoa_not_minus [of "utoa m" n] by simp_all
  show ?thesis
    by (cases "i < 0"; cases "j < 0") (simp_all add: itoa_def neg eq_nat_nat_iff)
qed

lemma itoa_of_nat: "itoa (int n) = utoa n"
  by (simp add: itoa_def)

lemma Atoi_itoa: "- (2 ^ 63) \<le> i \<Longrightarrow> i < 2 ^ 63 \<Longrightarrow> Atoi (itoa i) = Some i"
proof (cases "i < 0")
  case True
  assume "- (2 ^ 63) \<le> i"
  with True show ?thesis
    by (simp add: Atoi_def itoa_def utoa_digits)
next
  case False
  assume "i < 2 ^ 63"
  have "hd (utoa (nat i)) \<noteq> CHR ''-'' \<and> hd (utoa (nat i)) \<noteq> CHR ''+''"
    using hd_utoa_digit [of "nat i"] by (auto simp: is_digit_def less_eq_char_def)
  with False \<open>i < 2 ^ 63\<close> show ?thesis
    by (simp add: Atoi_def itoa_def utoa_digits)
qed

lemma digits_val_zeros: "digits_val (replicate k (CHR ''0'') @ s) = digits_val s"
  by (induction k) (simp_all add: digits_val_def)

text \<open>A zero-padded non-negative number still determines the number.\<close>

lemma pad_itoa_inj: "0 \<le> i \<Longrightarrow> 0 \<le> j \<Longrightarrow> pad_itoa w i = pad_itoa w j \<longleftrightarrow> i = j"
  by (auto simp: pad_itoa_def dest: arg_cong [where f = digits_val] simp: digits_val_zeros)

lemma hexdigit_inj: "a < 16 \<Longrightarrow> b < 16 \<Longrightarrow> hexdigit a = hexdigit b \<longleftrightarrow> a = b"
  by (auto simp: hexdigit_def split: if_splits dest!: arg_cong [where f = "of_char :: char \<Rightarrow> nat"])

lemma hex2_inj: "a < 256 \<Longrightarrow> b < 256 \<Longrightarrow> hex2 a = hex2 b \<longleftrightarrow> a = b"
  by (auto simp: hex2_def hexdigit_inj)
     (metis div_mult_mod_eq less_mult_imp_div_less mod_less num_double numeral_times_numeral)


section \<open>Quoted strings and durations in messages\<close>

text \<open>\<open>%q\<close>; bytes above 0x7F are copied (Go escapes those of unprintable code points).\<close>

fun Quote_char :: "char \<Rightarrow> string" where
  "Quote_char c =
    (if c = CHR 0x22 then [CHR 0x5C, CHR 0x22]
     else if c = CHR 0x5C then [CHR 0x5C, CHR 0x5C]
     else if c = CHR 0x07 then [CHR 0x5C, CHR ''a'']
     else if c = CHR 0x08 then [CHR 0x5C, CHR ''b'']
     else if c = CHR 0x0C then [CHR 0x5C, CHR ''f'']
     else if c = CHR 0x0A then [CHR 0x5C, CHR ''n'']
     else if c = CHR 0x0D then [CHR 0x5C, CHR ''r'']
     else if c = CHR 0x09 then [CHR 0x5C, CHR ''t'']
     else if c = CHR 0x0B then [CHR 0x5C, CHR ''v'']
     else if (of_char c :: nat) < 32 \<or> (of_char c :: nat) = 127
       then [CHR 0x5C, CHR ''x''] @ ToLower (hex2 (of_char c))
     else [c])"

definition Quote :: "string \<Rightarrow> string" where
  "Quote s = [CHR 0x22] @ concat (map Quote_char s) @ [CHR 0x22]"

text \<open>\<open>Duration.String\<close>: the largest fitting unit, fractions without trailing zeros.\<close>

definition frac_string :: "nat \<Rightarrow> nat \<Rightarrow> string" where
  "frac_string v width =
    (let ds = replicate (width - length (utoa v)) (CHR ''0'') @ utoa v;
         kept = rev (dropWhile (\<lambda>c. c = CHR ''0'') (rev ds))
     in if kept = [] then [] else CHR ''.'' # kept)"

definition unit_string :: "nat \<Rightarrow> nat \<Rightarrow> nat \<Rightarrow> string \<Rightarrow> string" where
  "unit_string u scale width name =
    utoa (u div scale) @ (if width = 0 then [] else frac_string (u mod scale) width) @ name"

definition Duration_String :: "int \<Rightarrow> string" where
  "Duration_String d =
    (let u = nat \<bar>d\<bar>; sign = (if d < 0 then ''-'' else []);
         secs = u div 1000000000; m = secs div 60; h = m div 60
     in if u = 0 then ''0s''
        else sign @
         (if u < 1000 then unit_string u 1 0 ''ns''
          else if u < 1000000 then unit_string u 1000 3 ([CHR 0xC2, CHR 0xB5] @ ''s'')
          else if u < 1000000000 then unit_string u 1000000 6 ''ms''
          else (if h > 0 then utoa h @ ''h'' else []) @
               (if m > 0 then utoa (m mod 60) @ ''m'' else []) @
               utoa (secs mod 60) @ frac_string (u mod 1000000000) 9 @ ''s''))"


section \<open>Package filepath\<close>

abbreviation slash :: char where "slash \<equiv> CHR ''/''"

fun split_slash :: "string \<Rightarrow> string list" where
  "split_slash [] = [[]]"
| "split_slash (c # s) =
    (if c = slash then [] # split_slash s
     else (case split_slash s of [] \<Rightarrow> [[c]] | w # ws \<Rightarrow> (c # w) # ws))"

fun clean_elems :: "bool \<Rightarrow> string list \<Rightarrow> string list \<Rightarrow> string list" where
  "clean_elems rooted out [] = rev out"
| "clean_elems rooted out (e # es) =
    (if e = [] \<or> e = ''.'' then clean_elems rooted out es
     else if e = ''..'' then
       (case out of
          p # out' \<Rightarrow> if p \<noteq> ''..'' then clean_elems rooted out' es
                      else clean_elems rooted (''..'' # out) es
        | [] \<Rightarrow> if rooted then clean_elems rooted out es
               else clean_elems rooted (''..'' # out) es)
     else clean_elems rooted (e # out) es)"

definition Clean :: "string \<Rightarrow> string" where
  "Clean p =
    (let rooted = (p \<noteq> [] \<and> hd p = slash);
         es = clean_elems rooted [] (split_slash p)
     in if rooted then slash # strings_Join es [slash]
        else if es = [] then ''.'' else strings_Join es [slash])"

definition Join :: "string list \<Rightarrow> string" where
  "Join elems = (case dropWhile (\<lambda>e. e = []) elems of
     [] \<Rightarrow> [] | es \<Rightarrow> Clean (strings_Join es [slash]))"

text \<open>
  A path in normal form: absolute, each element non-empty, without a slash and neither \<open>.\<close>
  nor \<open>..\<close>. \<open>Join\<close> with such an element appends it.
\<close>

definition plain_elem :: "string \<Rightarrow> bool" where
  "plain_elem e \<longleftrightarrow> e \<noteq> [] \<and> slash \<notin> set e \<and> e \<noteq> ''.'' \<and> e \<noteq> ''..''"

definition abs_path :: "string list \<Rightarrow> string" where
  "abs_path es = slash # strings_Join es [slash]"

lemma split_slash_no: "slash \<notin> set e \<Longrightarrow> split_slash e = [e]"
  by (induction e) auto

lemma split_slash_append: "slash \<notin> set e \<Longrightarrow> split_slash (e @ slash # s) = e # split_slash s"
  by (induction e) auto

lemma strings_Join_Cons: "es \<noteq> [] \<Longrightarrow> strings_Join (e # es) sep = e @ sep @ strings_Join es sep"
  by (cases es) simp_all

lemma strings_Join_snoc:
  "es \<noteq> [] \<Longrightarrow> strings_Join (es @ [e]) sep = strings_Join es sep @ sep @ e"
  by (induction es rule: list_nonempty_induct) (simp_all add: strings_Join_Cons)

lemma split_slash_Join:
  "es \<noteq> [] \<Longrightarrow> list_all plain_elem es \<Longrightarrow> split_slash (strings_Join es [slash]) = es"
  by (induction es rule: list_nonempty_induct)
     (simp_all add: split_slash_no split_slash_append strings_Join_Cons plain_elem_def)

lemma clean_elems_plain:
  "list_all plain_elem es \<Longrightarrow> clean_elems rooted out es = rev out @ es"
  by (induction es arbitrary: out) (auto simp: plain_elem_def)

lemma Clean_abs_path: "list_all plain_elem es \<Longrightarrow> Clean (abs_path es) = abs_path es"
  by (cases "es = []")
     (simp_all add: Clean_def abs_path_def Let_def split_slash_Join clean_elems_plain)

lemma abs_path_snoc:
  "list_all plain_elem es \<Longrightarrow> es \<noteq> [] \<Longrightarrow> abs_path (es @ [e]) = abs_path es @ slash # e"
  by (simp add: abs_path_def strings_Join_snoc)

text \<open>The work directory of the server is absolute and not the root itself.\<close>

definition work_path :: "string \<Rightarrow> bool" where
  "work_path w \<longleftrightarrow> (\<exists>es. es \<noteq> [] \<and> list_all plain_elem es \<and> w = abs_path es)"

lemma Join_append:
  assumes w: "work_path w" and e: "plain_elem e"
  shows "Join [w, e] = w @ slash # e"
proof -
  from w obtain es where es: "es \<noteq> []" "list_all plain_elem es" "w = abs_path es"
    by (auto simp: work_path_def)
  have "Join [w, e] = Clean (abs_path (es @ [e]))"
    using es by (simp add: Join_def abs_path_snoc) (simp add: abs_path_def)
  also have "\<dots> = abs_path (es @ [e])"
    using es e by (intro Clean_abs_path) simp
  finally show ?thesis
    using es by (simp add: abs_path_snoc)
qed

lemma work_path_append: "work_path w \<Longrightarrow> plain_elem e \<Longrightarrow> work_path (w @ slash # e)"
proof -
  assume "work_path w" and e: "plain_elem e"
  then obtain es where "es \<noteq> []" "list_all plain_elem es" "w = abs_path es"
    by (auto simp: work_path_def)
  with e show ?thesis
    unfolding work_path_def by (intro exI [of _ "es @ [e]"]) (simp add: abs_path_snoc)
qed

lemma Join_append2:
  "work_path w \<Longrightarrow> plain_elem a \<Longrightarrow> plain_elem b \<Longrightarrow> Join [w, a, b] = w @ slash # a @ slash # b"
proof -
  assume w: "work_path w" and ab: "plain_elem a" "plain_elem b"
  from w have "w \<noteq> []" by (auto simp: work_path_def abs_path_def)
  then have "Join [w, a, b] = Join [w @ slash # a, b]"
    by (simp add: Join_def)
  with w ab show ?thesis
    by (simp add: Join_append work_path_append)
qed

lemma Join_append_right:
  assumes "work_path w" "plain_elem e"
  shows "work_path (Join [w, e])"
  using assms by (simp add: Join_append work_path_append)

text \<open>\<open>below p q\<close>: \<open>q\<close> is \<open>p\<close> or an entry somewhere under the directory \<open>p\<close>.\<close>

definition below :: "string \<Rightarrow> string \<Rightarrow> bool" where
  "below p q \<longleftrightarrow> q = p \<or> take (length p + 1) q = p @ [slash]"

lemma below_refl [simp]: "below p p"
  by (simp add: below_def)

lemma below_append [simp]: "below p (p @ slash # q)"
  by (simp add: below_def)

lemma below_iff: "below p q \<longleftrightarrow> q = p \<or> (\<exists>r. q = p @ slash # r)"
  unfolding below_def
  by (metis append.assoc append_Cons append_Nil append_take_drop_id append_eq_conv_conj length_append_singleton Suc_eq_plus1)

end
