(* ===== verification/Go_Json.thy ===== *)
theory Go_Json
  imports Go_Strings
begin

text \<open>
  Go's \<open>encoding/json\<close> as the program uses it: \<open>Marshal\<close> and \<open>MarshalIndent\<close> (HTML-safe
  escaping, invalid UTF-8 replaced by U+FFFD), the parser behind \<open>Unmarshal\<close> and
  \<open>Decoder.Decode\<close>, and decoding into structs, with \<open>DisallowUnknownFields\<close> as a flag. Text is
  a byte string. The main result is the round trip: parsing what either printer writes gives
  the value back, for every value whose strings are valid UTF-8.
\<close>

section \<open>UTF-8\<close>

abbreviation code :: "char \<Rightarrow> nat" where
  "code c \<equiv> of_char c"

definition in_range :: "nat \<Rightarrow> nat \<Rightarrow> char \<Rightarrow> bool" where
  "in_range lo hi c \<longleftrightarrow> lo \<le> code c \<and> code c \<le> hi"

abbreviation cont :: "char \<Rightarrow> bool" where
  "cont \<equiv> in_range 0x80 0xBF"

text \<open>The length of the valid UTF-8 sequence at the start of a string, 0 if there is none.\<close>

fun rune_len :: "string \<Rightarrow> nat" where
  "rune_len [] = 0"
| "rune_len (a # s) =
    (if code a < 0x80 then 1
     else case s of
       [] \<Rightarrow> 0
     | b # s' \<Rightarrow>
       if in_range 0xC2 0xDF a then (if cont b then 2 else 0)
       else case s' of
         [] \<Rightarrow> 0
       | c # s'' \<Rightarrow>
         if code a = 0xE0 then (if in_range 0xA0 0xBF b \<and> cont c then 3 else 0)
         else if code a = 0xED then (if in_range 0x80 0x9F b \<and> cont c then 3 else 0)
         else if in_range 0xE1 0xEF a then (if cont b \<and> cont c then 3 else 0)
         else case s'' of
           [] \<Rightarrow> 0
         | d # _ \<Rightarrow>
           if code a = 0xF0 then (if in_range 0x90 0xBF b \<and> cont c \<and> cont d then 4 else 0)
           else if in_range 0xF1 0xF3 a then (if cont b \<and> cont c \<and> cont d then 4 else 0)
           else if code a = 0xF4 then (if in_range 0x80 0x8F b \<and> cont c \<and> cont d then 4 else 0)
           else 0)"

fun valid_utf8 :: "string \<Rightarrow> bool" where
  "valid_utf8 [] = True"
| "valid_utf8 (a # s) = (rune_len (a # s) \<noteq> 0 \<and> valid_utf8 (drop (rune_len (a # s) - 1) s))"

definition rune_error :: string where
  "rune_error = [CHR 0xEF, CHR 0xBF, CHR 0xBD]"

text \<open>\<open>utf8.EncodeRune\<close>.\<close>

definition encode_rune :: "nat \<Rightarrow> string" where
  "encode_rune r =
    (if r < 0x80 then [byte r]
     else if r < 0x800 then [byte (0xC0 + r div 64), byte (0x80 + r mod 64)]
     else if r > 0x10FFFF \<or> (0xD800 \<le> r \<and> r \<le> 0xDFFF) then rune_error
     else if r < 0x10000 then
       [byte (0xE0 + r div 4096), byte (0x80 + r div 64 mod 64), byte (0x80 + r mod 64)]
     else
       [byte (0xF0 + r div 262144), byte (0x80 + r div 4096 mod 64),
        byte (0x80 + r div 64 mod 64), byte (0x80 + r mod 64)])"


section \<open>Values and printing\<close>

text \<open>A number is kept as its literal, as Go's decoder does until it knows the target type.\<close>

datatype json =
    JNull
  | JBool bool
  | JNum string
  | JStr string
  | JArr "json list"
  | JObj "(string \<times> json) list"

abbreviation quote_c :: char where "quote_c \<equiv> CHR 0x22"
abbreviation bslash :: char where "bslash \<equiv> CHR 0x5C"

definition lhex :: "nat \<Rightarrow> char" where
  "lhex d = (if d < 10 then byte (48 + d) else byte (87 + d))"

text \<open>An ASCII character inside a string literal.\<close>

definition esc :: "char \<Rightarrow> string" where
  "esc c =
    (if c = quote_c \<or> c = bslash then [bslash, c]
     else if c = CHR 0x08 then [bslash, CHR ''b'']
     else if c = CHR 0x0C then [bslash, CHR ''f'']
     else if c = CHR 0x0A then [bslash, CHR ''n'']
     else if c = CHR 0x0D then [bslash, CHR ''r'']
     else if c = CHR 0x09 then [bslash, CHR ''t'']
     else if code c < 32 \<or> c = CHR ''<'' \<or> c = CHR ''>'' \<or> c = CHR ''&''
       then bslash # ''u00'' @ [lhex (code c div 16), lhex (code c mod 16)]
     else [c])"

function enc_chars :: "string \<Rightarrow> string" where
  "enc_chars [] = []"
| "enc_chars (c # s) =
    (let n = rune_len (c # s) in
     if n = 0 then bslash # ''ufffd'' @ enc_chars s
     else if n = 1 then esc c @ enc_chars s
     else if take n (c # s) = [CHR 0xE2, CHR 0x80, CHR 0xA8] then bslash # ''u2028'' @ enc_chars (drop (n - 1) s)
     else if take n (c # s) = [CHR 0xE2, CHR 0x80, CHR 0xA9] then bslash # ''u2029'' @ enc_chars (drop (n - 1) s)
     else take n (c # s) @ enc_chars (drop (n - 1) s))"
  by pat_completeness auto
termination by (relation "measure length") auto

definition enc_string :: "string \<Rightarrow> string" where
  "enc_string s = quote_c # enc_chars s @ [quote_c]"

text \<open>
  One printer for both layouts: \<open>nl d\<close> is the white space before an element at depth \<open>d\<close>,
  \<open>col\<close> the text between a key and its value.
\<close>

fun enc :: "(nat \<Rightarrow> string) \<Rightarrow> string \<Rightarrow> nat \<Rightarrow> json \<Rightarrow> string" where
  "enc nl col d JNull = ''null''"
| "enc nl col d (JBool b) = (if b then ''true'' else ''false'')"
| "enc nl col d (JNum l) = l"
| "enc nl col d (JStr s) = enc_string s"
| "enc nl col d (JArr []) = ''[]''"
| "enc nl col d (JArr (x # xs)) =
    CHR ''['' # nl (Suc d) @ enc nl col (Suc d) x @
      concat (map (\<lambda>y. CHR '','' # nl (Suc d) @ enc nl col (Suc d) y) xs) @ nl d @ '']''"
| "enc nl col d (JObj []) = ''{}''"
| "enc nl col d (JObj (p # ps)) =
    CHR ''{'' # nl (Suc d) @ enc_string (fst p) @ col @ enc nl col (Suc d) (snd p) @
      concat (map (\<lambda>q. CHR '','' # nl (Suc d) @ enc_string (fst q) @ col @
                        enc nl col (Suc d) (snd q)) ps) @ nl d @ ''}''"

definition Marshal :: "json \<Rightarrow> string" where
  "Marshal j = enc (\<lambda>_. []) '':'' 0 j"

text \<open>\<open>json.MarshalIndent(v, "", "  ")\<close>.\<close>

definition MarshalIndent :: "json \<Rightarrow> string" where
  "MarshalIndent j = enc (\<lambda>d. CHR 0x0A # replicate (2 * d) (CHR '' '')) '': '' 0 j"


section \<open>Parsing\<close>

definition is_ws :: "char \<Rightarrow> bool" where
  "is_ws c \<longleftrightarrow> c = CHR '' '' \<or> c = CHR 0x09 \<or> c = CHR 0x0A \<or> c = CHR 0x0D"

abbreviation skip :: "string \<Rightarrow> string" where
  "skip \<equiv> dropWhile is_ws"

definition hex_val :: "char \<Rightarrow> nat option" where
  "hex_val c =
    (if in_range 48 57 c then Some (code c - 48)
     else if in_range 97 102 c then Some (code c - 87)
     else if in_range 65 70 c then Some (code c - 55)
     else None)"

text \<open>\<open>getu4\<close>: four hexadecimal digits.\<close>

fun getu4 :: "string \<Rightarrow> nat option" where
  "getu4 (a # b # c # d # s) =
    (case (hex_val a, hex_val b, hex_val c, hex_val d) of
       (Some a', Some b', Some c', Some d') \<Rightarrow> Some (4096 * a' + 256 * b' + 16 * c' + d')
     | _ \<Rightarrow> None)"
| "getu4 _ = None"

text \<open>A surrogate pair \<open>\uD8xx\uDCxx\<close> at the start of a string: its code point.\<close>

definition low_surrogate :: "nat \<Rightarrow> string \<Rightarrow> nat option" where
  "low_surrogate r s =
    (if 0xD800 \<le> r \<and> r < 0xDC00 \<and> take 2 s = [bslash, CHR ''u''] then
       (case getu4 (drop 2 s) of
          None \<Rightarrow> None
        | Some q \<Rightarrow> if 0xDC00 \<le> q \<and> q \<le> 0xDFFF
            then Some (0x10000 + (r - 0xD800) * 1024 + (q - 0xDC00)) else None)
     else None)"

definition simple_esc :: "char \<Rightarrow> char option" where
  "simple_esc c =
    (if c = quote_c \<or> c = bslash \<or> c = CHR ''/'' then Some c
     else if c = CHR ''b'' then Some (CHR 0x08)
     else if c = CHR ''f'' then Some (CHR 0x0C)
     else if c = CHR ''n'' then Some (CHR 0x0A)
     else if c = CHR ''r'' then Some (CHR 0x0D)
     else if c = CHR ''t'' then Some (CHR 0x09)
     else None)"

abbreviation prepend :: "string \<Rightarrow> (string \<times> string) option \<Rightarrow> (string \<times> string) option" where
  "prepend p r \<equiv> map_option (\<lambda>(a, b). (p @ a, b)) r"

text \<open>The contents of a string literal, after its opening quote, and the text after it.\<close>

function unquote :: "string \<Rightarrow> (string \<times> string) option" where
  "unquote [] = None"
| "unquote (c # s) =
    (if c = quote_c then Some ([], s)
     else if c = bslash then
       (case s of
          [] \<Rightarrow> None
        | e # s' \<Rightarrow>
          if e = CHR ''u'' then
            (case getu4 s' of
               None \<Rightarrow> None
             | Some r \<Rightarrow>
               (case low_surrogate r (drop 4 s') of
                  Some q \<Rightarrow> prepend (encode_rune q) (unquote (drop 10 s'))
                | None \<Rightarrow> prepend (encode_rune r) (unquote (drop 4 s'))))
          else
            (case simple_esc e of
               None \<Rightarrow> None
             | Some x \<Rightarrow> prepend [x] (unquote s')))
     else if code c < 32 then None
     else if rune_len (c # s) = 0 then prepend rune_error (unquote s)
     else prepend (take (rune_len (c # s)) (c # s)) (unquote (drop (rune_len (c # s) - 1) s)))"
  by pat_completeness auto
termination by (relation "measure length") auto

text \<open>A number literal: sign, integer part without a leading zero, fraction, exponent.\<close>

definition lex_int :: "string \<Rightarrow> (string \<times> string) option" where
  "lex_int s =
    (case s of
       [] \<Rightarrow> None
     | c # t \<Rightarrow>
       if c = CHR ''0'' then Some ([c], t)
       else if is_digit c then Some (c # takeWhile is_digit t, dropWhile is_digit t)
       else None)"

definition lex_frac :: "string \<Rightarrow> (string \<times> string) option" where
  "lex_frac s =
    (case s of
       c # t \<Rightarrow>
         if c = CHR ''.'' then
           (if takeWhile is_digit t = [] then None
            else Some (c # takeWhile is_digit t, dropWhile is_digit t))
         else Some ([], s)
     | [] \<Rightarrow> Some ([], s))"

definition lex_exp :: "string \<Rightarrow> (string \<times> string) option" where
  "lex_exp s =
    (case s of
       c # t \<Rightarrow>
         if c = CHR ''e'' \<or> c = CHR ''E'' then
           (let sg = (case t of x # _ \<Rightarrow> if x = CHR ''+'' \<or> x = CHR ''-'' then [x] else [] | [] \<Rightarrow> []);
                u = drop (length sg) t
            in if takeWhile is_digit u = [] then None
               else Some (c # sg @ takeWhile is_digit u, dropWhile is_digit u))
         else Some ([], s)
     | [] \<Rightarrow> Some ([], s))"

definition lex_num :: "string \<Rightarrow> (string \<times> string) option" where
  "lex_num s =
    (let sg = (case s of c # _ \<Rightarrow> if c = CHR ''-'' then [c] else [] | [] \<Rightarrow> []) in
     case lex_int (drop (length sg) s) of
       None \<Rightarrow> None
     | Some (i, t) \<Rightarrow>
       (case lex_frac t of
          None \<Rightarrow> None
        | Some (f, u) \<Rightarrow>
          (case lex_exp u of None \<Rightarrow> None | Some (e, v) \<Rightarrow> Some (sg @ i @ f @ e, v))))"

text \<open>
  The recursive-descent parser. \<open>d\<close> is what is left of the nesting limit of 10000 that Go's
  scanner imposes; the first argument is fuel, and \<open>parse_prefix\<close> gives enough of it for any
  text (\<open>pval_fuel_irrelevant\<close> below).
\<close>

fun pval :: "nat \<Rightarrow> nat \<Rightarrow> string \<Rightarrow> (json \<times> string) option"
  and pelems :: "nat \<Rightarrow> nat \<Rightarrow> string \<Rightarrow> (json list \<times> string) option"
  and pmembers :: "nat \<Rightarrow> nat \<Rightarrow> string \<Rightarrow> ((string \<times> json) list \<times> string) option" where
  "pval 0 d s = None"
| "pval (Suc n) d s =
    (case skip s of
       [] \<Rightarrow> None
     | c # t \<Rightarrow>
       if c = CHR ''['' then
         (if d = 0 then None
          else if take 1 (skip t) = '']'' then Some (JArr [], drop 1 (skip t))
          else map_option (\<lambda>(xs, r). (JArr xs, r)) (pelems n (d - 1) t))
       else if c = CHR ''{'' then
         (if d = 0 then None
          else if take 1 (skip t) = ''}'' then Some (JObj [], drop 1 (skip t))
          else map_option (\<lambda>(xs, r). (JObj xs, r)) (pmembers n (d - 1) t))
       else if c = quote_c then map_option (\<lambda>(x, r). (JStr x, r)) (unquote t)
       else if take 4 (c # t) = ''null'' then Some (JNull, drop 3 t)
       else if take 4 (c # t) = ''true'' then Some (JBool True, drop 3 t)
       else if take 5 (c # t) = ''false'' then Some (JBool False, drop 4 t)
       else map_option (\<lambda>(x, r). (JNum x, r)) (lex_num (c # t)))"
| "pelems 0 d s = None"
| "pelems (Suc n) d s =
    (case pval n d s of
       None \<Rightarrow> None
     | Some (v, t) \<Rightarrow>
       (case skip t of
          [] \<Rightarrow> None
        | c # u \<Rightarrow>
          if c = CHR '','' then map_option (\<lambda>(vs, r). (v # vs, r)) (pelems n d u)
          else if c = CHR '']'' then Some ([v], u)
          else None))"
| "pmembers 0 d s = None"
| "pmembers (Suc n) d s =
    (case skip s of
       [] \<Rightarrow> None
     | q # t \<Rightarrow>
       if q \<noteq> quote_c then None
       else (case unquote t of
          None \<Rightarrow> None
        | Some (k, t') \<Rightarrow>
          (case skip t' of
             [] \<Rightarrow> None
           | c # u \<Rightarrow>
             if c \<noteq> CHR '':'' then None
             else (case pval n d u of
                None \<Rightarrow> None
              | Some (v, w) \<Rightarrow>
                (case skip w of
                   [] \<Rightarrow> None
                 | e # x \<Rightarrow>
                   if e = CHR '','' then map_option (\<lambda>(ms, r). ((k, v) # ms, r)) (pmembers n d x)
                   else if e = CHR ''}'' then Some ([(k, v)], x)
                   else None)))))"

definition max_depth :: nat where "max_depth = 10000"

text \<open>The first value of a text and what follows it: what \<open>Decoder.Decode\<close> reads.\<close>

definition parse_prefix :: "string \<Rightarrow> (json \<times> string) option" where
  "parse_prefix s = pval (2 * length s + 1) max_depth s"

text \<open>A whole text, as \<open>json.Unmarshal\<close> requires.\<close>

definition parse_all :: "string \<Rightarrow> json option" where
  "parse_all s = (case parse_prefix s of
     None \<Rightarrow> None | Some (j, r) \<Rightarrow> if skip r = [] then Some j else None)"


section \<open>Reading back what is printed\<close>

declare enc_chars.simps(2) [simp del] unquote.simps(2) [simp del]

lemma rune_len_le4: "rune_len s \<le> 4"
  by (cases s rule: rune_len.cases) (auto split: list.splits)

lemma rune_len_one: "rune_len (c # s) = 1 \<longleftrightarrow> code c < 0x80"
  by (auto split: list.splits if_splits)

lemma rune_len_multi: "rune_len (c # s) \<noteq> 0 \<Longrightarrow> rune_len (c # s) \<noteq> 1 \<Longrightarrow> 0x80 \<le> code c"
  by (auto split: list.splits if_splits)

lemma rune_len_take:
  assumes "rune_len x \<noteq> 0"
  shows "rune_len (take (rune_len x) x @ y) = rune_len x"
proof (cases x)
  case Nil
  with assms show ?thesis by simp
next
  case (Cons a s)
  show ?thesis
  proof (cases "code a < 0x80")
    case True
    with Cons show ?thesis by simp
  next
    case a: False
    with assms Cons obtain b s' where s: "s = b # s'"
      by (cases s) auto
    show ?thesis
    proof (cases "in_range 0xC2 0xDF a")
      case True
      with assms a Cons s show ?thesis by (auto split: if_splits)
    next
      case b: False
      with a assms Cons s obtain c s'' where s': "s' = c # s''"
        by (cases s') auto
      show ?thesis
        using a b assms Cons s s' 
        by (cases s'') (auto split: if_splits simp del: One_nat_def)
    qed
  qed
qed

lemma rune_len_length: "rune_len x \<le> length x"
  by (cases x rule: rune_len.cases) (auto split: list.splits)


lemma hex_val_lhex: "d < 16 \<Longrightarrow> hex_val (lhex d) = Some d"
  by (auto simp: hex_val_def lhex_def in_range_def of_char_of)

lemma unquote_esc:
  assumes "code c < 0x80"
  shows "unquote (esc c @ r) = prepend [c] (unquote r)"
proof -
  have u: "unquote (bslash # ''u00'' @ lhex (code c div 16) # lhex (code c mod 16) # r) =
      prepend [c] (unquote r)"
  proof -
    have "getu4 (CHR ''0'' # CHR ''0'' # lhex (code c div 16) # lhex (code c mod 16) # r) = Some (code c)"
      using assms by (simp add: hex_val_lhex) (simp add: hex_val_def in_range_def)
    moreover have "encode_rune (code c) = [c]"
      using assms by (simp add: encode_rune_def)
    moreover have "low_surrogate (code c) r = None"
      using assms by (simp add: low_surrogate_def)
    ultimately show ?thesis
      by (subst unquote.simps(2)) simp
  qed
  show ?thesis
  proof (cases "length (esc c) = 1")
    case True
    then have c: "esc c = [c]" "c \<noteq> quote_c" "c \<noteq> bslash" "\<not> code c < 32"
      by (auto simp: esc_def split: if_splits)
    have "rune_len (c # r) = 1" using assms by (simp only: rune_len_one)
    with c show ?thesis by (simp add: unquote.simps(2) [of c r])
  next
    case False
    then consider
        "esc c = bslash # ''u00'' @ [lhex (code c div 16), lhex (code c mod 16)]"
      | e where "esc c = [bslash, e]" "e \<noteq> CHR ''u''" "simple_esc e = Some c"
      by (auto simp: esc_def simple_esc_def split: if_splits)
    then show ?thesis
      by cases (use u in \<open>simp_all add: unquote.simps(2) [of bslash "_ # r"]\<close>)
  qed
qed

lemma line_separator_bytes:
  "byte 226 = CHR 0xE2" "byte 128 = CHR 0x80" "byte 168 = CHR 0xA8" "byte 169 = CHR 0xA9"
  by (simp_all add: char_of_def bit_iff_odd)

lemma unquote_u4:
  "unquote (bslash # CHR ''u'' # CHR ''2'' # CHR ''0'' # CHR ''2'' # CHR ''8'' # r) = prepend [CHR 0xE2, CHR 0x80, CHR 0xA8] (unquote r)"
  "unquote (bslash # CHR ''u'' # CHR ''2'' # CHR ''0'' # CHR ''2'' # CHR ''9'' # r) = prepend [CHR 0xE2, CHR 0x80, CHR 0xA9] (unquote r)"
  by (simp_all add: unquote.simps(2) [of bslash] hex_val_def in_range_def low_surrogate_def encode_rune_def
      line_separator_bytes)

lemma unquote_rune:
  assumes "rune_len (c # s) \<noteq> 0" "rune_len (c # s) \<noteq> 1"
  shows "unquote (take (rune_len (c # s)) (c # s) @ r) = prepend (take (rune_len (c # s)) (c # s)) (unquote r)"
proof -
  let ?n = "rune_len (c # s)"
  have c: "c \<noteq> quote_c" "c \<noteq> bslash" "\<not> code c < 32"
    using rune_len_multi [OF assms] by auto
  have eq: "take ?n (c # s) @ r = c # (take (?n - 1) s @ r)"
    using assms(1) by (simp add: take_Cons')
  have n: "rune_len (c # (take (?n - 1) s @ r)) = ?n"
    using rune_len_take [OF assms(1), of r] by (simp only: eq)
  have len: "?n - 1 \<le> length s"
    using rune_len_length [of "c # s"] by simp
  show ?thesis
    unfolding eq
    by (subst unquote.simps(2)) (use c n assms(1) len eq in \<open>simp add: take_Cons' del: rune_len.simps\<close>)
qed

lemma unquote_enc_chars:
  "valid_utf8 s \<Longrightarrow> unquote (enc_chars s @ quote_c # r) = Some (s, r)"
proof (induction s rule: enc_chars.induct)
  case 1
  then show ?case by (simp add: unquote.simps(2))
next
  case (2 c s)
  let ?n = "rune_len (c # s)"
  from "2.prems" have n0: "?n \<noteq> 0" and v: "valid_utf8 (drop (?n - 1) s)"
    by (auto simp del: rune_len.simps)
  have split: "take ?n (c # s) @ drop (?n - 1) s = c # s"
    using n0 by (simp add: take_Cons' del: rune_len.simps)
  show ?case
  proof (cases "?n = 1")
    case True
    then have "code c < 0x80" by (simp only: rune_len_one)
    with True v 2 show ?thesis
      by (subst enc_chars.simps(2)) (simp add: Let_def unquote_esc del: rune_len.simps)
  next
    case False
    note IH = "2.IH"(3-5) [OF refl n0 False]
    show ?thesis
      using n0 False v IH split
      by (subst enc_chars.simps(2))
         (auto simp: Let_def unquote_u4 unquote_rune simp del: rune_len.simps)
  qed
qed


subsection \<open>Numbers\<close>

definition the_int :: "string \<Rightarrow> int" where
  "the_int l = (if take 1 l = ''-'' then - int (digits_val (tl l)) else int (digits_val l))"

definition num_ok :: "string \<Rightarrow> bool" where
  "num_ok l \<longleftrightarrow> l = itoa (the_int l)"

lemma the_int_itoa [simp]: "the_int (itoa i) = i"
proof (cases "i < 0")
  case True
  then show ?thesis by (simp add: the_int_def itoa_def)
next
  case False
  have "take 1 (utoa (nat i)) \<noteq> ''-''"
    using hd_utoa_digit [of "nat i"] is_digit_not_minus by (cases "utoa (nat i)") auto
  with False show ?thesis by (simp add: the_int_def itoa_def)
qed

lemma num_ok_itoa [simp]: "num_ok (itoa i)"
  by (simp add: num_ok_def)

text \<open>What may follow a number for it to end there.\<close>

definition follow :: "string \<Rightarrow> bool" where
  "follow r \<longleftrightarrow> (case r of [] \<Rightarrow> True | c # _ \<Rightarrow>
     \<not> is_digit c \<and> c \<noteq> CHR ''.'' \<and> c \<noteq> CHR ''e'' \<and> c \<noteq> CHR ''E'')"

lemma hd_utoa_zero: "hd (utoa n) = CHR ''0'' \<Longrightarrow> utoa n = ''0''"
proof (induction n rule: utoa.induct)
  case (1 n)
  show ?case
  proof (cases "n < 10")
    case True
    with "1.prems" have "hd (utoa n) = digit n" by (simp add: utoa.simps [of n])
    with "1.prems" True show ?thesis by (simp add: utoa.simps [of n])
  next
    case False
    with "1.prems" have "hd (utoa (n div 10)) = CHR ''0''"
      by (simp add: utoa.simps [of n])
    with 1 False have "utoa (n div 10) = ''0''" by simp
    then have "digits_val (utoa (n div 10)) = 0" by (simp add: digits_val_def)
    then have "n div 10 = 0" by simp
    with False show ?thesis by simp
  qed
qed

lemma lex_int_utoa:
  assumes "follow r"
  shows "lex_int (utoa n @ r) = Some (utoa n, r)"
proof -
  obtain c t where ct: "utoa n = c # t" by (cases "utoa n") auto
  have c: "is_digit c" and t: "list_all is_digit t"
    using utoa_digits [of n] by (simp_all add: ct)
  have r: "takeWhile is_digit r = []" "dropWhile is_digit r = r"
    using assms by (cases r; simp add: follow_def)+
  show ?thesis
  proof (cases "c = CHR ''0''")
    case True
    with hd_utoa_zero [of n] ct show ?thesis by (simp add: lex_int_def)
  next
    case False
    with c t r show ?thesis
      by (simp add: ct lex_int_def list_all_iff takeWhile_append dropWhile_append3)
  qed
qed

lemma lex_num_itoa: "follow r \<Longrightarrow> lex_num (itoa i @ r) = Some (itoa i, r)"
proof -
  assume r: "follow r"
  then have fe: "lex_frac r = Some ([], r)" "lex_exp r = Some ([], r)"
    by (cases r; simp add: follow_def lex_frac_def lex_exp_def)+
  show ?thesis
  proof (cases "i < 0")
    case True
    then show ?thesis by (simp add: lex_num_def itoa_def lex_int_utoa [OF r] fe)
  next
    case False
    obtain c t where ct: "utoa (nat i) = c # t" by (cases "utoa (nat i)") auto
    with hd_utoa_digit [of "nat i"] have "c \<noteq> CHR ''-''" by (auto dest: is_digit_not_minus)
    with False ct lex_int_utoa [OF r, of "nat i"] show ?thesis
      by (simp add: lex_num_def itoa_def fe)
  qed
qed


subsection \<open>The round trip\<close>

fun wf_json :: "nat \<Rightarrow> json \<Rightarrow> bool" where
  "wf_json d (JNum l) = num_ok l"
| "wf_json d (JStr s) = valid_utf8 s"
| "wf_json d (JArr xs) = (0 < d \<and> list_all (wf_json (d - 1)) xs)"
| "wf_json d (JObj ps) = (0 < d \<and> list_all (\<lambda>p. valid_utf8 (fst p) \<and> wf_json (d - 1) (snd p)) ps)"
| "wf_json d _ = True"

abbreviation ws :: "string \<Rightarrow> bool" where
  "ws \<equiv> list_all is_ws"

lemma skip_ws: "ws w \<Longrightarrow> skip (w @ s) = skip s"
  by (induction w) auto

lemma skip_nonws: "\<not> is_ws c \<Longrightarrow> skip (c # s) = c # s"
  by simp

text \<open>The first character a value is printed with.\<close>

definition starts_value :: "char \<Rightarrow> bool" where
  "starts_value c \<longleftrightarrow> \<not> is_ws c \<and> c \<noteq> CHR '']'' \<and> c \<noteq> CHR ''}''"

lemma enc_starts:
  assumes "wf_json d j"
  shows "\<exists>c t. enc nl col k j = c # t \<and> starts_value c"
proof (cases j)
  case (JNum l)
  with assms have l: "l = itoa (the_int l)" by (simp add: num_ok_def)
  have minus: "starts_value (CHR ''-'')" by (simp add: starts_value_def is_ws_def)
  have dig: "is_digit c \<Longrightarrow> starts_value c" for c
    by (auto simp: starts_value_def is_ws_def is_digit_def less_eq_char_def)
  have u: "\<exists>c t. utoa n = c # t \<and> starts_value c" for n
    using hd_utoa_digit [of n] dig by (cases "utoa n") auto
  have "\<exists>c t. itoa i = c # t \<and> starts_value c" for i
    using minus u by (auto simp: itoa_def)
  with l JNum show ?thesis by (metis enc.simps(3))
next
  case (JArr xs)
  then show ?thesis by (cases xs) (auto simp: starts_value_def is_ws_def)
next
  case (JObj ps)
  then show ?thesis by (cases ps) (auto simp: starts_value_def is_ws_def)
qed (auto simp: starts_value_def is_ws_def enc_string_def)


lemma not_ws [simp]:
  "\<not> is_ws (CHR '','')" "\<not> is_ws (CHR '']'')" "\<not> is_ws (CHR ''}'')" "\<not> is_ws (CHR '':'')"
  "\<not> is_ws (CHR ''['')" "\<not> is_ws (CHR ''{'')" "\<not> is_ws quote_c" "\<not> is_ws (CHR ''n'')"
  "\<not> is_ws (CHR ''t'')" "\<not> is_ws (CHR ''f'')"
  by (simp_all add: is_ws_def)

lemma pval_skip: "ws w \<Longrightarrow> pval n d (w @ s) = pval n d s"
  by (cases n) (simp_all add: skip_ws)

lemma follow_sep: "follow (w @ c # s)" if "ws w" "c = CHR '','' \<or> c = CHR '']'' \<or> c = CHR ''}''"
  using that by (cases w) (auto simp: follow_def is_ws_def is_digit_def less_eq_char_def)

text \<open>
  The tail of a printed array or object, given that each element is read back. \<open>f\<close> is how an
  element is printed, \<open>nl\<close> the white space before it.
\<close>

lemma pelems_printed:
  assumes elem: "\<And>y n w r. y \<in> set (x # xs) \<Longrightarrow> ws w \<Longrightarrow> follow r \<Longrightarrow>
      2 * length (w @ f y @ r) + 1 \<le> n \<Longrightarrow> pval n d (w @ f y @ r) = Some (y, r)"
    and nl: "ws nl" and nl': "ws nl'" and w: "ws w"
    and n: "2 * length (w @ f x @ concat (map (\<lambda>y. CHR '','' # nl @ f y) xs) @ nl' @ CHR '']'' # r) + 2 \<le> n"
  shows "pelems n d (w @ f x @ concat (map (\<lambda>y. CHR '','' # nl @ f y) xs) @ nl' @ CHR '']'' # r)
    = Some (x # xs, r)"
  using elem w n
proof (induction xs arbitrary: x n w)
  case Nil
  then obtain m where m: "n = Suc m" by (cases n) auto
  have "pval m d (w @ f x @ nl' @ CHR '']'' # r) = Some (x, nl' @ CHR '']'' # r)"
    using Nil nl' m by (intro Nil.prems(1)) (simp_all add: follow_sep)
  then show ?case
    using nl' by (simp add: m skip_ws)
next
  case (Cons y ys)
  from Cons.prems(3) obtain m where m: "n = Suc m" by (cases n) auto
  let ?rest = "concat (map (\<lambda>y. CHR '','' # nl @ f y) ys) @ nl' @ CHR '']'' # r"
  have "pval m d (w @ f x @ [] @ CHR '','' # (nl @ f y @ ?rest)) = Some (x, [] @ CHR '','' # (nl @ f y @ ?rest))"
    using Cons.prems m by (intro Cons.prems(1) follow_sep) simp_all
  moreover have "pelems m d (nl @ f y @ ?rest) = Some (y # ys, r)"
  proof (rule Cons.IH)
    fix z n w r
    assume "z \<in> set (y # ys)" "ws w" "follow r" "2 * length (w @ f z @ r) + 1 \<le> n"
    then show "pval n d (w @ f z @ r) = Some (z, r)"
      by (intro Cons.prems(1)) auto
  next
    show "ws nl" by (rule nl)
    show "2 * length (nl @ f y @ ?rest) + 2 \<le> m" using Cons.prems(3) m by simp
  qed
  ultimately show ?case
    by (simp add: m)
qed

lemma pmembers_printed:
  assumes elem: "\<And>q n w r. q \<in> set (p # ps) \<Longrightarrow> ws w \<Longrightarrow> follow r \<Longrightarrow>
      2 * length (w @ f (snd q) @ r) + 1 \<le> n \<Longrightarrow> pval n d (w @ f (snd q) @ r) = Some (snd q, r)"
    and keys: "\<And>q. q \<in> set (p # ps) \<Longrightarrow> valid_utf8 (fst q)"
    and col: "col = CHR '':'' # cw" "ws cw"
    and nl: "ws nl" and nl': "ws nl'" and w: "ws w"
    and n: "2 * length (w @ enc_string (fst p) @ col @ f (snd p) @
       concat (map (\<lambda>q. CHR '','' # nl @ enc_string (fst q) @ col @ f (snd q)) ps) @ nl' @ CHR ''}'' # r) + 2 \<le> n"
  shows "pmembers n d (w @ enc_string (fst p) @ col @ f (snd p) @
       concat (map (\<lambda>q. CHR '','' # nl @ enc_string (fst q) @ col @ f (snd q)) ps) @ nl' @ CHR ''}'' # r)
    = Some (p # ps, r)"
  using elem keys w n
proof (induction ps arbitrary: p n w)
  case Nil
  then obtain m where m: "n = Suc m" by (cases n) auto
  have "pval m d (cw @ f (snd p) @ nl' @ CHR ''}'' # r) = Some (snd p, nl' @ CHR ''}'' # r)"
    using Nil nl' m col by (intro Nil.prems(1)) (simp_all add: follow_sep)
  moreover have "valid_utf8 (fst p)" using Nil.prems(2) by simp
  ultimately show ?case
    using nl' Nil.prems(3) col
    by (simp add: m skip_ws enc_string_def unquote_enc_chars)
next
  case (Cons q qs)
  from Cons.prems(4) obtain m where m: "n = Suc m" by (cases n) auto
  let ?rest = "concat (map (\<lambda>q. CHR '','' # nl @ enc_string (fst q) @ col @ f (snd q)) qs) @ nl' @ CHR ''}'' # r"
  let ?more = "nl @ enc_string (fst q) @ col @ f (snd q) @ ?rest"
  have "pval m d (cw @ f (snd p) @ [] @ CHR '','' # ?more) = Some (snd p, [] @ CHR '','' # ?more)"
    using Cons.prems m col by (intro Cons.prems(1) follow_sep) simp_all
  moreover have "pmembers m d ?more = Some (q # qs, r)"
  proof (rule Cons.IH)
    fix z n w r
    assume "z \<in> set (q # qs)" "ws w" "follow r" "2 * length (w @ f (snd z) @ r) + 1 \<le> n"
    then show "pval n d (w @ f (snd z) @ r) = Some (snd z, r)"
      by (intro Cons.prems(1)) auto
  next
    show "\<And>z. z \<in> set (q # qs) \<Longrightarrow> valid_utf8 (fst z)" using Cons.prems(2) by auto
    show "ws nl" by (rule nl)
    show "2 * length ?more + 2 \<le> m" using Cons.prems(4) m by simp
  qed
  moreover have "valid_utf8 (fst p)" using Cons.prems(2) by simp
  ultimately show ?case
    using Cons.prems(3) col
    by (simp add: m skip_ws enc_string_def unquote_enc_chars)
qed

lemma pval_enc:
  assumes nl: "\<And>k. ws (nl k)" and col: "col = CHR '':'' # cw" "ws cw"
  shows "wf_json d j \<Longrightarrow> ws w \<Longrightarrow> follow r \<Longrightarrow> 2 * length (w @ enc nl col k j @ r) + 1 \<le> n \<Longrightarrow>
    pval n d (w @ enc nl col k j @ r) = Some (j, r)"
proof (induction j arbitrary: d k n w r)
  case (JArr xs)
  from JArr.prems(4) obtain m where m: "n = Suc m" by (cases n) auto
  from JArr.prems(1) have d: "0 < d" and xs: "list_all (wf_json (d - 1)) xs" by auto
  show ?case
  proof (cases xs)
    case Nil
    then show ?thesis using d JArr.prems(2) by (simp add: m skip_ws)
  next
    case (Cons y ys)
    let ?f = "enc nl col (Suc k)"
    let ?t = "?f y @ concat (map (\<lambda>y. CHR '','' # nl (Suc k) @ ?f y) ys) @ nl k @ CHR '']'' # r"
    have "wf_json (d - 1) y" using xs Cons by simp
    then obtain c u where cu: "?f y = c # u" and c: "starts_value c"
      using enc_starts by metis
    have skip: "skip (nl (Suc k) @ ?t) = c # (u @ concat (map (\<lambda>y. CHR '','' # nl (Suc k) @ ?f y) ys) @ nl k @ CHR '']'' # r)"
      using c by (simp add: skip_ws [OF nl] cu starts_value_def)
    have "pelems m (d - 1) (nl (Suc k) @ ?t) = Some (y # ys, r)"
    proof (rule pelems_printed [OF _ nl nl nl])
      fix z n w r
      assume "z \<in> set (y # ys)" "ws w" "follow r" "2 * length (w @ ?f z @ r) + 1 \<le> n"
      then show "pval n (d - 1) (w @ ?f z @ r) = Some (z, r)"
        using xs Cons by (intro JArr.IH) (auto simp: list_all_iff)
    next
      show "2 * length (nl (Suc k) @ ?t) + 2 \<le> m" using JArr.prems(4) m Cons by simp
    qed
    moreover have "pval n d (w @ enc nl col k (JArr xs) @ r) = pval n d (CHR ''['' # (nl (Suc k) @ ?t))"
      using JArr.prems(2) Cons by (simp add: pval_skip)
    ultimately show ?thesis
      using skip d c Cons by (simp add: m starts_value_def)
  qed
next
  case (JObj ps)
  from JObj.prems(4) obtain m where m: "n = Suc m" by (cases n) auto
  from JObj.prems(1) have d: "0 < d" and ps: "list_all (\<lambda>p. valid_utf8 (fst p) \<and> wf_json (d - 1) (snd p)) ps"
    by auto
  show ?case
  proof (cases ps)
    case Nil
    then show ?thesis using d JObj.prems(2) by (simp add: m skip_ws)
  next
    case (Cons q qs)
    let ?f = "enc nl col (Suc k)"
    let ?t = "enc_string (fst q) @ col @ ?f (snd q) @
      concat (map (\<lambda>q. CHR '','' # nl (Suc k) @ enc_string (fst q) @ col @ ?f (snd q)) qs) @ nl k @ CHR ''}'' # r"
    have skip: "take 1 (skip (nl (Suc k) @ ?t)) = [quote_c]"
      by (simp add: skip_ws [OF nl] enc_string_def)
    have "pmembers m (d - 1) (nl (Suc k) @ ?t) = Some (q # qs, r)"
    proof (rule pmembers_printed [OF _ _ col nl nl nl])
      fix z n w r
      assume z: "z \<in> set (q # qs)" and "ws w" "follow r" "2 * length (w @ ?f (snd z) @ r) + 1 \<le> n"
      then show "pval n (d - 1) (w @ ?f (snd z) @ r) = Some (snd z, r)"
        using ps Cons by (intro JObj.IH [of z]) (auto simp: list_all_iff snds.simps)
    next
      show "\<And>z. z \<in> set (q # qs) \<Longrightarrow> valid_utf8 (fst z)" using ps Cons by (auto simp: list_all_iff)
      show "2 * length (nl (Suc k) @ ?t) + 2 \<le> m" using JObj.prems(4) m Cons by simp
    qed
    moreover have "pval n d (w @ enc nl col k (JObj ps) @ r) = pval n d (CHR ''{'' # (nl (Suc k) @ ?t))"
      using JObj.prems(2) Cons by (simp add: pval_skip)
    ultimately show ?thesis
      using skip d Cons by (simp add: m)
  qed
next
  case (JNum l)
  then obtain m where m: "n = Suc m" by (cases n) auto
  from JNum.prems(1) have l: "l = itoa (the_int l)" by (simp add: num_ok_def)
  then have lex: "lex_num (l @ r) = Some (l, r)"
    using lex_num_itoa [OF JNum.prems(3)] by metis
  obtain c t where ct: "l = c # t" and c: "c = CHR ''-'' \<or> is_digit c"
    using l hd_utoa_digit utoa_Nil unfolding itoa_def by (metis (full_types) list.collapse)
  have "\<not> is_ws c" "c \<notin> {CHR ''['', CHR ''{'', quote_c, CHR ''n'', CHR ''t'', CHR ''f''}"
    using c by (auto simp: is_ws_def is_digit_def less_eq_char_def)
  with lex JNum.prems(2) show ?case
    by (simp add: m ct skip_ws)
qed (auto simp: skip_ws enc_string_def unquote_enc_chars gr0_conv_Suc dest!: Suc_le_D)


declare pval.simps(2) [simp del] pelems.simps(2) [simp del] pmembers.simps(2) [simp del]

lemma parse_prefix_Marshal:
  "wf_json max_depth j \<Longrightarrow> follow r \<Longrightarrow> parse_prefix (Marshal j @ r) = Some (j, r)"
  using pval_enc [where w = "[]" and nl = "\<lambda>_. []" and cw = "[]" and k = 0 and d = max_depth and j = j and r = r]
  by (simp add: parse_prefix_def Marshal_def)

lemma parse_all_MarshalIndent:
  assumes "wf_json max_depth j"
  shows "parse_all (MarshalIndent j @ [CHR 0x0A]) = Some j"
proof -
  have "ws (CHR 0x0A # replicate k (CHR '' ''))" for k
    by (simp add: is_ws_def list_all_iff)
  moreover have "follow [CHR 0x0A]" by (simp add: follow_def is_digit_def less_eq_char_def)
  moreover have "ws '' ''" by (simp add: is_ws_def)
  ultimately have "parse_prefix (MarshalIndent j @ [CHR 0x0A]) = Some (j, [CHR 0x0A])"
    using pval_enc [where w = "[]" and nl = "\<lambda>d. CHR 0x0A # replicate (2 * d) (CHR '' '')"
        and col = "'': ''" and cw = "'' ''" and k = 0 and d = max_depth and j = j and r = "[CHR 0x0A]"] assms
    by (simp add: parse_prefix_def MarshalIndent_def)
  then show ?thesis by (simp add: parse_all_def is_ws_def)
qed


subsection \<open>The fuel of the parser is always enough\<close>

lemma unquote_shorter: "unquote s = Some (a, r) \<Longrightarrow> length r < length s"
proof (induction s arbitrary: a r rule: length_induct)
  case (1 s)
  show ?case
  proof (cases s)
    case Nil
    with 1 show ?thesis by simp
  next
    case (Cons c t)
    have IH: "length r < Suc (length t)" if "unquote u = Some (a, r)" "length u \<le> length t" for u a r
    proof -
      have "length u < length s" using that(2) Cons by simp
      with "1.IH" that(1) have "length r < length u" by blast
      with that(2) show ?thesis by simp
    qed
    from "1.prems" Cons have "unquote (c # t) = Some (a, r)" by simp
    with Cons IH show ?thesis
      by (auto simp: unquote.simps(2) [of c t] simp del: rune_len.simps
          split: if_splits list.splits option.splits)
  qed
qed

lemma dropWhile_shorter: "length (dropWhile P s) \<le> length s"
  by (rule length_dropWhile_le)

lemma lex_num_shorter: "lex_num s = Some (a, r) \<Longrightarrow> length r < length s"
proof -
  have i: "lex_int s = Some (a, r) \<Longrightarrow> length r < length s" for s a r
    using dropWhile_shorter [of is_digit "tl s"]
    by (auto simp: lex_int_def split: list.splits if_splits)
  have f: "lex_frac s = Some (a, r) \<Longrightarrow> length r \<le> length s" for s a r
    using dropWhile_shorter [of is_digit "tl s"]
    by (auto simp: lex_frac_def split: list.splits if_splits)
  have e: "lex_exp s = Some (a, r) \<Longrightarrow> length r \<le> length s" for s a r
    by (auto simp: lex_exp_def Let_def split: list.splits if_splits)
       (meson dropWhile_shorter le_SucI le_trans diff_le_self)+
  assume "lex_num s = Some (a, r)"
  then show ?thesis
    by (auto simp: lex_num_def Let_def split: option.splits prod.splits list.splits if_splits
        dest!: i f e)
qed


lemma skip_Cons_shorter: "skip s = c # t \<Longrightarrow> length t < length s"
  using dropWhile_shorter [of is_ws s] by simp

lemma parsed_shorter:
  "pval n d s = Some (v, t) \<Longrightarrow> length t < length s"
  "pelems n d s = Some (vs, t) \<Longrightarrow> length t < length s"
  "pmembers n d s = Some (ms, t) \<Longrightarrow> length t < length s"
proof (induction n d s and n d s and n d s arbitrary: v t and vs t and ms t
    rule: pval_pelems_pmembers.induct)
  case (2 n d s)
  obtain c u where cu: "skip s = c # u" using "2.prems" by (cases "skip s") (auto simp: pval.simps(2))
  have len: "length u < length s" by (rule skip_Cons_shorter [OF cu])
  have sk: "length (drop 1 (skip u)) \<le> length u"
    using dropWhile_shorter [of is_ws u] by simp
  from "2.prems" cu show ?case
    using len sk "2.IH" [OF cu]
    by (auto simp: pval.simps(2) split: if_splits dest: unquote_shorter lex_num_shorter)
next
  case (4 n d s)
  from "4.prems" obtain v u where v: "pval n d s = Some (v, u)"
    by (cases "pval n d s") (auto simp: pelems.simps(2))
  from "4.IH"(1) [OF v] have "length u < length s" .
  moreover from "4.prems" v obtain c w where w: "skip u = c # w"
    by (cases "skip u") (auto simp: pelems.simps(2))
  moreover have "length w < length u" by (rule skip_Cons_shorter [OF w])
  ultimately show ?case
    using "4.prems" v "4.IH"(2) [OF v refl w] by (fastforce simp: pelems.simps(2) split: if_splits)
next
  case (6 n d s)
  from "6.prems" obtain q u where q: "skip s = q # u" "q = quote_c"
    by (cases "skip s") (auto simp: pmembers.simps(2) split: if_splits)
  with "6.prems" obtain k u' where k: "unquote u = Some (k, u')"
    by (cases "unquote u") (auto simp: pmembers.simps(2))
  with q "6.prems" obtain x where x: "skip u' = CHR '':'' # x"
    by (cases "skip u'") (auto simp: pmembers.simps(2) split: if_splits)
  with q k "6.prems" obtain v w where v: "pval n d x = Some (v, w)"
    by (cases "pval n d x") (auto simp: pmembers.simps(2))
  have "length u < length s" "length u' < length u" "length x < length u'"
    using skip_Cons_shorter q x unquote_shorter k by blast+
  moreover have "length w < length x"
    using "6.IH"(1) [OF q(1) _ k refl x _ v] q(2) by simp
  moreover from "6.prems" q k x v obtain e y where y: "skip w = e # y"
    by (cases "skip w") (auto simp: pmembers.simps(2))
  moreover have "length y < length w" by (rule skip_Cons_shorter [OF y])
  ultimately show ?case
    using "6.prems" q k x v "6.IH"(2) [OF q(1) _ k refl x _ v refl y]
    by (fastforce simp: pmembers.simps(2) split: if_splits)
qed simp_all


text \<open>Two amounts of fuel above the bound give the same result.\<close>

lemma fuel_irrelevant:
  "2 * length s + 1 \<le> n \<Longrightarrow> 2 * length s + 1 \<le> m \<Longrightarrow> pval n d s = pval m d s"
  "2 * length s + 2 \<le> n \<Longrightarrow> 2 * length s + 2 \<le> m \<Longrightarrow> pelems n d s = pelems m d s"
  "2 * length s + 2 \<le> n \<Longrightarrow> 2 * length s + 2 \<le> m \<Longrightarrow> pmembers n d s = pmembers m d s"
proof (induction n d s and n d s and n d s arbitrary: m and m and m
    rule: pval_pelems_pmembers.induct)
  case (2 n d s)
  from "2.prems" obtain m' where m: "m = Suc m'" by (cases m) auto
  show ?case
  proof (cases "skip s")
    case Nil
    then show ?thesis by (simp add: m pval.simps(2) del: dropWhile_eq_Nil_conv)
  next
    case (Cons c u)
    from skip_Cons_shorter [OF Cons] have "length u < length s" .
    with "2.prems" m have "2 * length u + 2 \<le> n" "2 * length u + 2 \<le> m'" by auto
    then have e1: "c = CHR ''['' \<Longrightarrow> d \<noteq> 0 \<Longrightarrow> take 1 (skip u) \<noteq> '']'' \<Longrightarrow>
          pelems n (d - 1) u = pelems m' (d - 1) u"
      and e2: "c \<noteq> CHR ''['' \<Longrightarrow> c = CHR ''{'' \<Longrightarrow> d \<noteq> 0 \<Longrightarrow> take 1 (skip u) \<noteq> ''}'' \<Longrightarrow>
          pmembers n (d - 1) u = pmembers m' (d - 1) u"
      using "2.IH" [OF Cons] by blast+
    consider "c = CHR ''[''" | "c = CHR ''{''" | "c \<noteq> CHR ''['' \<and> c \<noteq> CHR ''{''" by blast
    then show ?thesis
    proof cases
      case 1
      then show ?thesis
        by (cases "d = 0"; cases "take 1 (skip u) = '']''") (simp_all only: Cons m pval.simps(2) list.case e1 if_True if_False simp_thms)
    next
      case 2
      then have "c \<noteq> CHR ''[''" by simp
      with 2 show ?thesis
        by (cases "d = 0"; cases "take 1 (skip u) = ''}''") (simp_all only: Cons m pval.simps(2) list.case e2 if_True if_False simp_thms)
    next
      case 3
      then show ?thesis by (simp only: Cons m pval.simps(2) list.case if_False)
    qed
  qed
next
  case (4 n d s)
  from "4.prems" obtain m' where m: "m = Suc m'" by (cases m) auto
  have eq: "pval n d s = pval m' d s"
    using "4.prems" m by (intro "4.IH"(1)) auto
  have rec: "pelems n d u = pelems m' d u"
    if v: "pval n d s = Some (v, t)" and u: "skip t = CHR '','' # u" for v t u
  proof -
    have "length u < length s"
      using parsed_shorter(1) [OF v] skip_Cons_shorter [OF u] by simp
    then show ?thesis
      using "4.prems" m by (intro "4.IH"(2) [OF v refl u]) auto
  qed
  show ?case
    by (simp add: m pelems.simps(2) eq [symmetric] rec del: dropWhile_eq_Nil_conv
        split: option.split list.split)
next
  case (6 n d s)
  from "6.prems" obtain m' where m: "m = Suc m'" by (cases m) auto
  have key: "length x < length s"
    if "skip s = quote_c # u" "unquote u = Some (k, u')" "skip u' = c # x" for u k u' c x
    using skip_Cons_shorter that unquote_shorter by (metis order.strict_trans)
  have eq: "pval n d x = pval m' d x"
    if "skip s = quote_c # u" "unquote u = Some (k, u')" "skip u' = CHR '':'' # x" for u k u' x
    using key [OF that] "6.prems" m by (intro "6.IH"(1) [OF that(1) _ that(2) refl that(3)]) auto
  have rec: "pmembers n d y = pmembers m' d y"
    if "skip s = quote_c # u" "unquote u = Some (k, u')" "skip u' = CHR '':'' # x"
      "pval n d x = Some (v, w)" "skip w = CHR '','' # y" for u k u' x v w y
  proof -
    have "length y < length s"
      using key [OF that(1-3)] parsed_shorter(1) [OF that(4)] skip_Cons_shorter [OF that(5)] by simp
    then show ?thesis
      using "6.prems" m
      by (intro "6.IH"(2) [OF that(1) _ that(2) refl that(3) _ that(4) refl that(5)]) auto
  qed
  show ?case
    by (simp add: m pmembers.simps(2) eq [symmetric] rec del: dropWhile_eq_Nil_conv
        split: option.split list.split)
qed simp_all

lemma pval_fuel_irrelevant:
  "2 * length s + 1 \<le> n \<Longrightarrow> pval n max_depth s = parse_prefix s"
  unfolding parse_prefix_def by (rule fuel_irrelevant(1)) simp_all

end
