(* ===== verification/Go_Json_Struct.thy ===== *)
theory Go_Json_Struct
  imports Go_Json
begin

text \<open>
  Decoding a JSON value into Go values the way \<open>encoding/json\<close> does: a decoder takes the value
  and what the destination held before, since \<open>null\<close> leaves it unchanged and a repeated key is
  decoded into the same field again. The result is \<open>None\<close> where Go returns an error. A struct
  is given by its list of JSON field names with a decoder for each.
\<close>

type_synonym 'a decoder = "json \<Rightarrow> 'a \<Rightarrow> 'a option"

fun dec_string :: "string decoder" where
  "dec_string JNull v = Some v"
| "dec_string (JStr s) v = Some s"
| "dec_string _ v = None"

fun dec_bool :: "bool decoder" where
  "dec_bool JNull v = Some v"
| "dec_bool (JBool b) v = Some b"
| "dec_bool _ v = None"

text \<open>\<open>int\<close> and \<open>int64\<close>: the literal must be an integer in range.\<close>

fun dec_int :: "int decoder" where
  "dec_int JNull v = Some v"
| "dec_int (JNum l) v = Atoi l"
| "dec_int _ v = None"

text \<open>A pointer: \<open>null\<close> sets it to \<open>nil\<close>, otherwise its target is decoded, allocated if needed.\<close>

definition dec_ptr :: "'a \<Rightarrow> 'a decoder \<Rightarrow> 'a option decoder" where
  "dec_ptr zero d j v =
    (if j = JNull then Some None
     else map_option Some (d j (case v of None \<Rightarrow> zero | Some x \<Rightarrow> x)))"

fun dec_all :: "'a \<Rightarrow> 'a decoder \<Rightarrow> json list \<Rightarrow> 'a list option" where
  "dec_all zero d [] = Some []"
| "dec_all zero d (j # js) =
    (case d j zero of None \<Rightarrow> None | Some x \<Rightarrow> map_option (Cons x) (dec_all zero d js))"

text \<open>A slice; \<open>nil\<close> and the empty slice are not told apart by the program.\<close>

fun dec_slice :: "'a \<Rightarrow> 'a decoder \<Rightarrow> 'a list decoder" where
  "dec_slice zero d JNull v = Some []"
| "dec_slice zero d (JArr js) v = dec_all zero d js"
| "dec_slice zero d _ v = None"

text \<open>
  Keys match a field exactly or, failing that, up to case folding. For the ASCII names of the
  program the only code points outside ASCII that fold into a name are U+212A and U+017F.
\<close>

fun fold_key :: "string \<Rightarrow> string" where
  "fold_key [] = []"
| "fold_key (c # s) =
    (if take 3 (c # s) = [CHR 0xE2, CHR 0x84, CHR 0xAA] then CHR ''k'' # fold_key (drop 2 s)
     else if take 2 (c # s) = [CHR 0xC5, CHR 0xBF] then CHR ''s'' # fold_key (drop 1 s)
     else if CHR ''A'' \<le> c \<and> c \<le> CHR ''Z'' then byte (of_char c + 32) # fold_key s
     else c # fold_key s)"

definition find_field :: "(string \<times> 'f) list \<Rightarrow> string \<Rightarrow> 'f option" where
  "find_field fs k =
    (case map_of fs k of
       Some f \<Rightarrow> Some f
     | None \<Rightarrow> map_option snd (find (\<lambda>(n, _). fold_key n = fold_key k) fs))"

fun dec_members :: "bool \<Rightarrow> (string \<times> 'a decoder) list \<Rightarrow> (string \<times> json) list \<Rightarrow> 'a \<Rightarrow> 'a option" where
  "dec_members strict fs [] v = Some v"
| "dec_members strict fs ((k, j) # ms) v =
    (case find_field fs k of
       None \<Rightarrow> if strict then None else dec_members strict fs ms v
     | Some d \<Rightarrow> (case d j v of None \<Rightarrow> None | Some v' \<Rightarrow> dec_members strict fs ms v'))"

fun dec_struct :: "bool \<Rightarrow> (string \<times> 'a decoder) list \<Rightarrow> 'a decoder" where
  "dec_struct strict fs JNull v = Some v"
| "dec_struct strict fs (JObj ms) v = dec_members strict fs ms v"
| "dec_struct strict fs _ v = None"

text \<open>One field of a record, by its selector and its update function.\<close>

definition field :: "('a \<Rightarrow> 'f) \<Rightarrow> (('f \<Rightarrow> 'f) \<Rightarrow> 'a \<Rightarrow> 'a) \<Rightarrow> 'f decoder \<Rightarrow> 'a decoder" where
  "field sel upd d j r = map_option (\<lambda>x. upd (\<lambda>_. x) r) (d j (sel r))"

text \<open>\<open>Decoder.Decode\<close> reads the first value of the text, \<open>Unmarshal\<close> wants nothing after it.\<close>

definition Decode :: "'a decoder \<Rightarrow> 'a \<Rightarrow> string \<Rightarrow> 'a option" where
  "Decode d zero s = (case parse_prefix s of None \<Rightarrow> None | Some (j, _) \<Rightarrow> d j zero)"

definition Unmarshal :: "'a decoder \<Rightarrow> 'a \<Rightarrow> string \<Rightarrow> 'a option" where
  "Unmarshal d zero s = (case parse_all s of None \<Rightarrow> None | Some j \<Rightarrow> d j zero)"

text \<open>Struct fields with \<open>omitempty\<close> in the printed object.\<close>

definition omit_str :: "string \<Rightarrow> string \<Rightarrow> (string \<times> json) list" where
  "omit_str k s = (if s = [] then [] else [(k, JStr s)])"

definition omit_int :: "string \<Rightarrow> int \<Rightarrow> (string \<times> json) list" where
  "omit_int k i = (if i = 0 then [] else [(k, JNum (itoa i))])"

definition omit_strs :: "string \<Rightarrow> string list \<Rightarrow> (string \<times> json) list" where
  "omit_strs k ss = (if ss = [] then [] else [(k, JArr (map JStr ss))])"

definition omit_ptr :: "string \<Rightarrow> ('a \<Rightarrow> json) \<Rightarrow> 'a option \<Rightarrow> (string \<times> json) list" where
  "omit_ptr k f p = (case p of None \<Rightarrow> [] | Some x \<Rightarrow> [(k, f x)])"

lemma dec_members_append:
  "dec_members strict fs (xs @ ys) v =
    (case dec_members strict fs xs v of None \<Rightarrow> None | Some v' \<Rightarrow> dec_members strict fs ys v')"
  by (induction strict fs xs v rule: dec_members.induct) (auto split: option.splits)

lemma dec_all_strings: "dec_all [] dec_string (map JStr ss) = Some ss"
  by (induction ss) auto

lemma find_field_exact: "map_of fs k = Some f \<Longrightarrow> find_field fs k = Some f"
  by (simp add: find_field_def)

text \<open>int64 values survive printing and decoding.\<close>

definition int64 :: "int \<Rightarrow> bool" where
  "int64 i \<longleftrightarrow> - (2 ^ 63) \<le> i \<and> i < 2 ^ 63"

lemma dec_int_itoa: "int64 i \<Longrightarrow> dec_int (JNum (itoa i)) v = Some i"
  by (simp add: int64_def Atoi_itoa)

lemma int64_wrap64: "int64 (wrap64 x)"
  using wrap64_range by (simp add: int64_def)

lemma Decode_Marshal:
  "wf_json max_depth j \<Longrightarrow> Decode d zero (Marshal j) = d j zero"
  using parse_prefix_Marshal [of j "[]"] by (simp add: Decode_def follow_def)

lemma Unmarshal_MarshalIndent:
  "wf_json max_depth j \<Longrightarrow> Unmarshal d zero (MarshalIndent j @ [CHR 0x0A]) = d j zero"
  by (simp add: Unmarshal_def parse_all_MarshalIndent)

end
