(* ===== verification/Agentrpc.thy ===== *)
theory Agentrpc
  imports Go_Json_Struct
begin

text \<open>
  \<open>internal/agentrpc/agentrpc.go\<close>: the framed JSON protocol between the host and the in-guest
  agent. The message types with their JSON encoding and decoding, the frames (four bytes of
  big-endian length, then the JSON text, at most 8 MiB), and the results that a message read
  from a frame is the message written and that a reader never consumes past its frame.

  \<open>WriteMessage\<close> and \<open>ReadMessage\<close> are given the \<open>Write\<close> of the writer and the \<open>io.ReadFull\<close>
  of the reader as arguments, as the Go functions are given interfaces: the host uses them on a
  connection (theory Agent\_Client), the agent on the stream it serves (theory Agent).
\<close>

unbundle bit_operations_syntax

section \<open>Constants and message types\<close>

definition DefaultPort :: int where "DefaultPort = 7777"

definition MaxMessageBytes :: nat where "MaxMessageBytes = 8 * 2 ^ 20"

record ExecRequest =
  er_UseShell :: bool
  er_Cmd :: string
  er_Argv :: "string list"
  er_Cwd :: string
  er_Env :: "string list"
  er_TimeoutMs :: int
  er_MaxOutputBytes :: int

record NetRequest =
  nr_Interface :: string
  nr_Address :: string
  nr_Gateway :: string
  nr_DNS :: string

record Request =
  rq_Type :: string
  rq_Exec :: "ExecRequest option"
  rq_Net :: "NetRequest option"

record PingResponse =
  pr_AgentVersion :: string
  pr_NowUnixMs :: int

record ExecResponse =
  xr_ExitCode :: int
  xr_Stdout :: string
  xr_Stderr :: string
  xr_TimedOut :: bool

record NetResponse =
  nres_Configured :: bool

record Response =
  rs_OK :: bool
  rs_Error :: string
  rs_Ping :: "PingResponse option"
  rs_Exec :: "ExecResponse option"
  rs_Net :: "NetResponse option"

text \<open>The zero values a decoder starts from.\<close>

definition zero_ExecRequest :: ExecRequest where
  "zero_ExecRequest = \<lparr>er_UseShell = False, er_Cmd = [], er_Argv = [], er_Cwd = [], er_Env = [],
     er_TimeoutMs = 0, er_MaxOutputBytes = 0\<rparr>"

definition zero_NetRequest :: NetRequest where
  "zero_NetRequest = \<lparr>nr_Interface = [], nr_Address = [], nr_Gateway = [], nr_DNS = []\<rparr>"

definition zero_Request :: Request where
  "zero_Request = \<lparr>rq_Type = [], rq_Exec = None, rq_Net = None\<rparr>"

definition zero_Response :: Response where
  "zero_Response = \<lparr>rs_OK = False, rs_Error = [], rs_Ping = None, rs_Exec = None, rs_Net = None\<rparr>"


section \<open>Encoding by the json tags\<close>

definition json_ExecRequest :: "ExecRequest \<Rightarrow> json" where
  "json_ExecRequest r = JObj
    ([(''use_shell'', JBool (er_UseShell r))] @ omit_str ''cmd'' (er_Cmd r)
     @ omit_strs ''argv'' (er_Argv r) @ omit_str ''cwd'' (er_Cwd r) @ omit_strs ''env'' (er_Env r)
     @ omit_int ''timeout_ms'' (er_TimeoutMs r)
     @ omit_int ''max_output_bytes'' (er_MaxOutputBytes r))"

definition json_NetRequest :: "NetRequest \<Rightarrow> json" where
  "json_NetRequest r = JObj
    (omit_str ''interface'' (nr_Interface r) @
     [(''address'', JStr (nr_Address r)), (''gateway'', JStr (nr_Gateway r))]
     @ omit_str ''dns'' (nr_DNS r))"

definition json_Request :: "Request \<Rightarrow> json" where
  "json_Request r = JObj
    ([(''type'', JStr (rq_Type r))] @ omit_ptr ''exec'' json_ExecRequest (rq_Exec r)
     @ omit_ptr ''net'' json_NetRequest (rq_Net r))"

definition json_PingResponse :: "PingResponse \<Rightarrow> json" where
  "json_PingResponse r = JObj
    [(''agent_version'', JStr (pr_AgentVersion r)), (''now_unix_ms'', JNum (itoa (pr_NowUnixMs r)))]"

definition json_ExecResponse :: "ExecResponse \<Rightarrow> json" where
  "json_ExecResponse r = JObj
    [(''exit_code'', JNum (itoa (xr_ExitCode r))), (''stdout'', JStr (xr_Stdout r)),
     (''stderr'', JStr (xr_Stderr r)), (''timed_out'', JBool (xr_TimedOut r))]"

definition json_NetResponse :: "NetResponse \<Rightarrow> json" where
  "json_NetResponse r = JObj [(''configured'', JBool (nres_Configured r))]"

definition json_Response :: "Response \<Rightarrow> json" where
  "json_Response r = JObj
    ([(''ok'', JBool (rs_OK r))] @ omit_str ''error'' (rs_Error r)
     @ omit_ptr ''ping'' json_PingResponse (rs_Ping r)
     @ omit_ptr ''exec'' json_ExecResponse (rs_Exec r)
     @ omit_ptr ''net'' json_NetResponse (rs_Net r))"


section \<open>Decoding\<close>

definition dec_ExecRequest :: "bool \<Rightarrow> ExecRequest decoder" where
  "dec_ExecRequest strict = dec_struct strict
    [(''use_shell'', field er_UseShell er_UseShell_update dec_bool),
     (''cmd'', field er_Cmd er_Cmd_update dec_string),
     (''argv'', field er_Argv er_Argv_update (dec_slice [] dec_string)),
     (''cwd'', field er_Cwd er_Cwd_update dec_string),
     (''env'', field er_Env er_Env_update (dec_slice [] dec_string)),
     (''timeout_ms'', field er_TimeoutMs er_TimeoutMs_update dec_int),
     (''max_output_bytes'', field er_MaxOutputBytes er_MaxOutputBytes_update dec_int)]"

definition dec_NetRequest :: "bool \<Rightarrow> NetRequest decoder" where
  "dec_NetRequest strict = dec_struct strict
    [(''interface'', field nr_Interface nr_Interface_update dec_string),
     (''address'', field nr_Address nr_Address_update dec_string),
     (''gateway'', field nr_Gateway nr_Gateway_update dec_string),
     (''dns'', field nr_DNS nr_DNS_update dec_string)]"

definition dec_Request :: "bool \<Rightarrow> Request decoder" where
  "dec_Request strict = dec_struct strict
    [(''type'', field rq_Type rq_Type_update dec_string),
     (''exec'', field rq_Exec rq_Exec_update (dec_ptr zero_ExecRequest (dec_ExecRequest strict))),
     (''net'', field rq_Net rq_Net_update (dec_ptr zero_NetRequest (dec_NetRequest strict)))]"

definition dec_PingResponse :: "bool \<Rightarrow> PingResponse decoder" where
  "dec_PingResponse strict = dec_struct strict
    [(''agent_version'', field pr_AgentVersion pr_AgentVersion_update dec_string),
     (''now_unix_ms'', field pr_NowUnixMs pr_NowUnixMs_update dec_int)]"

definition dec_ExecResponse :: "bool \<Rightarrow> ExecResponse decoder" where
  "dec_ExecResponse strict = dec_struct strict
    [(''exit_code'', field xr_ExitCode xr_ExitCode_update dec_int),
     (''stdout'', field xr_Stdout xr_Stdout_update dec_string),
     (''stderr'', field xr_Stderr xr_Stderr_update dec_string),
     (''timed_out'', field xr_TimedOut xr_TimedOut_update dec_bool)]"

definition dec_NetResponse :: "bool \<Rightarrow> NetResponse decoder" where
  "dec_NetResponse strict = dec_struct strict
    [(''configured'', field nres_Configured nres_Configured_update dec_bool)]"

definition dec_Response :: "bool \<Rightarrow> Response decoder" where
  "dec_Response strict = dec_struct strict
    [(''ok'', field rs_OK rs_OK_update dec_bool),
     (''error'', field rs_Error rs_Error_update dec_string),
     (''ping'', field rs_Ping rs_Ping_update
        (dec_ptr \<lparr>pr_AgentVersion = [], pr_NowUnixMs = 0\<rparr> (dec_PingResponse strict))),
     (''exec'', field rs_Exec rs_Exec_update
        (dec_ptr \<lparr>xr_ExitCode = 0, xr_Stdout = [], xr_Stderr = [], xr_TimedOut = False\<rparr>
          (dec_ExecResponse strict))),
     (''net'', field rs_Net rs_Net_update
        (dec_ptr \<lparr>nres_Configured = False\<rparr> (dec_NetResponse strict)))]"


section \<open>Frames\<close>

text \<open>\<open>binary.BigEndian.PutUint32\<close> and \<open>Uint32\<close>.\<close>

definition PutUint32 :: "32 word \<Rightarrow> string" where
  "PutUint32 v = map (\<lambda>k. byte (unat (drop_bit k v) mod 256)) [24, 16, 8, 0]"

fun Uint32 :: "string \<Rightarrow> 32 word" where
  "Uint32 [a, b, c, d] =
    (of_nat (code d) OR push_bit 8 (of_nat (code c)) OR push_bit 16 (of_nat (code b))
     OR push_bit 24 (of_nat (code a)))"
| "Uint32 _ = 0"

text \<open>The text of an error of \<open>encoding/json\<close> is not modelled.\<close>

definition json_error :: goerr where
  "json_error = ErrMsg ''json: cannot decode value''"

definition WriteMessage ::
  "(string \<Rightarrow> ('s, goerr option) state) \<Rightarrow> json \<Rightarrow> ('s, goerr option) state" where
  "WriteMessage wr v =
    (let raw = Marshal v in
     if length raw > MaxMessageBytes
     then return (Some (ErrMsg (''agentrpc: message too large: '' @ utoa (length raw) @ '' bytes'')))
     else do {
       err \<leftarrow> wr (PutUint32 (of_nat (length raw)));
       case err of
         Some e \<Rightarrow> return (Some e)
       | None \<Rightarrow> wr raw
     })"

definition ReadMessage ::
  "(nat \<Rightarrow> ('s, string res) state) \<Rightarrow> 'a decoder \<Rightarrow> 'a \<Rightarrow> ('s, 'a res) state" where
  "ReadMessage readFull dec zero = do {
     h \<leftarrow> readFull 4;
     case h of
       Inl e \<Rightarrow> return (Inl e)
     | Inr hdr \<Rightarrow>
       (let n = unat (Uint32 hdr) in
        if n = 0 \<or> n > MaxMessageBytes
        then return (Inl (ErrMsg (''agentrpc: invalid message length: '' @ utoa n)))
        else do {
          b \<leftarrow> readFull n;
          case b of
            Inl e \<Rightarrow> return (Inl e)
          | Inr buf \<Rightarrow>
            (case Decode dec zero buf of
               None \<Rightarrow> return (Inl json_error)
             | Some v \<Rightarrow> return (Inr v))
        })
   }"

text \<open>\<open>io.ReadFull\<close> on a stream of bytes that then ends.\<close>

definition stream_ReadFull :: "nat \<Rightarrow> (string, string res) state" where
  "stream_ReadFull n = State (\<lambda>s.
     if n \<le> length s then (Inr (take n s), drop n s)
     else (Inl (if s = [] then EOF else UnexpectedEOF), []))"

text \<open>A writer that collects what is written.\<close>

definition stream_Write :: "string \<Rightarrow> (string, goerr option) state" where
  "stream_Write b = State (\<lambda>s. (None, s @ b))"

text \<open>The bytes of a frame.\<close>

definition frame :: "json \<Rightarrow> string" where
  "frame v = PutUint32 (of_nat (length (Marshal v))) @ Marshal v"


section \<open>Round trips of the message types\<close>

lemma find_field_hit [simp]: "find_field ((k, d) # fs) k = Some d"
  by (simp add: find_field_def)

lemma find_field_next:
  "k \<in> fst ` set fs \<Longrightarrow> n \<noteq> k \<Longrightarrow> find_field ((n, d) # fs) k = find_field fs k"
proof -
  assume "k \<in> fst ` set fs" "n \<noteq> k"
  moreover then obtain f where "map_of fs k = Some f"
    by (metis map_of_eq_None_iff not_Some_eq)
  ultimately show ?thesis by (simp add: find_field_def)
qed

lemma Atoi_int64: "int64 i \<Longrightarrow> Atoi (itoa i) = Some i"
  by (simp add: int64_def Atoi_itoa)

lemmas dec_simps = field_def dec_ptr_def Atoi_int64 dec_all_strings find_field_next

definition utf8s :: "string list \<Rightarrow> bool" where
  "utf8s = list_all valid_utf8"

definition ok_ExecRequest :: "ExecRequest \<Rightarrow> bool" where
  "ok_ExecRequest r \<longleftrightarrow> valid_utf8 (er_Cmd r) \<and> utf8s (er_Argv r) \<and> valid_utf8 (er_Cwd r) \<and>
     utf8s (er_Env r) \<and> int64 (er_TimeoutMs r) \<and> int64 (er_MaxOutputBytes r)"

definition ok_NetRequest :: "NetRequest \<Rightarrow> bool" where
  "ok_NetRequest r \<longleftrightarrow> valid_utf8 (nr_Interface r) \<and> valid_utf8 (nr_Address r) \<and>
     valid_utf8 (nr_Gateway r) \<and> valid_utf8 (nr_DNS r)"

definition ok_Request :: "Request \<Rightarrow> bool" where
  "ok_Request r \<longleftrightarrow> valid_utf8 (rq_Type r) \<and> pred_option ok_ExecRequest (rq_Exec r) \<and>
     pred_option ok_NetRequest (rq_Net r)"

definition ok_PingResponse :: "PingResponse \<Rightarrow> bool" where
  "ok_PingResponse r \<longleftrightarrow> valid_utf8 (pr_AgentVersion r) \<and> int64 (pr_NowUnixMs r)"

definition ok_ExecResponse :: "ExecResponse \<Rightarrow> bool" where
  "ok_ExecResponse r \<longleftrightarrow> int64 (xr_ExitCode r) \<and> valid_utf8 (xr_Stdout r) \<and> valid_utf8 (xr_Stderr r)"

definition ok_Response :: "Response \<Rightarrow> bool" where
  "ok_Response r \<longleftrightarrow> valid_utf8 (rs_Error r) \<and> pred_option ok_PingResponse (rs_Ping r) \<and>
     pred_option ok_ExecResponse (rs_Exec r)"

lemma dec_json_ExecRequest:
  "ok_ExecRequest r \<Longrightarrow> dec_ExecRequest strict (json_ExecRequest r) zero_ExecRequest = Some r"
  by (cases r) (simp add: ok_ExecRequest_def dec_ExecRequest_def json_ExecRequest_def
      zero_ExecRequest_def omit_str_def omit_strs_def omit_int_def dec_simps)

lemma dec_json_NetRequest:
  "dec_NetRequest strict (json_NetRequest r) zero_NetRequest = Some r"
  by (cases r) (simp add: dec_NetRequest_def json_NetRequest_def
      zero_NetRequest_def omit_str_def dec_simps)

lemma json_not_null [simp]:
  "json_ExecRequest r \<noteq> JNull" "json_NetRequest n \<noteq> JNull" "json_PingResponse p \<noteq> JNull"
  "json_ExecResponse x \<noteq> JNull" "json_NetResponse m \<noteq> JNull"
  by (simp_all add: json_ExecRequest_def json_NetRequest_def json_PingResponse_def
      json_ExecResponse_def json_NetResponse_def)

lemma dec_json_Request:
  "ok_Request r \<Longrightarrow> dec_Request strict (json_Request r) zero_Request = Some r"
  by (cases r; cases "rq_Exec r"; cases "rq_Net r")
     (simp_all add: ok_Request_def dec_Request_def json_Request_def zero_Request_def
      omit_ptr_def dec_simps dec_json_ExecRequest dec_json_NetRequest)

lemma dec_json_PingResponse:
  "ok_PingResponse r \<Longrightarrow> dec_PingResponse strict (json_PingResponse r) z = Some r"
  by (cases r) (simp add: ok_PingResponse_def dec_PingResponse_def json_PingResponse_def dec_simps)

lemma dec_json_ExecResponse:
  "ok_ExecResponse r \<Longrightarrow> dec_ExecResponse strict (json_ExecResponse r) z = Some r"
  by (cases r) (simp add: ok_ExecResponse_def dec_ExecResponse_def json_ExecResponse_def dec_simps)

lemma dec_json_NetResponse:
  "dec_NetResponse strict (json_NetResponse r) z = Some r"
  by (cases r) (simp add: dec_NetResponse_def json_NetResponse_def dec_simps)

lemma dec_json_Response:
  "ok_Response r \<Longrightarrow> dec_Response strict (json_Response r) zero_Response = Some r"
  by (cases r; cases "rs_Ping r"; cases "rs_Exec r"; cases "rs_Net r")
     (simp_all add: ok_Response_def dec_Response_def json_Response_def zero_Response_def
      omit_str_def omit_ptr_def dec_simps dec_json_PingResponse dec_json_ExecResponse
      dec_json_NetResponse)

text \<open>The printed values are well-formed: keys are ASCII, the nesting is at most three deep.\<close>

lemma valid_utf8_ascii: "list_all (\<lambda>c. code c < 0x80) s \<Longrightarrow> valid_utf8 s"
  by (induction s) auto

lemma wf_json_ExecRequest: "ok_ExecRequest r \<Longrightarrow> 2 \<le> d \<Longrightarrow> wf_json d (json_ExecRequest r)"
  by (simp add: ok_ExecRequest_def json_ExecRequest_def utf8s_def omit_str_def omit_strs_def omit_int_def
      list_all_iff)

lemma wf_json_NetRequest: "ok_NetRequest r \<Longrightarrow> 1 \<le> d \<Longrightarrow> wf_json d (json_NetRequest r)"
  by (simp add: ok_NetRequest_def json_NetRequest_def omit_str_def)

lemma wf_json_Request: "ok_Request r \<Longrightarrow> wf_json max_depth (json_Request r)"
  by (cases "rq_Exec r"; cases "rq_Net r")
     (simp_all add: ok_Request_def json_Request_def omit_ptr_def max_depth_def wf_json_ExecRequest
      wf_json_NetRequest)

lemma wf_json_Response: "ok_Response r \<Longrightarrow> wf_json max_depth (json_Response r)"
  by (cases "rs_Ping r"; cases "rs_Exec r"; cases "rs_Net r")
     (simp_all add: ok_Response_def json_Response_def omit_str_def omit_ptr_def max_depth_def
      json_PingResponse_def json_ExecResponse_def json_NetResponse_def ok_PingResponse_def
      ok_ExecResponse_def)


section \<open>Frames are self-delimiting\<close>

lemma length_PutUint32 [simp]: "length (PutUint32 v) = 4"
  by (simp add: PutUint32_def)

lemma byte_part: "of_nat (code (byte (unat (drop_bit k v) mod 256))) = take_bit 8 (drop_bit k (v :: 32 word))"
proof -
  have "unat (drop_bit k v) mod 256 = unat (take_bit 8 (drop_bit k v))"
    by (subst unsigned_take_bit_eq) (simp_all add: take_bit_eq_mod)
  then show ?thesis by simp
qed

lemma Uint32_PutUint32: "Uint32 (PutUint32 v) = v"
proof -
  have "Uint32 (PutUint32 v) = (take_bit 8 (drop_bit 0 v)
     OR push_bit 8 (take_bit 8 (drop_bit 8 v)) OR push_bit 16 (take_bit 8 (drop_bit 16 v))
     OR push_bit 24 (take_bit 8 (drop_bit 24 v)))"
    by (simp only: PutUint32_def list.map Uint32.simps byte_part)
  also have "\<dots> = v"
  proof (rule bit_word_eqI)
    fix n :: nat
    assume "n < LENGTH(32)"
    then consider "n < 8" | "8 \<le> n \<and> n < 16" | "16 \<le> n \<and> n < 24" | "24 \<le> n \<and> n < 32"
      by fastforce
    then show "bit (take_bit 8 (drop_bit 0 v) OR push_bit 8 (take_bit 8 (drop_bit 8 v)) OR
        push_bit 16 (take_bit 8 (drop_bit 16 v)) OR push_bit 24 (take_bit 8 (drop_bit 24 v))) n = bit v n"
      by cases (auto simp: bit_simps)
  qed
  finally show ?thesis .
qed

lemma unat_frame_length:
  "length s \<le> MaxMessageBytes \<Longrightarrow> unat (Uint32 (PutUint32 (of_nat (length s)))) = length s"
  by (simp add: Uint32_PutUint32 MaxMessageBytes_def unat_of_nat)

lemma Marshal_nonempty: "wf_json d j \<Longrightarrow> Marshal j \<noteq> []"
  using enc_starts [of d j "\<lambda>_. []" "'':''" 0] by (auto simp: Marshal_def)

text \<open>
  A channel through which whole frames pass: what is written is appended to the pending bytes,
  what is read is taken from their front.
\<close>

locale frame_channel =
  fixes wr :: "string \<Rightarrow> ('s, goerr option) state"
    and rd :: "nat \<Rightarrow> ('s, string res) state"
    and pending :: "'s \<Rightarrow> string"
  assumes wr_appends: "run_state (wr b) s = (e, s') \<Longrightarrow> e = None \<and> pending s' = pending s @ b"
    and rd_takes: "n \<le> length (pending s) \<Longrightarrow> run_state (rd n) s = (r, s') \<Longrightarrow>
      r = Inr (take n (pending s)) \<and> pending s' = drop n (pending s)"
begin

lemma write_frame:
  assumes "length (Marshal v) \<le> MaxMessageBytes" "run_state (WriteMessage wr v) s = (e, s')"
  shows "e = None \<and> pending s' = pending s @ frame v"
proof -
  obtain e1 s1 where 1: "run_state (wr (PutUint32 (of_nat (length (Marshal v))))) s = (e1, s1)"
    by (cases "run_state (wr (PutUint32 (of_nat (length (Marshal v))))) s")
  with wr_appends [OF 1] assms have "run_state (wr (Marshal v)) s1 = (e, s')"
    by (simp add: WriteMessage_def Let_def)
  with wr_appends [OF 1] wr_appends [OF this] show ?thesis
    by (simp add: frame_def)
qed

lemma read_frame:
  assumes wf: "wf_json max_depth v" and len: "length (Marshal v) \<le> MaxMessageBytes"
    and dec: "dec v zero = Some x"
    and pend: "pending s = frame v @ rest" and run: "run_state (ReadMessage rd dec zero) s = (r, s')"
  shows "r = Inr x \<and> pending s' = rest"
proof -
  let ?raw = "Marshal v"
  obtain h s1 where 1: "run_state (rd 4) s = (h, s1)" by (cases "run_state (rd 4) s")
  have s1: "h = Inr (PutUint32 (of_nat (length ?raw)))" "pending s1 = ?raw @ rest"
    using rd_takes [OF _ 1] by (simp_all add: pend frame_def)
  obtain b s2 where 2: "run_state (rd (length ?raw)) s1 = (b, s2)"
    by (cases "run_state (rd (length ?raw)) s1")
  have s2: "b = Inr ?raw" "pending s2 = rest"
    using rd_takes [OF _ 2] s1 by simp_all
  show ?thesis
    using run 1 2 s1 s2 len Marshal_nonempty [OF wf] dec
    by (auto simp: ReadMessage_def Let_def unat_frame_length Decode_Marshal [OF wf])
qed

end

interpretation stream: frame_channel stream_Write stream_ReadFull "\<lambda>s. s"
  by unfold_locales (auto simp: stream_Write_def stream_ReadFull_def split: if_splits)

text \<open>A reader that meets the end of its stream between two frames reports \<open>io.EOF\<close>.\<close>

lemma ReadMessage_at_end: "run_state (ReadMessage stream_ReadFull dec zero) [] = (Inl EOF, [])"
  by (simp add: ReadMessage_def stream_ReadFull_def)

text \<open>Reading a message consumes at least its header, so a reader's loop makes progress.\<close>

lemma ReadMessage_consumes:
  "run_state (ReadMessage stream_ReadFull dec zero) s = (Inr x, s') \<Longrightarrow> length s' < length s"
  by (auto simp: ReadMessage_def stream_ReadFull_def Let_def
      split: sum.splits prod.splits if_splits option.splits)


text \<open>Writing a message and reading it back at the other end.\<close>

lemma frame_trip:
  assumes "wf_json max_depth v" "length (Marshal v) \<le> MaxMessageBytes" "dec v zero = Some x"
  shows "run_state (WriteMessage stream_Write v) sent = (None, sent @ frame v) \<and>
      run_state (ReadMessage stream_ReadFull dec zero) (frame v @ rest) = (Inr x, rest)"
proof
  obtain e s1 where w: "run_state (WriteMessage stream_Write v) sent = (e, s1)" by fastforce
  then show "run_state (WriteMessage stream_Write v) sent = (None, sent @ frame v)"
    using stream.write_frame [OF assms(2) w] by simp
  obtain r s2 where r: "run_state (ReadMessage stream_ReadFull dec zero) (frame v @ rest) = (r, s2)"
    by fastforce
  then show "run_state (ReadMessage stream_ReadFull dec zero) (frame v @ rest) = (Inr x, rest)"
    using stream.read_frame [OF assms refl r] by simp
qed


section \<open>Properties\<close>

text \<open>
  C11: A message written to a connection with \<open>WriteMessage\<close> is what \<open>ReadMessage\<close> decodes at the
  other end, and the reader consumes exactly the bytes of that message, so that the next message
  starts where it stopped. This holds for requests and for responses whose strings are valid
  UTF-8, whose numbers fit \<open>int64\<close> and whose JSON text fits a frame.
\<close>

theorem message_frame_roundtrip:
  assumes "ok_Request rq" "length (Marshal (json_Request rq)) \<le> MaxMessageBytes"
    and "ok_Response rs" "length (Marshal (json_Response rs)) \<le> MaxMessageBytes"
  shows "(\<exists>f. run_state (WriteMessage stream_Write (json_Request rq)) sent = (None, sent @ f) \<and>
        run_state (ReadMessage stream_ReadFull (dec_Request True) zero_Request) (f @ rest) = (Inr rq, rest)) \<and>
    (\<exists>f. run_state (WriteMessage stream_Write (json_Response rs)) sent = (None, sent @ f) \<and>
        run_state (ReadMessage stream_ReadFull (dec_Response True) zero_Response) (f @ rest) = (Inr rs, rest))"
  using frame_trip [where dec = "dec_Request True" and zero = zero_Request,
      OF wf_json_Request [OF assms(1)] assms(2) dec_json_Request [OF assms(1)]]
    frame_trip [where dec = "dec_Response True" and zero = zero_Response,
      OF wf_json_Response [OF assms(3)] assms(4) dec_json_Response [OF assms(3)]]
  by blast

definition demo_Request :: Request where
  "demo_Request = zero_Request\<lparr>rq_Type := ''exec'',
     rq_Exec := Some (zero_ExecRequest\<lparr>er_Argv := [''ls'', ''a b''], er_TimeoutMs := 5\<rparr>)\<rparr>"

definition demo_Response :: Response where
  "demo_Response = zero_Response\<lparr>rs_Error := ''no <such> file'', rs_Net := Some \<lparr>nres_Configured = False\<rparr>\<rparr>"

theorem message_frame_roundtrip_witness:
  "(\<exists>f. run_state (WriteMessage stream_Write (json_Request demo_Request)) [] = (None, f) \<and>
      run_state (ReadMessage stream_ReadFull (dec_Request True) zero_Request) (f @ ''next'') = (Inr demo_Request, ''next'')) \<and>
   (\<exists>f. run_state (WriteMessage stream_Write (json_Response demo_Response)) [] = (None, f) \<and>
      run_state (ReadMessage stream_ReadFull (dec_Response True) zero_Response) (f @ ''next'') = (Inr demo_Response, ''next''))"
proof -
  have "ok_Request demo_Request" "ok_Response demo_Response"
    by (simp_all add: demo_Request_def demo_Response_def ok_Request_def ok_Response_def zero_Request_def
        zero_Response_def ok_ExecRequest_def zero_ExecRequest_def utf8s_def int64_def)
  moreover have "length (Marshal (json_Request demo_Request)) \<le> MaxMessageBytes"
    by (simp add: demo_Request_def json_Request_def json_ExecRequest_def zero_Request_def zero_ExecRequest_def
        omit_ptr_def omit_str_def omit_strs_def omit_int_def itoa_def utoa.simps Marshal_def enc_string_def
        enc_chars.simps(2) esc_def Let_def MaxMessageBytes_def)
  moreover have "length (Marshal (json_Response demo_Response)) \<le> MaxMessageBytes"
    by (simp add: demo_Response_def json_Response_def json_NetResponse_def zero_Response_def
        omit_ptr_def omit_str_def Marshal_def enc_string_def enc_chars.simps(2) esc_def Let_def MaxMessageBytes_def)
  ultimately show ?thesis
    using message_frame_roundtrip [of demo_Request demo_Response "[]" "''next''"] by simp
qed

text \<open>
  C31: Whatever bytes arrive, \<open>ReadMessage\<close> takes a prefix of them that is no longer than a header
  and the largest frame; a header that announces an empty or an oversized frame is refused before
  any byte of the frame is read.
\<close>

theorem ReadMessage_bounded:
  assumes "run_state (ReadMessage stream_ReadFull dec zero) s = (r, s')"
  shows "(\<exists>k \<le> 4 + MaxMessageBytes. s' = drop k s) \<and>
    (4 \<le> length s \<and> (unat (Uint32 (take 4 s)) = 0 \<or> MaxMessageBytes < unat (Uint32 (take 4 s)))
      \<longrightarrow> (\<exists>e. r = Inl e) \<and> s' = drop 4 s)"
proof -
  let ?n = "unat (Uint32 (take 4 s))"
  have short: "s' = drop 4 s" if "\<not> 4 \<le> length s"
    using assms that by (auto simp: ReadMessage_def stream_ReadFull_def)
  have "s' = drop 4 s \<or> s' = drop (4 + ?n) s \<and> ?n \<le> MaxMessageBytes" if "4 \<le> length s"
    using assms that
    by (auto simp: ReadMessage_def stream_ReadFull_def Let_def add.commute
        split: if_splits sum.splits option.splits)
  with short have "s' = drop 4 s \<or> s' = drop (4 + ?n) s \<and> ?n \<le> MaxMessageBytes" by blast
  then have "\<exists>k \<le> 4 + MaxMessageBytes. s' = drop k s"
    by (metis add_le_mono le_add1 le_refl)
  moreover have "(\<exists>e. r = Inl e) \<and> s' = drop 4 s"
    if "4 \<le> length s" "?n = 0 \<or> MaxMessageBytes < ?n"
    using assms that by (auto simp: ReadMessage_def stream_ReadFull_def Let_def)
  ultimately show ?thesis by blast
qed

theorem ReadMessage_bounded_witness:
  "snd (run_state (ReadMessage stream_ReadFull (dec_Request True) zero_Request)
      ([CHR 0x80, CHR 0x00, CHR 0x00, CHR 0x00] @ ''ignored'')) = ''ignored''"
proof -
  let ?s = "[CHR 0x80, CHR 0x00, CHR 0x00, CHR 0x00] @ ''ignored''"
  let ?m = "ReadMessage stream_ReadFull (dec_Request True) zero_Request"
  have n: "unat (Uint32 (take 4 ?s)) = 2 ^ 31"
    by (simp add: push_bit_eq_mult)
  have "snd (run_state ?m ?s) = drop 4 ?s"
    using ReadMessage_bounded [of "dec_Request True" zero_Request ?s "fst (run_state ?m ?s)" "snd (run_state ?m ?s)"]
    unfolding n by (simp add: MaxMessageBytes_def)
  then show ?thesis by simp
qed

end
