(* ===== verification/Go_Net.thy ===== *)
theory Go_Net
  imports Go_Strings
begin

text \<open>
  The parsers of Go's package \<open>net\<close> that the program calls on the addresses it builds:
  \<open>net.ParseIP\<close> and \<open>net.ParseCIDR\<close>. An IPv4 address is its 32-bit value; of an IPv6 address,
  which only \<open>ParseIP\<close> can meet, the text is kept.
\<close>

fun split_on :: "char \<Rightarrow> string \<Rightarrow> string list" where
  "split_on x [] = [[]]"
| "split_on x (c # s) =
    (if c = x then [] # split_on x s
     else (case split_on x s of [] \<Rightarrow> [[c]] | w # ws \<Rightarrow> (c # w) # ws))"

datatype ip = IPv4 nat | IPv6 string

text \<open>A decimal octet: no leading zero, at most 255.\<close>

definition octet :: "string \<Rightarrow> nat option" where
  "octet s =
    (if s \<noteq> [] \<and> list_all is_digit s \<and> (length s = 1 \<or> hd s \<noteq> CHR ''0'') \<and> digits_val s \<le> 255
     then Some (digits_val s) else None)"

definition parse_ipv4 :: "string \<Rightarrow> nat option" where
  "parse_ipv4 s =
    (case split_on (CHR ''.'') s of
       [a, b, c, d] \<Rightarrow>
         (case (octet a, octet b, octet c, octet d) of
            (Some a', Some b', Some c', Some d') \<Rightarrow> Some (a' * 2 ^ 24 + b' * 2 ^ 16 + c' * 2 ^ 8 + d')
          | _ \<Rightarrow> None)
     | _ \<Rightarrow> None)"

definition is_hex :: "char \<Rightarrow> bool" where
  "is_hex c \<longleftrightarrow> is_digit c \<or> (CHR ''a'' \<le> c \<and> c \<le> CHR ''f'') \<or> (CHR ''A'' \<le> c \<and> c \<le> CHR ''F'')"

definition hex_group :: "string \<Rightarrow> bool" where
  "hex_group g \<longleftrightarrow> g \<noteq> [] \<and> length g \<le> 4 \<and> list_all is_hex g"

text \<open>How many 16-bit fields a colon-separated part has; a trailing IPv4 address counts two.\<close>

definition v6_fields :: "bool \<Rightarrow> string \<Rightarrow> nat option" where
  "v6_fields v4tail s =
    (if s = [] then Some 0
     else let gs = split_on (CHR '':'') s in
       if list_all hex_group gs then Some (length gs)
       else if v4tail \<and> list_all hex_group (butlast gs) \<and> parse_ipv4 (last gs) \<noteq> None
         then Some (length gs + 1)
       else None)"

text \<open>The text before and after the first \<open>::\<close>.\<close>

fun cut_ellipsis :: "string \<Rightarrow> (string \<times> string) option" where
  "cut_ellipsis (a # b # s) =
    (if a = CHR '':'' \<and> b = CHR '':'' then Some ([], s)
     else map_option (\<lambda>(l, r). (a # l, r)) (cut_ellipsis (b # s)))"
| "cut_ellipsis _ = None"

definition is_ipv6 :: "string \<Rightarrow> bool" where
  "is_ipv6 s =
    (case cut_ellipsis s of
       None \<Rightarrow> v6_fields True s = Some 8
     | Some (l, r) \<Rightarrow>
       (case (v6_fields False l, v6_fields True r) of
          (Some m, Some n) \<Rightarrow> m + n \<le> 7
        | _ \<Rightarrow> False))"

definition ParseIP :: "string \<Rightarrow> ip option" where
  "ParseIP s =
    (case parse_ipv4 s of
       Some v \<Rightarrow> Some (IPv4 v)
     | None \<Rightarrow> if is_ipv6 s then Some (IPv6 s) else None)"

text \<open>
  \<open>net.ParseCIDR\<close>: the address and the network, as masked address and prefix length. The program
  parses IPv4 networks only, and the model refuses all others.
\<close>

definition ParseCIDR :: "string \<Rightarrow> (nat \<times> nat \<times> nat) option" where
  "ParseCIDR s =
    (let a = takeWhile (\<lambda>c. c \<noteq> slash) s; m = drop (length a + 1) s in
     if length a = length s then None
     else case parse_ipv4 a of
       None \<Rightarrow> None
     | Some v \<Rightarrow>
       if m \<noteq> [] \<and> list_all is_digit m \<and> digits_val m \<le> 32
       then Some (v, v div 2 ^ (32 - digits_val m) * 2 ^ (32 - digits_val m), digits_val m)
       else None)"

lemma split_on_none: "x \<notin> set e \<Longrightarrow> split_on x e = [e]"
  by (induction e) auto

lemma split_on_append: "x \<notin> set e \<Longrightarrow> split_on x (e @ x # s) = e # split_on x s"
  by (induction e) auto

lemma digit_chars: "list_all is_digit s \<Longrightarrow> \<not> is_digit x \<Longrightarrow> x \<notin> set s"
  by (auto simp: list_all_iff)

lemma dot_not_digit [simp]: "\<not> is_digit (CHR ''.'')" "\<not> is_digit slash" "\<not> is_digit (CHR '':'')"
  by (simp_all add: is_digit_def less_eq_char_def)

lemma dot_not_in_utoa [simp]: "CHR ''.'' \<notin> set (utoa n)" "slash \<notin> set (utoa n)" "CHR '':'' \<notin> set (utoa n)"
  by (simp_all add: digit_chars [OF utoa_digits])

lemma hd_utoa_nonzero: "hd (utoa n) = CHR ''0'' \<Longrightarrow> n < 10"
proof (induction n rule: utoa.induct)
  case (1 n)
  show ?case
  proof (rule ccontr)
    assume n: "\<not> n < 10"
    with "1.prems" have hd: "hd (utoa (n div 10)) = CHR ''0''" by (simp add: utoa.simps [of n])
    with "1.IH" n have small: "n div 10 < 10" by simp
    with hd have "digit (n div 10) = CHR ''0''" by (simp add: utoa.simps [of "n div 10"])
    then have "(of_char (digit (n div 10)) :: nat) = 48" by simp
    with small n show False by (simp add: of_char_digit)
  qed
qed

lemma octet_utoa: "octet (utoa n) = (if n \<le> 255 then Some n else None)"
proof -
  have "length (utoa n) = 1" if "hd (utoa n) = CHR ''0''"
    using hd_utoa_nonzero [OF that] by (simp add: utoa.simps [of n])
  then show ?thesis by (auto simp: octet_def utoa_digits)
qed

text \<open>Addresses built with \<open>%d\<close> parse exactly when every number fits an octet.\<close>

definition dotted :: "nat \<Rightarrow> nat \<Rightarrow> nat \<Rightarrow> nat \<Rightarrow> string" where
  "dotted a b c d = utoa a @ ''.'' @ utoa b @ ''.'' @ utoa c @ ''.'' @ utoa d"

lemma parse_ipv4_dotted:
  "parse_ipv4 (dotted a b c d) =
    (if a \<le> 255 \<and> b \<le> 255 \<and> c \<le> 255 \<and> d \<le> 255 then Some (a * 2 ^ 24 + b * 2 ^ 16 + c * 2 ^ 8 + d)
     else None)"
  by (simp add: parse_ipv4_def dotted_def split_on_append split_on_none octet_utoa)

lemma parse_ipv6_not_dotted: "\<not> is_ipv6 (dotted a b c d)"
proof -
  have colon: "CHR '':'' \<notin> set (dotted a b c d)" by (simp add: dotted_def)
  have cut: "CHR '':'' \<notin> set s \<Longrightarrow> cut_ellipsis s = None" for s
    by (induction s rule: cut_ellipsis.induct) auto
  have "v6_fields True (dotted a b c d) \<noteq> Some 8"
    using colon by (simp add: v6_fields_def split_on_none Let_def)
  with cut [OF colon] show ?thesis by (simp add: is_ipv6_def)
qed

lemma ParseIP_dotted:
  "ParseIP (dotted a b c d) = map_option IPv4 (parse_ipv4 (dotted a b c d))"
  by (simp add: ParseIP_def parse_ipv6_not_dotted split: option.split)

lemma ParseCIDR_dotted:
  "ParseCIDR (dotted a b c d @ ''/30'') =
    map_option (\<lambda>v. (v, v div 4 * 4, 30)) (parse_ipv4 (dotted a b c d))"
proof -
  have "slash \<notin> set (dotted a b c d)" by (simp add: dotted_def)
  then have tw: "takeWhile (\<lambda>c. c \<noteq> slash) (dotted a b c d @ ''/30'') = dotted a b c d"
    by (simp add: takeWhile_append)
  show ?thesis
    by (simp add: ParseCIDR_def Let_def tw digits_val_def is_digit_def less_eq_char_def split: option.split)
qed

end
