(* ===== verification/Agent.thy ===== *)
theory Agent
  imports Agentrpc Go_Net
begin

text \<open>
  \<open>cmd/agent/main.go\<close>: the agent that runs inside each microVM. \<open>serveConn\<close> reads framed
  requests from a connection until it ends, \<open>handle\<close> dispatches them, \<open>runExec\<close> runs a command
  with a time and an output limit and \<open>configureNetwork\<close> sets the address and route of the guest.

  The guest kernel, the process the agent starts and the netlink package are not part of the
  program: they are the record \<open>guest_env\<close> of functions over a guest state of any type \<open>'g\<close>,
  an argument of every definition that uses it.
\<close>

section \<open>The guest as a parameter\<close>

text \<open>How the \<open>select\<close> of \<open>runExec\<close> ends: the command exits, or the timer fires first.\<close>

datatype run_end = Exited "goerr option" | TimerFired

record 'g guest_env =
  g_UnixMilli :: "'g \<Rightarrow> int"
  g_Environ :: "'g \<Rightarrow> string list"
  g_StdoutPipe :: "'g \<Rightarrow> goerr option \<times> 'g"
  g_StderrPipe :: "'g \<Rightarrow> goerr option \<times> 'g"
  g_Start :: "string list \<Rightarrow> string \<Rightarrow> string list \<Rightarrow> 'g \<Rightarrow> goerr option \<times> 'g"
  g_Select :: "int \<Rightarrow> 'g \<Rightarrow> run_end \<times> 'g"
  g_KillGroup :: "'g \<Rightarrow> goerr option \<times> 'g"
  g_KillProcess :: "'g \<Rightarrow> goerr option \<times> 'g"
  g_Wait :: "'g \<Rightarrow> goerr option \<times> 'g"
  g_Stdout :: "'g \<Rightarrow> string"
  g_Stderr :: "'g \<Rightarrow> string"
  g_LinkByName :: "string \<Rightarrow> 'g \<Rightarrow> nat res \<times> 'g"
  g_LinkSetUp :: "nat \<Rightarrow> 'g \<Rightarrow> goerr option \<times> 'g"
  g_AddrList :: "nat \<Rightarrow> 'g \<Rightarrow> string list res \<times> 'g"
  g_AddrDel :: "nat \<Rightarrow> string \<Rightarrow> 'g \<Rightarrow> goerr option \<times> 'g"
  g_ParseAddr :: "string \<Rightarrow> string res"
  g_AddrAdd :: "nat \<Rightarrow> string \<Rightarrow> 'g \<Rightarrow> goerr option \<times> 'g"
  g_RouteReplace :: "nat \<Rightarrow> ip \<Rightarrow> 'g \<Rightarrow> goerr option \<times> 'g"
  g_WriteFile :: "string \<Rightarrow> string \<Rightarrow> 'g \<Rightarrow> goerr option \<times> 'g"
  g_Write :: "string \<Rightarrow> 'g \<Rightarrow> goerr option \<times> 'g"
  g_Close :: "'g \<Rightarrow> 'g"


section \<open>Running a command\<close>

definition agentVersion :: string where "agentVersion = ''v0.2.0''"

record execResult =
  exr_resp :: ExecResponse
  exr_err :: "goerr option"

definition exec_failed :: "int \<Rightarrow> goerr \<Rightarrow> execResult" where
  "exec_failed c e =
    \<lparr>exr_resp = \<lparr>xr_ExitCode = c, xr_Stdout = [], xr_Stderr = [], xr_TimedOut = False\<rparr>,
     exr_err = Some e\<rparr>"

definition normalizeArgv :: "ExecRequest \<Rightarrow> string list res" where
  "normalizeArgv req =
    (let cmd = TrimSpace (er_Cmd req) in
     if er_UseShell req then
       (if cmd = [] then Inl (ErrMsg ''use_shell set but cmd is empty'')
        else Inr [''/bin/sh'', ''-lc'', cmd])
     else if er_Argv req = [] then
       (if cmd \<noteq> [] then Inl (ErrMsg ''cmd provided without use_shell; provide argv or set use_shell'')
        else Inl (ErrMsg ''argv is required when not using shell''))
     else Inr (er_Argv req))"

definition killProcessGroup :: "'g guest_env \<Rightarrow> ('g, unit) state" where
  "killProcessGroup G = do {
     _ \<leftarrow> State (g_KillGroup G);
     _ \<leftarrow> State (g_KillProcess G);
     return ()
   }"

definition exec_timeout :: "ExecRequest \<Rightarrow> int" where
  "exec_timeout req =
    (let t = wrap64 (er_TimeoutMs req * Millisecond) in if t \<le> 0 then 20 * Second else t)"

definition exec_maxOut :: "ExecRequest \<Rightarrow> int" where
  "exec_maxOut req = (if er_MaxOutputBytes req \<le> 0 then 2 ^ 20 else er_MaxOutputBytes req)"

definition runExec :: "'g guest_env \<Rightarrow> ExecRequest \<Rightarrow> ('g, execResult) state" where
  "runExec G req =
    (let timeout = exec_timeout req; maxOut = exec_maxOut req in
     case normalizeArgv req of
       Inl e \<Rightarrow> return (exec_failed 2 e)
     | Inr argv \<Rightarrow> do {
         environ \<leftarrow> gets (g_Environ G);
         let dir = (if TrimSpace (er_Cwd req) \<noteq> [] then er_Cwd req else []);
         e1 \<leftarrow> State (g_StdoutPipe G);
         case e1 of Some e \<Rightarrow> return (exec_failed 1 e) | None \<Rightarrow> do {
         e2 \<leftarrow> State (g_StderrPipe G);
         case e2 of Some e \<Rightarrow> return (exec_failed 1 e) | None \<Rightarrow> do {
         e3 \<leftarrow> State (g_Start G argv dir (environ @ er_Env req));
         case e3 of Some e \<Rightarrow> return (exec_failed 127 e) | None \<Rightarrow> do {
         ended \<leftarrow> State (g_Select G timeout);
         waited \<leftarrow> (case ended of
             Exited werr \<Rightarrow> return (False, werr)
           | TimerFired \<Rightarrow> do {
               _ \<leftarrow> killProcessGroup G;
               _ \<leftarrow> State (g_Wait G);
               return (True, None)
             });
         stdout \<leftarrow> gets (g_Stdout G);
         stderr \<leftarrow> gets (g_Stderr G);
         let (timedOut, waitErr) = waited;
         let (exitCode, err) =
           (if timedOut then (124, waitErr)
            else case waitErr of
              None \<Rightarrow> (0, None)
            | Some e \<Rightarrow> (case errors_As_ExitError e of Some c \<Rightarrow> (c, None) | None \<Rightarrow> (1, Some e)));
         return \<lparr>exr_resp = \<lparr>xr_ExitCode = exitCode, xr_Stdout = take (nat maxOut) stdout,
                    xr_Stderr = take (nat maxOut) stderr, xr_TimedOut = timedOut\<rparr>,
                 exr_err = err\<rparr>
         }}}
       })"


section \<open>Configuring the network\<close>

fun delete_addrs :: "'g guest_env \<Rightarrow> string \<Rightarrow> nat \<Rightarrow> string list \<Rightarrow> ('g, goerr option) state" where
  "delete_addrs G iface link [] = return None"
| "delete_addrs G iface link (a # as) = do {
     err \<leftarrow> State (g_AddrDel G link a);
     case err of
       Some e \<Rightarrow> return (Some (wrap (''remove address '' @ Quote a @ '' on '' @ Quote iface @ '': '') e))
     | None \<Rightarrow> delete_addrs G iface link as
   }"

definition configureNetwork :: "'g guest_env \<Rightarrow> NetRequest \<Rightarrow> ('g, goerr option) state" where
  "configureNetwork G req =
    (let iface0 = TrimSpace (nr_Interface req);
         iface = (if iface0 = [] then ''eth0'' else iface0);
         addr = TrimSpace (nr_Address req);
         gw = TrimSpace (nr_Gateway req)
     in if addr = [] \<or> gw = [] then return (Some (ErrMsg ''address and gateway are required''))
     else case ParseIP gw of
       None \<Rightarrow> return (Some (ErrMsg (''invalid gateway ip '' @ Quote gw)))
     | Some gateway \<Rightarrow> do {
         l \<leftarrow> State (g_LinkByName G iface);
         case l of Inl e \<Rightarrow> return (Some (wrap (''lookup interface '' @ Quote iface @ '': '') e))
         | Inr link \<Rightarrow> do {
         up \<leftarrow> State (g_LinkSetUp G link);
         case up of Some e \<Rightarrow> return (Some (wrap (''set interface '' @ Quote iface @ '' up: '') e))
         | None \<Rightarrow> do {
         as \<leftarrow> State (g_AddrList G link);
         case as of Inl e \<Rightarrow> return (Some (wrap (''list addresses on '' @ Quote iface @ '': '') e))
         | Inr addrs \<Rightarrow> do {
         del \<leftarrow> delete_addrs G iface link addrs;
         case del of Some e \<Rightarrow> return (Some e)
         | None \<Rightarrow>
         (case g_ParseAddr G addr of
            Inl e \<Rightarrow> return (Some (wrap (''parse interface address '' @ Quote addr @ '': '') e))
          | Inr parsedAddr \<Rightarrow> do {
         add \<leftarrow> State (g_AddrAdd G link parsedAddr);
         case add of
           Some e \<Rightarrow> return (Some (wrap (''assign address '' @ Quote addr @ '' to '' @ Quote iface @ '': '') e))
         | None \<Rightarrow> do {
         rt \<leftarrow> State (g_RouteReplace G link gateway);
         case rt of
           Some e \<Rightarrow> return (Some (wrap (''set default route via '' @ Quote gw @ '' dev '' @ Quote iface @ '': '') e))
         | None \<Rightarrow>
           (let dns = TrimSpace (nr_DNS req) in
            if dns \<noteq> [] then do {
              _ \<leftarrow> State (g_WriteFile G ''/etc/resolv.conf'' (''nameserver '' @ dns @ [CHR 0x0A]));
              return None
            } else return None)
         }})}}}
       })"


section \<open>Dispatch and the connection loop\<close>

definition errString :: "goerr option \<Rightarrow> string" where
  "errString err = (case err of None \<Rightarrow> [] | Some e \<Rightarrow> Error e)"

definition handle :: "'g guest_env \<Rightarrow> Request \<Rightarrow> ('g, Response) state" where
  "handle G req =
    (if rq_Type req = ''ping'' then do {
       now \<leftarrow> gets (g_UnixMilli G);
       return (zero_Response\<lparr>rs_OK := True,
         rs_Ping := Some \<lparr>pr_AgentVersion = agentVersion, pr_NowUnixMs = now\<rparr>\<rparr>)
     }
     else if rq_Type req = ''exec'' then
       (case rq_Exec req of
          None \<Rightarrow> return (zero_Response\<lparr>rs_OK := False, rs_Error := ''missing exec payload''\<rparr>)
        | Some x \<Rightarrow> do {
            out \<leftarrow> runExec G x;
            return (zero_Response\<lparr>rs_OK := (exr_err out = None), rs_Error := errString (exr_err out),
              rs_Exec := Some (exr_resp out)\<rparr>)
          })
     else if rq_Type req = ''net'' then
       (case rq_Net req of
          None \<Rightarrow> return (zero_Response\<lparr>rs_OK := False, rs_Error := ''missing net payload''\<rparr>)
        | Some n \<Rightarrow> do {
            err \<leftarrow> configureNetwork G n;
            case err of
              Some e \<Rightarrow> return (zero_Response\<lparr>rs_OK := False, rs_Error := Error e,
                rs_Net := Some \<lparr>nres_Configured = False\<rparr>\<rparr>)
            | None \<Rightarrow> return (zero_Response\<lparr>rs_OK := True,
                rs_Net := Some \<lparr>nres_Configured = True\<rparr>\<rparr>)
          })
     else return (zero_Response\<lparr>rs_OK := False,
       rs_Error := ''unknown request type '' @ Quote (rq_Type req)\<rparr>))"

text \<open>
  The loop over one connection. Its first argument after the guest is what is left to read; the
  deferred \<open>Close\<close> runs on every way out.
\<close>

function serveConn :: "'g guest_env \<Rightarrow> string \<Rightarrow> 'g \<Rightarrow> 'g" where
  "serveConn G s g =
    (case run_state (ReadMessage stream_ReadFull (dec_Request True) zero_Request) s of
       (Inl e, s') \<Rightarrow> g_Close G g
     | (Inr req, s') \<Rightarrow>
       (case run_state (handle G req) g of
          (resp, g1) \<Rightarrow>
          (case run_state (WriteMessage (\<lambda>b. State (g_Write G b)) (json_Response resp)) g1 of
             (Some e, g2) \<Rightarrow> g_Close G g2
           | (None, g2) \<Rightarrow> serveConn G s' g2)))"
  by pat_completeness auto
termination
  by (relation "measure (\<lambda>(G, s, g). length s)") (auto dest: ReadMessage_consumes [OF sym])

declare serveConn.simps [simp del]



section \<open>What the agent guarantees\<close>

lemma exec_maxOut_pos: "0 < exec_maxOut req"
  by (simp add: exec_maxOut_def)

lemma exec_timeout_pos: "0 < exec_timeout req"
  by (simp add: exec_timeout_def Let_def)

text \<open>Every result of \<open>runExec\<close>, for every behaviour of the guest.\<close>

definition exec_result_ok :: "ExecRequest \<Rightarrow> execResult \<Rightarrow> bool" where
  "exec_result_ok req r \<longleftrightarrow>
     int (length (xr_Stdout (exr_resp r))) \<le> exec_maxOut req \<and>
     int (length (xr_Stderr (exr_resp r))) \<le> exec_maxOut req \<and>
     (xr_TimedOut (exr_resp r) \<longrightarrow> xr_ExitCode (exr_resp r) = 124 \<and> exr_err r = None) \<and>
     (exr_err r \<noteq> None \<longrightarrow> xr_ExitCode (exr_resp r) \<in> {1, 2, 127})"

lemma wp_runExec: "wp (runExec G req) (\<lambda>r _. exec_result_ok req r) g"
proof -
  have len: "int (length (take (nat (exec_maxOut req)) s)) \<le> exec_maxOut req" for s
    using exec_maxOut_pos [of req] by auto
  have fail: "exec_result_ok req (exec_failed c e)" if "c \<in> {1, 2, 127}" for c e
    using that exec_maxOut_pos [of req] by (simp add: exec_result_ok_def exec_failed_def)
  have fin: "exec_result_ok req \<lparr>exr_resp = \<lparr>xr_ExitCode = c, xr_Stdout = take (nat (exec_maxOut req)) so,
       xr_Stderr = take (nat (exec_maxOut req)) se, xr_TimedOut = t\<rparr>, exr_err = er\<rparr>"
    if "t \<Longrightarrow> c = 124 \<and> er = None" "er \<noteq> None \<Longrightarrow> c \<in> {1, 2, 127}" for c so se t er
    using that len by (auto simp: exec_result_ok_def)
  show ?thesis
    unfolding runExec_def killProcessGroup_def
    by (auto simp: wp_simps fail split: prod.splits run_end.split if_splits option.splits intro!: fin)
qed


text \<open>A successful exec response always carries its payload.\<close>

lemma handle_exec_payload:
  "rq_Type req = ''exec'' \<Longrightarrow> run_state (handle G req) g = (resp, g') \<Longrightarrow> rs_OK resp \<Longrightarrow>
    \<exists>x. rs_Exec resp = Some x"
  by (auto simp: handle_def zero_Response_def split: option.splits prod.splits)

subsection \<open>One connection\<close>

text \<open>What serving one request does to the guest, and the responses to a list of requests.\<close>

definition serve_one :: "'g guest_env \<Rightarrow> Request \<Rightarrow> 'g \<Rightarrow> Response \<times> 'g" where
  "serve_one G req g =
    (let (resp, g1) = run_state (handle G req) g
     in (resp, snd (run_state (WriteMessage (\<lambda>b. State (g_Write G b)) (json_Response resp)) g1)))"

fun serve_all :: "'g guest_env \<Rightarrow> Request list \<Rightarrow> 'g \<Rightarrow> Response list \<times> 'g" where
  "serve_all G [] g = ([], g)"
| "serve_all G (req # reqs) g =
    (let (resp, g1) = serve_one G req g; (resps, g2) = serve_all G reqs g1 in (resp # resps, g2))"

definition small :: "json \<Rightarrow> bool" where
  "small v \<longleftrightarrow> length (Marshal v) \<le> MaxMessageBytes"

lemma serveConn_end: "serveConn G [] g = g_Close G g"
  by (subst serveConn.simps) (simp add: ReadMessage_at_end)

lemma ReadMessage_Request:
  assumes "ok_Request req" "small (json_Request req)"
  shows "run_state (ReadMessage stream_ReadFull (dec_Request True) zero_Request)
      (frame (json_Request req) @ rest) = (Inr req, rest)"
proof -
  obtain r s' where run: "run_state (ReadMessage stream_ReadFull (dec_Request True) zero_Request)
      (frame (json_Request req) @ rest) = (r, s')" by fastforce
  have "r = Inr req \<and> s' = rest"
    by (rule stream.read_frame [OF wf_json_Request [OF assms(1)] _ dec_json_Request [OF assms(1)] refl run])
       (use assms(2) in \<open>simp add: small_def\<close>)
  with run show ?thesis by simp
qed

lemma serveConn_step:
  assumes "ok_Request req" "small (json_Request req)"
    and "\<And>b g. fst (g_Write G b g) = None"
    and "small (json_Response (fst (serve_one G req g)))"
  shows "serveConn G (frame (json_Request req) @ rest) g = serveConn G rest (snd (serve_one G req g))"
proof -
  obtain resp g1 where h: "run_state (handle G req) g = (resp, g1)" by fastforce
  obtain e g2 where w: "run_state (WriteMessage (\<lambda>b. State (g_Write G b)) (json_Response resp)) g1 = (e, g2)"
    by fastforce
  have "length (Marshal (json_Response resp)) \<le> MaxMessageBytes"
    using assms(4) h by (simp add: serve_one_def small_def)
  then have "e = None"
    using w assms(3) by (auto simp: WriteMessage_def Let_def split: prod.splits option.splits)
                        (metis fst_conv option.distinct(1))+
  with h w show ?thesis
    by (subst serveConn.simps) (simp add: ReadMessage_Request [OF assms(1,2)] serve_one_def)
qed

subsection \<open>Output that fits the limit but not a frame\<close>

definition full_response :: "nat \<Rightarrow> Response" where
  "full_response n = zero_Response\<lparr>rs_OK := True, rs_Exec := Some \<lparr>xr_ExitCode = 0,
     xr_Stdout = replicate n (CHR 0x00), xr_Stderr = replicate n (CHR 0x00), xr_TimedOut = False\<rparr>\<rparr>"

lemma length_enc_chars_nul: "length (enc_chars (replicate n (CHR 0x00))) = 6 * n"
  by (induction n) (simp_all add: enc_chars.simps(2) esc_def Let_def)

lemma length_full_response: "12 * n \<le> length (Marshal (json_Response (full_response n)))"
  by (simp add: full_response_def json_Response_def json_ExecResponse_def zero_Response_def
      omit_str_def omit_ptr_def Marshal_def enc_string_def length_enc_chars_nul)

subsection \<open>Configuring the interface\<close>

text \<open>
  \<open>addrs g l\<close> are the addresses of the link \<open>l\<close>. Deleting an address removes it from its link, and
  possibly others that depend on it, and leaves the other links alone.
\<close>

lemma delete_addrs_all:
  assumes del: "\<And>l a g. fst (g_AddrDel G l a g) = None \<Longrightarrow> set (addrs (snd (g_AddrDel G l a g)) l) \<subseteq> set (addrs g l) - {a} \<and>
      (\<forall>k. k \<noteq> l \<longrightarrow> addrs (snd (g_AddrDel G l a g)) k = addrs g k)"
  shows "set (addrs g link) \<subseteq> set as \<Longrightarrow> run_state (delete_addrs G iface link as) g = (None, g') \<Longrightarrow>
    addrs g' = (addrs g)(link := [])"
proof (induction as arbitrary: g)
  case Nil
  then show ?case by (simp add: fun_eq_iff)
next
  case (Cons a as)
  obtain e g1 where d: "g_AddrDel G link a g = (e, g1)" by fastforce
  with Cons.prems(2) have e: "e = None" by (cases e) auto
  with del [of link a g] d have g1: "set (addrs g1 link) \<subseteq> set (addrs g link) - {a}" "\<forall>k. k \<noteq> link \<longrightarrow> addrs g1 k = addrs g k" by simp_all
  have "run_state (delete_addrs G iface link as) g1 = (None, g')"
    using Cons.prems(2) d e by simp
  moreover have "set (addrs g1 link) \<subseteq> set as" using g1(1) Cons.prems(1) by auto
  ultimately have "addrs g' = (addrs g1)(link := [])" by (intro Cons.IH)
  with g1(2) show ?case by (simp add: fun_eq_iff)
qed


section \<open>Properties\<close>

text \<open>A small guest on which the properties are exercised: every call succeeds.\<close>

record demo =
  dm_addrs :: "nat \<Rightarrow> string list"
  dm_sent :: string

definition demo_env :: "demo guest_env" where
  "demo_env =
    \<lparr>g_UnixMilli = (\<lambda>_. 1700000000000), g_Environ = (\<lambda>_. [''PATH=/bin'']),
     g_StdoutPipe = (\<lambda>g. (None, g)), g_StderrPipe = (\<lambda>g. (None, g)),
     g_Start = (\<lambda>_ _ _ g. (None, g)), g_Select = (\<lambda>_ g. (Exited None, g)),
     g_KillGroup = (\<lambda>g. (None, g)), g_KillProcess = (\<lambda>g. (None, g)), g_Wait = (\<lambda>g. (None, g)),
     g_Stdout = (\<lambda>_. ''hello''), g_Stderr = (\<lambda>_. []),
     g_LinkByName = (\<lambda>n g. (if n = ''lo'' then Inr 1 else if n = ''eth0'' then Inr 2 else Inl (ErrMsg ''Link not found''), g)), g_LinkSetUp = (\<lambda>_ g. (None, g)),
     g_AddrList = (\<lambda>l g. (Inr (dm_addrs g l), g)),
     g_AddrDel = (\<lambda>l a g. (None, g\<lparr>dm_addrs := (dm_addrs g)(l := filter (\<lambda>b. b \<noteq> a) (dm_addrs g l))\<rparr>)),
     g_ParseAddr = (\<lambda>a. Inr a),
     g_AddrAdd = (\<lambda>l a g. (None, g\<lparr>dm_addrs := (dm_addrs g)(l := dm_addrs g l @ [a])\<rparr>)),
     g_RouteReplace = (\<lambda>_ _ g. (None, g)), g_WriteFile = (\<lambda>_ _ g. (None, g)),
     g_Write = (\<lambda>b g. (None, g\<lparr>dm_sent := dm_sent g @ b\<rparr>)), g_Close = (\<lambda>g. g)\<rparr>"

definition demo_guest :: demo where
  "demo_guest = \<lparr>dm_addrs = (\<lambda>_. [])(1 := [''127.0.0.1/8''], 2 := [''10.0.0.5/24'', ''10.0.1.5/24'']), dm_sent = []\<rparr>"

definition demo_exec :: ExecRequest where
  "demo_exec = zero_ExecRequest\<lparr>er_Argv := [''/bin/echo'', ''hello''], er_MaxOutputBytes := 3\<rparr>"

definition demo_net :: NetRequest where
  "demo_net = \<lparr>nr_Interface = ''eth0'', nr_Address = ''172.16.5.2/30'', nr_Gateway = ''172.16.5.1'',
     nr_DNS = ''1.1.1.1''\<rparr>"

text \<open>
  C30: Whatever the guest does, \<open>runExec\<close> returns at most the requested number of bytes (1 MiB by
  default) of each stream; a timeout is reported as exit code 124 without an error; an error is
  reported only with the exit codes 2 (bad request), 127 (cannot start) or 1.
\<close>

theorem runExec_result:
  assumes "run_state (runExec G req) g = (r, g')"
  shows "int (length (xr_Stdout (exr_resp r))) \<le> exec_maxOut req \<and>
     int (length (xr_Stderr (exr_resp r))) \<le> exec_maxOut req \<and>
     (xr_TimedOut (exr_resp r) \<longrightarrow> xr_ExitCode (exr_resp r) = 124 \<and> exr_err r = None) \<and>
     (exr_err r \<noteq> None \<longrightarrow> xr_ExitCode (exr_resp r) \<in> {1, 2, 127})"
  using wp_run [OF wp_runExec assms] unfolding exec_result_ok_def .

lemma demo_runExec:
  "run_state (runExec demo_env demo_exec) demo_guest =
    (\<lparr>exr_resp = \<lparr>xr_ExitCode = 0, xr_Stdout = ''hel'', xr_Stderr = [], xr_TimedOut = False\<rparr>,
      exr_err = None\<rparr>, demo_guest)"
  by (simp add: runExec_def demo_env_def demo_exec_def zero_ExecRequest_def normalizeArgv_def
      exec_maxOut_def Let_def)

theorem runExec_result_witness:
  "int (length (xr_Stdout (exr_resp (fst (run_state (runExec demo_env demo_exec) demo_guest))))) \<le> 3"
proof -
  have "exec_maxOut demo_exec = 3" by (simp add: exec_maxOut_def demo_exec_def)
  with runExec_result [OF demo_runExec] show ?thesis by (simp add: demo_runExec)
qed



definition demo_ping :: Request where
  "demo_ping = zero_Request\<lparr>rq_Type := ''ping''\<rparr>"

lemma demo_handle_ping:
  "run_state (handle demo_env demo_ping) g = (zero_Response\<lparr>rs_OK := True,
     rs_Ping := Some \<lparr>pr_AgentVersion = agentVersion, pr_NowUnixMs = 1700000000000\<rparr>\<rparr>, g)"
  by (simp add: handle_def demo_ping_def demo_env_def zero_Request_def)

lemma demo_serve_ping:
  "fst (serve_one demo_env demo_ping g) = zero_Response\<lparr>rs_OK := True,
     rs_Ping := Some \<lparr>pr_AgentVersion = agentVersion, pr_NowUnixMs = 1700000000000\<rparr>\<rparr>"
  by (simp add: serve_one_def demo_handle_ping)


text \<open>
  C40: The limits do not fit together: a command whose two output streams stay within the default
  limit of 1 MiB can have a response that does not fit the 8 MiB of a frame, because a control
  byte takes six bytes in JSON. \<open>WriteMessage\<close> then fails before it writes anything, and the
  agent drops the connection instead of answering.
\<close>

theorem exec_output_overflows_frame:
  "(\<exists>e. run_state (WriteMessage wr (json_Response (full_response (2 ^ 20)))) s = (Some e, s)) \<and>
   rs_Exec (full_response (2 ^ 20)) = Some \<lparr>xr_ExitCode = 0, xr_Stdout = replicate (2 ^ 20) (CHR 0x00),
     xr_Stderr = replicate (2 ^ 20) (CHR 0x00), xr_TimedOut = False\<rparr> \<and>
   exec_maxOut zero_ExecRequest = 2 ^ 20"
proof -
  have "MaxMessageBytes < 12 * 2 ^ 20" by (simp add: MaxMessageBytes_def)
  also have "12 * 2 ^ 20 \<le> length (Marshal (json_Response (full_response (2 ^ 20))))"
    by (rule length_full_response)
  finally show ?thesis
    by (simp add: WriteMessage_def Let_def exec_maxOut_def zero_ExecRequest_def full_response_def)
qed

text \<open>
  C32: A successful \<open>configureNetwork\<close> leaves the requested interface, \<open>eth0\<close> if the request names
  none, with exactly one address, the requested one, whatever it had before, and leaves the
  addresses of every other interface alone. The netlink calls may fail; when they succeed they do
  what they document: listing returns the addresses of that link, deleting removes the address
  from that link (and possibly others that depend on it), adding appends it to that link, and the
  other calls change no addresses.
\<close>

theorem configureNetwork_single_address:
  assumes list: "\<And>l g as. fst (g_AddrList G l g) = Inr as \<Longrightarrow> as = addrs g l"
    and del: "\<And>l a g. fst (g_AddrDel G l a g) = None \<Longrightarrow> set (addrs (snd (g_AddrDel G l a g)) l) \<subseteq> set (addrs g l) - {a} \<and>
      (\<forall>k. k \<noteq> l \<longrightarrow> addrs (snd (g_AddrDel G l a g)) k = addrs g k)"
    and add: "\<And>l a g. fst (g_AddrAdd G l a g) = None \<Longrightarrow> addrs (snd (g_AddrAdd G l a g)) = (addrs g)(l := addrs g l @ [a])"
    and others: "\<And>n g. addrs (snd (g_LinkByName G n g)) = addrs g" "\<And>l g. addrs (snd (g_LinkSetUp G l g)) = addrs g"
      "\<And>l i g. addrs (snd (g_RouteReplace G l i g)) = addrs g" "\<And>p b g. addrs (snd (g_WriteFile G p b g)) = addrs g"
      "\<And>l g. addrs (snd (g_AddrList G l g)) = addrs g"
    and run: "run_state (configureNetwork G req) g = (None, g')"
    and iface: "iface = (if TrimSpace (nr_Interface req) = [] then ''eth0'' else TrimSpace (nr_Interface req))"
  shows "\<exists>link a. fst (g_LinkByName G iface g) = Inr link \<and> g_ParseAddr G (TrimSpace (nr_Address req)) = Inr a \<and>
    addrs g' = (addrs g)(link := [a])"
proof -
  have keep: "addrs g2 = addrs g1" if "g_LinkByName G n g1 = (r, g2)" for n r g1 g2
    using others(1) [of n g1] that by simp
  have keep2: "addrs g2 = addrs g1" if "g_LinkSetUp G l g1 = (r, g2)" for l r g1 g2
    using others(2) [of l g1] that by simp
  have keep3: "addrs g2 = addrs g1" if "g_RouteReplace G l i g1 = (r, g2)" for l i r g1 g2
    using others(3) [of l i g1] that by simp
  have keep4: "addrs g2 = addrs g1" if "g_WriteFile G p b g1 = (r, g2)" for p b r g1 g2
    using others(4) [of p b g1] that by simp
  have listed: "as = addrs g1 l \<and> addrs g2 = addrs g1" if "g_AddrList G l g1 = (Inr as, g2)" for l as g1 g2
    using list [of l g1 as] others(5) [of l g1] that by simp
  have added: "addrs g2 = (addrs g1)(l := addrs g1 l @ [a])" if "g_AddrAdd G l a g1 = (None, g2)" for l a g1 g2
    using add [of l a g1] that by simp
  have gone: "addrs g2 = (addrs g1)(l := [])" if "run_state (delete_addrs G i l as) g1 = (None, g2)" "as = addrs g1 l" for i l as g1 g2
    by (rule delete_addrs_all [OF del _ that(1)]) (simp_all add: that(2))
  have "wp (configureNetwork G req) (\<lambda>e g'. e = None \<longrightarrow>
      (\<exists>link a. fst (g_LinkByName G iface g) = Inr link \<and> g_ParseAddr G (TrimSpace (nr_Address req)) = Inr a \<and>
        addrs g' = (addrs g)(link := [a]))) g"
    unfolding configureNetwork_def Let_def iface [symmetric]
    by (auto simp: wp_simps wp_all [of "delete_addrs _ _ _ _"] del: iffI
        dest!: keep keep2 keep3 keep4 listed added gone)
  from wp_run [OF this run] show ?thesis by simp
qed

lemma demo_TrimSpace:
  "TrimSpace ''172.16.5.2/30'' = ''172.16.5.2/30''" "TrimSpace ''172.16.5.1'' = ''172.16.5.1''"
  "TrimSpace ''eth0'' = ''eth0''" "TrimSpace ''1.1.1.1'' = ''1.1.1.1''"
  by (simp_all add: TrimSpace_printable printable_def less_char_def)

theorem configureNetwork_single_address_witness:
  "dm_addrs (snd (run_state (configureNetwork demo_env demo_net) demo_guest)) =
     (dm_addrs demo_guest)(2 := [''172.16.5.2/30''])"
proof -
  have ip: "ParseIP ''172.16.5.1'' = Some (IPv4 2886731009)"
    by (simp add: ParseIP_def parse_ipv4_def octet_def is_digit_def less_eq_char_def digits_val_def)
  have run: "run_state (configureNetwork demo_env demo_net) demo_guest =
      (None, demo_guest\<lparr>dm_addrs := (dm_addrs demo_guest)(2 := [''172.16.5.2/30''])\<rparr>)"
    by (simp add: configureNetwork_def demo_net_def demo_env_def demo_guest_def demo_TrimSpace ip Let_def)
  have iface: "''eth0'' = (if TrimSpace (nr_Interface demo_net) = [] then ''eth0'' else TrimSpace (nr_Interface demo_net))"
    by (simp add: demo_net_def demo_TrimSpace)
  have "\<exists>link a. fst (g_LinkByName demo_env ''eth0'' demo_guest) = Inr link \<and>
      g_ParseAddr demo_env (TrimSpace (nr_Address demo_net)) = Inr a \<and>
      dm_addrs (demo_guest\<lparr>dm_addrs := (dm_addrs demo_guest)(2 := [''172.16.5.2/30''])\<rparr>) = (dm_addrs demo_guest)(link := [a])"
    by (rule configureNetwork_single_address [OF _ _ _ _ _ _ _ _ run iface]) (auto simp: demo_env_def)
  then show ?thesis by (simp add: run)
qed

end
