(* ===== verification/Host.thy ===== *)
theory Host
  imports Go_Strings Go_Net "HOL-Library.List_Lexorder"
begin

text \<open>
  The host the server runs on, and the calls it makes there: the clock, the file system, child
  processes and the programs it runs, sockets, and everything reached through third-party
  packages (netlink, netns, ssh).

  The file system is modelled: a list of paths with their nodes and the effect of each call of
  package \<open>os\<close> on it, written out for every outcome. What is not code of the program is the
  record \<open>env\<close>, an argument of every definition: the faults of the file system (which errno, and
  how much of an interrupted write or removal was done), the kernel's pseudo files (\<open>/proc\<close>,
  \<open>/sys\<close>, \<open>/dev\<close>), the Go scheduler (which of two goroutines runs first, \<open>e_sched\<close>, and the order
  in which a map is ranged over, \<open>e_rank\<close>), the programs the server starts, the sockets they open, the peers of its
  connections and the network stack. The state of all that is of an arbitrary type \<open>'x\<close>. Every
  such call says how much time passes in it, so the clock never goes back, by construction.
\<close>

section \<open>File system\<close>

datatype fnode = Dir | File string

type_synonym filesys = "(string \<times> fnode) list"

datatype fsop =
    OpStat | OpMkdir | OpMkdirAll | OpRemove | OpRemoveAll | OpWriteFile | OpReadFile | OpRename
  | OpReadDir | OpOpen

fun op_name :: "fsop \<Rightarrow> string" where
  "op_name OpStat = ''stat''"
| "op_name OpMkdir = ''mkdir''"
| "op_name OpMkdirAll = ''mkdir''"
| "op_name OpRemove = ''remove''"
| "op_name OpRemoveAll = ''unlinkat''"
| "op_name OpWriteFile = ''open''"
| "op_name OpReadFile = ''open''"
| "op_name OpRename = ''rename''"
| "op_name OpReadDir = ''open''"
| "op_name OpOpen = ''open''"

datatype fsval = FUnit | FData string | FEntries "(string \<times> bool) list"

definition fs_get :: "filesys \<Rightarrow> string \<Rightarrow> fnode option" where
  "fs_get f p = (if p = [slash] then Some Dir else map_of f p)"

definition fs_put :: "string \<Rightarrow> fnode \<Rightarrow> filesys \<Rightarrow> filesys" where
  "fs_put p n f = (p, n) # filter (\<lambda>(q, _). q \<noteq> p) f"

definition fs_del :: "(string \<Rightarrow> bool) \<Rightarrow> filesys \<Rightarrow> filesys" where
  "fs_del P f = filter (\<lambda>(q, _). \<not> P q) f"

text \<open>\<open>filepath.Dir\<close> of a clean absolute path.\<close>

definition parent :: "string \<Rightarrow> string" where
  "parent p = (let d = rev (drop 1 (dropWhile (\<lambda>c. c \<noteq> slash) (rev p))) in if d = [] then [slash] else d)"

definition children :: "filesys \<Rightarrow> string \<Rightarrow> (string \<times> fnode) list" where
  "children f d = map (\<lambda>(q, n). (drop (length d + 1) q, n)) (filter (\<lambda>(q, _). q \<noteq> d \<and> parent q = d) f)"

text \<open>The directories \<open>MkdirAll\<close> makes, outermost first.\<close>

definition dirs_to :: "string \<Rightarrow> string list" where
  "dirs_to p = [take i p. i \<leftarrow> [1..<length p], p ! i = slash] @ [p]"

definition add_dir :: "filesys \<Rightarrow> string \<Rightarrow> filesys" where
  "add_dir f d = (if fs_get f d = None then fs_put d Dir f else f)"

fun is_file :: "fnode option \<Rightarrow> bool" where
  "is_file (Some (File _)) = True"
| "is_file _ = False"

text \<open>
  Each call without a fault: its result and the file system after it. The second argument of a
  call is the data of \<open>WriteFile\<close> and the target of \<open>Rename\<close>.
\<close>

definition fail :: "fsop \<Rightarrow> string \<Rightarrow> errno \<Rightarrow> filesys \<Rightarrow> fsval res \<times> filesys" where
  "fail op p e f = (Inl (PathError (op_name op) p e), f)"

definition fs_create :: "fsop \<Rightarrow> string \<Rightarrow> string \<Rightarrow> filesys \<Rightarrow> fsval res \<times> filesys" where
  "fs_create op p d f =
    (if fs_get f p = Some Dir then fail op p EISDIR f
     else if fs_get f (parent p) = None then fail op p ENOENT f
     else if is_file (fs_get f (parent p)) then fail op p ENOTDIR f
     else (Inr FUnit, fs_put p (File d) f))"

fun fs_step :: "fsop \<Rightarrow> string \<Rightarrow> string \<Rightarrow> filesys \<Rightarrow> fsval res \<times> filesys" where
  "fs_step OpStat p _ f =
    (if fs_get f p = None then fail OpStat p ENOENT f else (Inr FUnit, f))"
| "fs_step OpMkdir p _ f =
    (if fs_get f p \<noteq> None then fail OpMkdir p EEXIST f
     else if fs_get f (parent p) = None then fail OpMkdir p ENOENT f
     else if is_file (fs_get f (parent p)) then fail OpMkdir p ENOTDIR f
     else (Inr FUnit, fs_put p Dir f))"
| "fs_step OpMkdirAll p _ f =
    (case find (\<lambda>d. is_file (fs_get f d)) (dirs_to p) of
       Some d \<Rightarrow> fail OpMkdirAll d ENOTDIR f
     | None \<Rightarrow> (Inr FUnit, foldl add_dir f (dirs_to p)))"
| "fs_step OpRemove p _ f =
    (case fs_get f p of
       None \<Rightarrow> fail OpRemove p ENOENT f
     | Some Dir \<Rightarrow> if children f p = [] then (Inr FUnit, fs_del (\<lambda>q. q = p) f) else fail OpRemove p ENOTEMPTY f
     | Some (File _) \<Rightarrow> (Inr FUnit, fs_del (\<lambda>q. q = p) f))"
| "fs_step OpRemoveAll p _ f = (Inr FUnit, fs_del (below p) f)"
| "fs_step OpWriteFile p d f = fs_create OpWriteFile p d f"
| "fs_step OpReadFile p _ f =
    (case fs_get f p of
       None \<Rightarrow> fail OpReadFile p ENOENT f
     | Some Dir \<Rightarrow> (Inl (PathError ''read'' p EISDIR), f)
     | Some (File d) \<Rightarrow> (Inr (FData d), f))"
| "fs_step OpRename p q f =
    (case fs_get f p of
       None \<Rightarrow> fail OpRename p ENOENT f
     | Some n \<Rightarrow>
       if fs_get f q = Some Dir then fail OpRename p EEXIST f
       else if fs_get f (parent q) \<noteq> Some Dir then fail OpRename p ENOENT f
       else (Inr FUnit, fs_put q n (fs_del (\<lambda>r. r = p) f)))"
| "fs_step OpReadDir p _ f =
    (case fs_get f p of
       None \<Rightarrow> fail OpReadDir p ENOENT f
     | Some (File _) \<Rightarrow> (Inl (PathError ''readdirent'' p ENOTDIR), f)
     | Some Dir \<Rightarrow> (Inr (FEntries (map (\<lambda>(k, n). (k, n = Dir)) (sort_key fst (children f p)))), f))"
| "fs_step OpOpen p _ f = fs_create OpOpen p [] f"

text \<open>
  A fault of the file system: its errno, and what an interrupted call has done: the number of
  bytes written (none at all if the file could not be opened), the number of directories made,
  the entries removed.
\<close>

record fault =
  fl_errno :: errno
  fl_done :: "nat option"
  fl_removed :: "string list"

definition fs_residue :: "fault \<Rightarrow> fsop \<Rightarrow> string \<Rightarrow> string \<Rightarrow> filesys \<Rightarrow> filesys" where
  "fs_residue fl op p d f =
    (case op of
       OpWriteFile \<Rightarrow> (case fl_done fl of None \<Rightarrow> f | Some n \<Rightarrow> snd (fs_create op p (take n d) f))
     | OpMkdirAll \<Rightarrow> (case fl_done fl of None \<Rightarrow> f
         | Some n \<Rightarrow> if list_ex (\<lambda>q. is_file (fs_get f q)) (dirs_to p) then f
                    else foldl add_dir f (take n (dirs_to p)))
     | OpRemoveAll \<Rightarrow> fs_del (\<lambda>q. below p q \<and> q \<in> set (fl_removed fl)) f
     | _ \<Rightarrow> f)"


section \<open>The host and its environment\<close>

datatype pstate = Running | Killed | Reaped

record 'x host =
  clock :: int
  ticks :: nat
  fs :: filesys
  procs :: "(nat \<times> pstate) list"
  ext :: 'x

text \<open>What a call outside the program returns: its result, the time it took, the state after it.\<close>

type_synonym ('x, 'a) call = "'x \<Rightarrow> 'a \<times> nat \<times> 'x"

text \<open>The same for programs that work on the file system.\<close>

type_synonym ('x, 'a) fscall = "filesys \<Rightarrow> 'x \<Rightarrow> 'a \<times> nat \<times> filesys \<times> 'x"

record 'x env =
  e_lag :: "nat \<Rightarrow> nat"
  e_sched :: "nat \<Rightarrow> bool"
  e_rank :: "nat \<Rightarrow> nat \<Rightarrow> nat"
  e_fault :: "nat \<Rightarrow> fsop \<Rightarrow> string \<Rightarrow> fault option"
  e_pseudo :: "string \<Rightarrow> bool"
  e_pseudo_call :: "fsop \<Rightarrow> string \<Rightarrow> string \<Rightarrow> ('x, fsval res) call"
  e_socket :: "string \<Rightarrow> 'x \<Rightarrow> bool"
  e_unlink :: "string \<Rightarrow> 'x \<Rightarrow> 'x"
  e_Run :: "string \<Rightarrow> string list \<Rightarrow> ('x, string \<times> string \<times> goerr option) fscall"
  e_Start :: "string list \<Rightarrow> string \<Rightarrow> ('x, nat res) fscall"
  e_KillGroup :: "nat \<Rightarrow> ('x, goerr option) call"
  e_Kill :: "nat \<Rightarrow> ('x, goerr option) call"
  e_Wait :: "nat \<Rightarrow> int option \<Rightarrow> ('x, goerr option option) call"
  e_Dial :: "string \<Rightarrow> int \<Rightarrow> ('x, nat res) call"
  e_SetDeadline :: "nat \<Rightarrow> int option \<Rightarrow> ('x, unit) call"
  e_Write :: "nat \<Rightarrow> string \<Rightarrow> ('x, goerr option) call"
  e_ReadFull :: "nat \<Rightarrow> nat \<Rightarrow> ('x, string res) call"
  e_ReadString :: "nat \<Rightarrow> int \<Rightarrow> ('x, string res option) call"
  e_Close :: "nat \<Rightarrow> ('x, goerr option) call"
  e_Do :: "string \<Rightarrow> int \<Rightarrow> string \<Rightarrow> string \<Rightarrow> string option \<Rightarrow> ('x, goerr + (int \<times> string)) fscall"
  e_netns_Get :: "('x, nat res) call"
  e_netns_Set :: "nat \<Rightarrow> ('x, goerr option) call"
  e_netns_NewNamed :: "string \<Rightarrow> ('x, nat res) call"
  e_netns_DeleteNamed :: "string \<Rightarrow> ('x, goerr option) call"
  e_netns_Close :: "nat \<Rightarrow> ('x, goerr option) call"
  e_nl_NewHandle :: "('x, nat res) call"
  e_nl_Delete :: "nat \<Rightarrow> ('x, unit) call"
  e_nl_AddVeth :: "nat \<Rightarrow> string \<Rightarrow> string \<Rightarrow> ('x, goerr option) call"
  e_nl_AddTap :: "nat \<Rightarrow> string \<Rightarrow> ('x, goerr option) call"
  e_nl_LinkByName :: "nat \<Rightarrow> string \<Rightarrow> ('x, nat res) call"
  e_nl_LinkDel :: "nat \<Rightarrow> nat \<Rightarrow> ('x, goerr option) call"
  e_nl_LinkSetNsFd :: "nat \<Rightarrow> nat \<Rightarrow> nat \<Rightarrow> ('x, goerr option) call"
  e_nl_LinkSetUp :: "nat \<Rightarrow> nat \<Rightarrow> ('x, goerr option) call"
  e_nl_ParseAddr :: "string \<Rightarrow> string res"
  e_nl_AddrAdd :: "nat \<Rightarrow> nat \<Rightarrow> string \<Rightarrow> ('x, goerr option) call"
  e_nl_RouteReplace :: "nat \<Rightarrow> nat \<Rightarrow> (nat \<times> nat) option \<Rightarrow> ip \<Rightarrow> ('x, goerr option) call"
  e_nl_RouteDel :: "nat \<Rightarrow> (nat \<times> nat) \<Rightarrow> ('x, goerr option) call"
  e_ssh_ParseKey :: "string \<Rightarrow> goerr option"
  e_ssh_Dial :: "string \<Rightarrow> int \<Rightarrow> ('x, nat res) call"
  e_ssh_NewSession :: "nat \<Rightarrow> ('x, nat res) call"
  e_ssh_Start :: "nat \<Rightarrow> string \<Rightarrow> ('x, goerr option) call"
  e_ssh_Wait :: "nat \<Rightarrow> int \<Rightarrow> ('x, goerr option option) call"
  e_ssh_Run :: "nat \<Rightarrow> string \<Rightarrow> ('x, goerr option) call"
  e_ssh_Kill :: "nat \<Rightarrow> ('x, goerr option) call"
  e_ssh_Output :: "nat \<Rightarrow> 'x \<Rightarrow> string \<times> string"
  e_ssh_CloseSession :: "nat \<Rightarrow> ('x, goerr option) call"
  e_ssh_CloseClient :: "nat \<Rightarrow> ('x, goerr option) call"


section \<open>Calls of the server\<close>

text \<open>Time passes before every call, as much as the environment says.\<close>

definition tick :: "'x env \<Rightarrow> ('x host, unit) state" where
  "tick E = modify (\<lambda>h. h\<lparr>clock := clock h + int (e_lag E (ticks h)), ticks := Suc (ticks h)\<rparr>)"

definition time_Now :: "'x env \<Rightarrow> ('x host, int) state" where
  "time_Now E = do { tick E; gets clock }"

text \<open>\<open>time.Sleep\<close>: at least the given duration passes.\<close>

definition time_Sleep :: "'x env \<Rightarrow> int \<Rightarrow> ('x host, unit) state" where
  "time_Sleep E d = do { tick E; modify (\<lambda>h. h\<lparr>clock := clock h + max 0 d\<rparr>) }"

definition outside :: "('x, 'a) call \<Rightarrow> ('x host, 'a) state" where
  "outside c = State (\<lambda>h. case c (ext h) of (a, d, x) \<Rightarrow> (a, h\<lparr>clock := clock h + int d, ext := x\<rparr>))"

definition outside_fs :: "('x, 'a) fscall \<Rightarrow> ('x host, 'a) state" where
  "outside_fs c = State (\<lambda>h. case c (fs h) (ext h) of
     (a, d, f, x) \<Rightarrow> (a, h\<lparr>clock := clock h + int d, fs := f, ext := x\<rparr>))"

text \<open>A fault after the file was opened is one of reading or writing it.\<close>

definition fault_name :: "fault \<Rightarrow> fsop \<Rightarrow> string" where
  "fault_name fl op =
    (if fl_done fl = None then op_name op
     else if op = OpReadFile then ''read'' else if op = OpWriteFile then ''write'' else op_name op)"

definition sys_fs :: "'x env \<Rightarrow> fsop \<Rightarrow> string \<Rightarrow> string \<Rightarrow> ('x host, fsval res) state" where
  "sys_fs E op p d = do {
     tick E;
     if e_pseudo E p then outside (e_pseudo_call E op p d)
     else State (\<lambda>h.
       case e_fault E (ticks h) op p of
         Some fl \<Rightarrow> (Inl (PathError (fault_name fl op) p (fl_errno fl)), h\<lparr>fs := fs_residue fl op p d (fs h)\<rparr>)
       | None \<Rightarrow>
         if (op = OpStat \<or> op = OpRemove) \<and> fs_get (fs h) p = None \<and> e_socket E p (ext h)
         then (Inr FUnit, if op = OpRemove then h\<lparr>ext := e_unlink E p (ext h)\<rparr> else h)
         else (case fs_step op p d (fs h) of
           (r, f) \<Rightarrow> (r, if op = OpRemoveAll then h\<lparr>fs := f, ext := e_unlink E p (ext h)\<rparr> else h\<lparr>fs := f\<rparr>)))
   }"

definition err_of :: "fsval res \<Rightarrow> goerr option" where
  "err_of r = (case r of Inl e \<Rightarrow> Some e | Inr _ \<Rightarrow> None)"

definition os_Stat :: "'x env \<Rightarrow> string \<Rightarrow> ('x host, goerr option) state" where
  "os_Stat E p = do { r \<leftarrow> sys_fs E OpStat p []; return (err_of r) }"

definition os_Mkdir :: "'x env \<Rightarrow> string \<Rightarrow> ('x host, goerr option) state" where
  "os_Mkdir E p = do { r \<leftarrow> sys_fs E OpMkdir p []; return (err_of r) }"

definition os_MkdirAll :: "'x env \<Rightarrow> string \<Rightarrow> ('x host, goerr option) state" where
  "os_MkdirAll E p = do { r \<leftarrow> sys_fs E OpMkdirAll p []; return (err_of r) }"

definition os_Remove :: "'x env \<Rightarrow> string \<Rightarrow> ('x host, goerr option) state" where
  "os_Remove E p = do { r \<leftarrow> sys_fs E OpRemove p []; return (err_of r) }"

definition os_RemoveAll :: "'x env \<Rightarrow> string \<Rightarrow> ('x host, goerr option) state" where
  "os_RemoveAll E p = do { r \<leftarrow> sys_fs E OpRemoveAll p []; return (err_of r) }"

definition os_WriteFile :: "'x env \<Rightarrow> string \<Rightarrow> string \<Rightarrow> ('x host, goerr option) state" where
  "os_WriteFile E p d = do { r \<leftarrow> sys_fs E OpWriteFile p d; return (err_of r) }"

definition os_Rename :: "'x env \<Rightarrow> string \<Rightarrow> string \<Rightarrow> ('x host, goerr option) state" where
  "os_Rename E p q = do { r \<leftarrow> sys_fs E OpRename p q; return (err_of r) }"

definition os_OpenTrunc :: "'x env \<Rightarrow> string \<Rightarrow> ('x host, goerr option) state" where
  "os_OpenTrunc E p = do { r \<leftarrow> sys_fs E OpOpen p []; return (err_of r) }"

definition os_ReadFile :: "'x env \<Rightarrow> string \<Rightarrow> ('x host, string res) state" where
  "os_ReadFile E p = do {
     r \<leftarrow> sys_fs E OpReadFile p [];
     return (case r of Inl e \<Rightarrow> Inl e | Inr (FData d) \<Rightarrow> Inr d | Inr _ \<Rightarrow> Inr []) }"

definition os_ReadDir :: "'x env \<Rightarrow> string \<Rightarrow> ('x host, (string \<times> bool) list res) state" where
  "os_ReadDir E p = do {
     r \<leftarrow> sys_fs E OpReadDir p [];
     return (case r of Inl e \<Rightarrow> Inl e | Inr (FEntries es) \<Rightarrow> Inr es | Inr _ \<Rightarrow> Inr []) }"

text \<open>\<open>runCmd\<close> of \<open>cmdutil.go\<close>; a Go slice of strings prints as its elements between brackets.\<close>

definition slice_string :: "string list \<Rightarrow> string" where
  "slice_string args = ''['' @ strings_Join args '' '' @ '']''"

definition runCmd :: "'x env \<Rightarrow> string \<Rightarrow> string list \<Rightarrow> ('x host, string \<times> string \<times> goerr option) state" where
  "runCmd E name args = do {
     (stdout, stderr, err) \<leftarrow> outside_fs (e_Run E name args);
     case err of
       Some e \<Rightarrow> return (stdout, stderr, Some (Wrap (name @ '' '' @ slice_string args @ '': '') e
                  ('' (stderr: '' @ TrimSpace stderr @ '')'')))
     | None \<Rightarrow> return (stdout, stderr, None)
   }"

text \<open>Child processes: the server knows which it started, killed and waited for.\<close>

definition set_proc :: "nat \<Rightarrow> pstate \<Rightarrow> ('x host, unit) state" where
  "set_proc pid st = modify (\<lambda>h. h\<lparr>procs := AList.update pid st (procs h)\<rparr>)"

definition cmd_Start :: "'x env \<Rightarrow> string list \<Rightarrow> string \<Rightarrow> ('x host, nat res) state" where
  "cmd_Start E argv dir = do {
     r \<leftarrow> outside_fs (e_Start E argv dir);
     case r of Inl e \<Rightarrow> return (Inl e)
     | Inr pid \<Rightarrow> do { set_proc pid Running; return (Inr pid) }
   }"

text \<open>
  \<open>killProcessGroup\<close> of \<open>procutil.go\<close>: a group that is already gone (ESRCH) counts as killed.
  A process handle is \<open>None\<close> when the command was never started.
\<close>

definition killProcessGroup :: "'x env \<Rightarrow> nat option \<Rightarrow> ('x host, goerr option) state" where
  "killProcessGroup E cmd =
    (case cmd of
       None \<Rightarrow> return None
     | Some pid \<Rightarrow> do {
         r \<leftarrow> outside (e_KillGroup E pid);
         case r of
           Some e \<Rightarrow>
             if \<not> errors_Is e ESRCH then do {
               k \<leftarrow> outside (e_Kill E pid);
               (if k = None then set_proc pid Killed else return ());
               return (Some e)
             } else do { set_proc pid Killed; return None }
         | None \<Rightarrow> do { set_proc pid Killed; return None }
       })"

text \<open>\<open>Wait\<close>, possibly raced against a timer: \<open>None\<close> when the timer fires first.\<close>

definition cmd_Wait :: "'x env \<Rightarrow> nat \<Rightarrow> int option \<Rightarrow> ('x host, goerr option option) state" where
  "cmd_Wait E pid timeout = do {
     r \<leftarrow> outside (e_Wait E pid timeout);
     case r of
       None \<Rightarrow> return None
     | Some err \<Rightarrow> do { set_proc pid Reaped; return (Some err) }
   }"



section \<open>Facts about the file system\<close>

lemma fs_get_root [simp]: "fs_get f [slash] = Some Dir"
  by (simp add: fs_get_def)

lemma fs_get_put: "fs_get (fs_put p n f) q = (if q = [slash] then Some Dir else if q = p then Some n else fs_get f q)"
  by (auto simp: fs_get_def fs_put_def map_of_filter_key)

lemma fs_get_del: "fs_get (fs_del P f) q = (if q = [slash] then Some Dir else if P q then None else fs_get f q)"
  by (simp add: fs_get_def fs_del_def map_of_filter_key)

lemma fs_get_add_dir:
  "fs_get (add_dir f d) q = (if q = d \<and> fs_get f q = None then Some Dir else fs_get f q)"
  by (auto simp: add_dir_def fs_get_put)

lemma fs_get_add_dirs:
  "fs_get (foldl add_dir f ds) q = (if q \<in> set ds \<and> fs_get f q = None then Some Dir else fs_get f q)"
  by (induction ds arbitrary: f) (auto simp: fs_get_add_dir)

lemma fs_create_cases:
  "fs_create op p d f = (r, f') \<Longrightarrow> (\<exists>e. r = Inl e) \<and> f' = f \<or> r = Inr FUnit \<and> f' = fs_put p (File d) f \<and> p \<noteq> [slash]"
  by (auto simp: fs_create_def fail_def split: if_splits)

text \<open>The paths a call can change.\<close>

fun scope :: "fsop \<Rightarrow> string \<Rightarrow> string \<Rightarrow> string \<Rightarrow> bool" where
  "scope OpMkdirAll p d q = (q \<in> set (dirs_to p))"
| "scope OpRemoveAll p d q = below p q"
| "scope OpRename p d q = (q = p \<or> q = d)"
| "scope OpStat p d q = False"
| "scope OpReadFile p d q = False"
| "scope OpReadDir p d q = False"
| "scope _ p d q = (q = p)"

lemma fs_create_scope: "fs_create op p d f = (r, f') \<Longrightarrow> q \<noteq> p \<Longrightarrow> fs_get f' q = fs_get f q"
  by (drule fs_create_cases) (auto simp: fs_get_put)

lemma fs_step_scope:
  assumes "\<not> scope op p d q" "fs_step op p d f = (r, f')"
  shows "fs_get f' q = fs_get f q"
  using assms
  by (cases op) (auto simp: fail_def fs_get_put fs_get_del fs_get_add_dirs
      split: if_splits option.splits fnode.splits dest: fs_create_scope)

lemma fs_residue_scope:
  assumes "\<not> scope op p d q"
  shows "fs_get (fs_residue fl op p d f) q = fs_get f q"
proof (cases op)
  case OpWriteFile
  with assms show ?thesis
    by (cases "fs_create op p (take (the (fl_done fl)) d) f")
       (auto simp: fs_residue_def split: option.split dest: fs_create_scope)
next
  case OpMkdirAll
  with assms show ?thesis
    by (auto simp: fs_residue_def fs_get_add_dirs split: option.split dest: in_set_takeD)
qed (use assms in \<open>auto simp: fs_residue_def fs_get_del split: option.split\<close>)


section \<open>What every call keeps\<close>

text \<open>The clock never goes back.\<close>

definition later :: "'x host \<Rightarrow> 'x host \<Rightarrow> bool" where
  "later h h' \<longleftrightarrow> clock h \<le> clock h'"

interpretation later: preorder_rel later
  by unfold_locales (auto simp: later_def)

text \<open>Nothing changes on the paths of a set.\<close>

definition untouched :: "(string \<Rightarrow> bool) \<Rightarrow> 'x host \<Rightarrow> 'x host \<Rightarrow> bool" where
  "untouched P h h' \<longleftrightarrow> (\<forall>q. P q \<longrightarrow> fs_get (fs h') q = fs_get (fs h) q)"

interpretation untouched: preorder_rel "untouched P" for P
  by unfold_locales (auto simp: untouched_def)

lemma later_tick [clock_monos]: "keeps later (tick E)"
  by (auto simp: tick_def later_def intro: keepsI)

lemma later_outside [clock_monos]: "keeps later (outside c)"
  by (rule keepsI) (auto simp: outside_def later_def split: prod.splits)

lemma later_outside_fs [clock_monos]: "keeps later (outside_fs c)"
  by (rule keepsI) (auto simp: outside_fs_def later_def split: prod.splits)

lemma later_time_Now [clock_monos]: "keeps later (time_Now E)"
  unfolding time_Now_def by (intro later.keeps_rules clock_monos)

lemma later_time_Sleep [clock_monos]: "keeps later (time_Sleep E d)"
  unfolding time_Sleep_def by (intro later.keeps_rules clock_monos) (auto simp: later_def intro: keepsI)

lemma later_sys_fs [clock_monos]: "keeps later (sys_fs E op p d)"
  unfolding sys_fs_def
  by (intro later.keeps_rules clock_monos keepsI)
     (auto simp: later_def split: option.splits if_splits prod.splits)

lemma later_set_proc [clock_monos]: "keeps later (set_proc pid st)"
  by (rule keepsI) (auto simp: set_proc_def later_def)

lemmas os_defs = os_Stat_def os_Mkdir_def os_MkdirAll_def os_Remove_def os_RemoveAll_def
  os_WriteFile_def os_Rename_def os_OpenTrunc_def os_ReadFile_def os_ReadDir_def

lemma later_os [clock_monos]:
  "keeps later (os_Stat E p)" "keeps later (os_Mkdir E p)" "keeps later (os_MkdirAll E p)"
  "keeps later (os_Remove E p)" "keeps later (os_RemoveAll E p)" "keeps later (os_WriteFile E p d)"
  "keeps later (os_Rename E p q)" "keeps later (os_OpenTrunc E p)" "keeps later (os_ReadFile E p)"
  "keeps later (os_ReadDir E p)"
  unfolding os_defs by (intro later.keeps_rules clock_monos)+

lemma later_runCmd [clock_monos]: "keeps later (runCmd E name args)"
  unfolding runCmd_def by (intro later.keeps_rules clock_monos)

lemma later_cmd [clock_monos]:
  "keeps later (cmd_Start E argv dir)" "keeps later (killProcessGroup E cmd)"
  "keeps later (cmd_Wait E pid t)"
  unfolding cmd_Start_def killProcessGroup_def cmd_Wait_def
  by (intro later.keeps_rules clock_monos)+

text \<open>After a sleep at least the given time has passed.\<close>

lemma time_Sleep_passes: "run_state (time_Sleep E d) h = (u, h') \<Longrightarrow> clock h + d \<le> clock h'"
  by (auto simp: time_Sleep_def tick_def)

lemma time_Now_value: "run_state (time_Now E) h = (t, h') \<Longrightarrow> t = clock h' \<and> clock h \<le> t"
  by (auto simp: time_Now_def tick_def)


text \<open>
  One round of a loop that polls until a deadline: it has looked at the clock, then slept, with
  anything that never turns the clock back in between. The time left gets smaller, so the loop ends.
\<close>

definition time_left :: "int \<Rightarrow> 'x host \<Rightarrow> nat" where
  "time_left deadline h = nat (deadline - clock h + 1)"

lemma poll_round:
  assumes "run_state (time_Now E) h = (t, h1)" "t \<le> deadline" "later h1 h2"
    "run_state (time_Sleep E' d) h2 = (u, h3)" "0 < d"
  shows "time_left deadline h3 < time_left deadline h"
  using time_Now_value [OF assms(1)] time_Sleep_passes [OF assms(4)] assms(2,3,5)
  by (simp add: time_left_def later_def)

text \<open>The same for a loop that looks at the clock after an attempt that failed.\<close>

lemma retry_round:
  assumes "later h h1" "run_state (time_Now E) h1 = (t, h2)" "t \<le> deadline"
    "run_state (time_Sleep E' d) h2 = (u, h3)" "0 < d"
  shows "time_left deadline h3 < time_left deadline h"
  using poll_round [OF assms(2,3) later.refl_R assms(4,5)] assms(1)
  by (simp add: time_left_def later_def)

text \<open>The calls leave alone what is outside their scope.\<close>

lemma untouched_host [frames]:
  "keeps (untouched P) (tick E)" "keeps (untouched P) (time_Now E)" "keeps (untouched P) (time_Sleep E d)"
  "keeps (untouched P) (outside c)" "keeps (untouched P) (set_proc pid st)"
  by (auto simp: untouched_def tick_def time_Now_def time_Sleep_def outside_def set_proc_def
      intro!: keepsI split: prod.splits)

lemma untouched_sys_fs:
  assumes "\<And>q. P q \<Longrightarrow> \<not> scope op p d q"
  shows "keeps (untouched P) (sys_fs E op p d)"
proof -
  have step: "fs_get f' q = fs_get f q" if "P q" "fs_step op p d f = (r, f')" for q r f f'
    using fs_step_scope [OF assms [OF that(1)] that(2)] .
  show ?thesis
    unfolding sys_fs_def
    by (intro untouched.keeps_rules frames keepsI)
       (auto simp: untouched_def assms fs_residue_scope simp del: fs_step.simps
         split: option.splits if_splits prod.splits; metis step)
qed

lemma untouched_reads [frames]:
  "keeps (untouched P) (os_Stat E p)" "keeps (untouched P) (os_ReadFile E p)" "keeps (untouched P) (os_ReadDir E p)"
  unfolding os_defs by (intro untouched.keeps_rules untouched_sys_fs; simp)+

lemma untouched_writes [frames]:
  "\<not> P p \<Longrightarrow> keeps (untouched P) (os_Mkdir E p)"
  "\<not> P p \<Longrightarrow> keeps (untouched P) (os_Remove E p)"
  "\<not> P p \<Longrightarrow> keeps (untouched P) (os_WriteFile E p d)"
  "\<not> P p \<Longrightarrow> keeps (untouched P) (os_OpenTrunc E p)"
  "\<not> P p \<Longrightarrow> \<not> P q \<Longrightarrow> keeps (untouched P) (os_Rename E p q)"
  "(\<And>q. P q \<Longrightarrow> \<not> below p q) \<Longrightarrow> keeps (untouched P) (os_RemoveAll E p)"
  "(\<And>q. P q \<Longrightarrow> q \<notin> set (dirs_to p)) \<Longrightarrow> keeps (untouched P) (os_MkdirAll E p)"
  unfolding os_defs by (intro untouched.keeps_rules untouched_sys_fs; auto)+

lemma untouched_procs [frames]:
  "keeps (untouched P) (killProcessGroup E cmd)" "keeps (untouched P) (cmd_Wait E pid t)"
  unfolding killProcessGroup_def cmd_Wait_def by (intro untouched.keeps_rules frames)+


section \<open>An environment where every call succeeds\<close>

text \<open>
  The starting point of the concrete instances on which the properties are exercised: no faults,
  no time passes, every call outside the program succeeds and changes nothing.
\<close>

definition calm_env :: "'x env" where
  "calm_env =
    \<lparr>e_lag = (\<lambda>_. 0), e_sched = (\<lambda>_. True), e_rank = (\<lambda>_ a. a), e_fault = (\<lambda>_ _ _. None), e_pseudo = (\<lambda>p. below ''/proc'' p \<or> below ''/sys'' p),
     e_pseudo_call = (\<lambda>_ _ _ x. (Inr FUnit, 0, x)), e_socket = (\<lambda>_ _. False), e_unlink = (\<lambda>_ x. x),
     e_Run = (\<lambda>_ _ f x. (([], [], None), 0, f, x)), e_Start = (\<lambda>_ _ f x. (Inr 100, 0, f, x)),
     e_KillGroup = (\<lambda>_ x. (None, 0, x)), e_Kill = (\<lambda>_ x. (None, 0, x)), e_Wait = (\<lambda>_ _ x. (Some None, 0, x)),
     e_Dial = (\<lambda>_ _ x. (Inr 7, 0, x)), e_SetDeadline = (\<lambda>_ _ x. ((), 0, x)), e_Write = (\<lambda>_ _ x. (None, 0, x)),
     e_ReadFull = (\<lambda>_ _ x. (Inl EOF, 0, x)), e_ReadString = (\<lambda>_ _ x. (Some (Inr ''OK 1''), 0, x)),
     e_Close = (\<lambda>_ x. (None, 0, x)), e_Do = (\<lambda>_ _ _ _ _ f x. (Inr (204, []), 0, f, x)),
     e_netns_Get = (\<lambda>x. (Inr 1, 0, x)), e_netns_Set = (\<lambda>_ x. (None, 0, x)),
     e_netns_NewNamed = (\<lambda>_ x. (Inr 2, 0, x)), e_netns_DeleteNamed = (\<lambda>_ x. (None, 0, x)),
     e_netns_Close = (\<lambda>_ x. (None, 0, x)), e_nl_NewHandle = (\<lambda>x. (Inr 3, 0, x)), e_nl_Delete = (\<lambda>_ x. ((), 0, x)),
     e_nl_AddVeth = (\<lambda>_ _ _ x. (None, 0, x)), e_nl_AddTap = (\<lambda>_ _ x. (None, 0, x)),
     e_nl_LinkByName = (\<lambda>_ _ x. (Inr 4, 0, x)), e_nl_LinkDel = (\<lambda>_ _ x. (None, 0, x)),
     e_nl_LinkSetNsFd = (\<lambda>_ _ _ x. (None, 0, x)), e_nl_LinkSetUp = (\<lambda>_ _ x. (None, 0, x)),
     e_nl_ParseAddr = (\<lambda>a. Inr a), e_nl_AddrAdd = (\<lambda>_ _ _ x. (None, 0, x)),
     e_nl_RouteReplace = (\<lambda>_ _ _ _ x. (None, 0, x)), e_nl_RouteDel = (\<lambda>_ _ x. (None, 0, x)),
     e_ssh_ParseKey = (\<lambda>_. None), e_ssh_Dial = (\<lambda>_ _ x. (Inr 5, 0, x)), e_ssh_NewSession = (\<lambda>_ x. (Inr 6, 0, x)),
     e_ssh_Start = (\<lambda>_ _ x. (None, 0, x)), e_ssh_Wait = (\<lambda>_ _ x. (Some None, 0, x)), e_ssh_Run = (\<lambda>_ _ x. (None, 0, x)),
     e_ssh_Kill = (\<lambda>_ x. (None, 0, x)), e_ssh_Output = (\<lambda>_ _. ([], [])), e_ssh_CloseSession = (\<lambda>_ x. (None, 0, x)),
     e_ssh_CloseClient = (\<lambda>_ x. (None, 0, x))\<rparr>"

definition blank_host :: "'x \<Rightarrow> 'x host" where
  "blank_host x = \<lparr>clock = 0, ticks = 0, fs = [], procs = [], ext = x\<rparr>"

lemmas run_defs = tick_def time_Now_def time_Sleep_def outside_def outside_fs_def set_proc_def
  cmd_Start_def killProcessGroup_def cmd_Wait_def

end
