(* ===== verification/Server_Types.thy ===== *)
theory Server_Types
  imports Host
begin

text \<open>
  The types of \<open>cmd/server/types.go\<close>, \<open>netns.go\<close>, \<open>netns_pool.go\<close> and
  \<open>sandbox_lifecycle.go\<close>: the configuration, a network namespace, a sandbox, the pool and the
  server. Mutexes and the logger have no field: the sequential theories run one handler at a
  time, and the theory Concurrent splits the handlers at their critical sections.

  Sandboxes are shared by pointer: they live in \<open>heap\<close>, a list indexed by their address, and the
  map of the server holds addresses. The configuration never changes after start-up and is an
  argument of the definitions.
\<close>

record config =
  ListenAddr :: string
  KernelPath :: string
  BaseRootfsPath :: string
  BaseRootfsLineageID :: string
  RootfsCloneMode :: string
  SSHPrivateKey :: string
  FirecrackerBin :: string
  HostNATIface :: string
  WorkDir :: string
  CgroupRoot :: string
  EnableCgroups :: bool
  NetnsPoolSize :: int
  EnableSnapshots :: bool
  KeepFailedSandboxes :: bool
  EnableStageTimingLogs :: bool
  ExecTransport :: string
  AgentPort :: int
  AgentWaitTimeout :: int
  AgentDialTimeout :: int
  AgentCallTimeout :: int
  AgentMaxOutputB :: int
  SSHWaitTimeout :: int
  SSHDialTimeout :: int
  SSHExecWait :: int
  ExecTimeout :: int
  BootArgs :: string
  DefaultMemMiB :: int
  DefaultVCPU :: int

record netnsConfig =
  NetnsName :: string
  Subnet :: int
  Pooled :: bool
  VethHost :: string
  VethNS :: string
  VethCIDR :: string
  VethHostIP :: string
  VethNSIP :: string
  TapName :: string
  SubnetCIDR :: string
  HostIP :: string
  GuestIP :: string

datatype sandboxState = sandboxStateRunning | sandboxStateClosing | sandboxStateClosed

record sandbox =
  sb_ID :: string
  sb_Subnet :: int
  sb_TapDevice :: string
  sb_HostIP :: string
  sb_GuestIP :: string
  sb_GuestCID :: "32 word"
  sb_Netns :: "netnsConfig option"
  sb_Dir :: string
  sb_SocketPath :: string
  sb_VsockPath :: string
  sb_ConfigPath :: string
  sb_RootfsPath :: string
  sb_LogPath :: string
  sb_CgroupPath :: string
  sb_Process :: "nat option"
  sb_SSHClient :: "nat option"
  sb_Agent :: "nat option"
  sb_state :: sandboxState
  sb_inFlightExec :: int

text \<open>
  The channel of the pool is a list, oldest element first, of at most \<open>p_size\<close> elements. A send
  on a full channel blocks; \<open>p_stuck\<close> records that this has happened.
\<close>

record netnsPool =
  p_size :: int
  p_ch :: "netnsConfig list"
  p_all :: "netnsConfig list"
  p_once :: bool
  p_stuck :: bool

record server =
  nextSandboxID :: "64 word"
  nextSnapshotID :: "64 word"
  nextSubnet :: "32 word"
  sandboxes :: "(string \<times> nat) list"
  heap :: "sandbox list"
  pool :: "netnsPool option"

record 'x world =
  host :: "'x host"
  srv :: server


section \<open>Operations on the host inside the world\<close>

definition onhost :: "('x host, 'a) state \<Rightarrow> ('x world, 'a) state" where
  "onhost m = State (\<lambda>w. case run_state m (host w) of (a, h) \<Rightarrow> (a, w\<lparr>host := h\<rparr>))"

lemma wp_onhost [wp_simps]: "wp (onhost m) Q w = wp m (\<lambda>a h. Q a (w\<lparr>host := h\<rparr>)) (host w)"
  by (auto simp: onhost_def wp_def split: prod.splits)

lemma wp_onhost_any: "(\<And>a h. Q a (w\<lparr>host := h\<rparr>)) \<Longrightarrow> wp (onhost m) Q w"
  unfolding wp_onhost by (simp add: wp_def split: prod.split)

text \<open>
  \<open>w \<approx> w'\<close> up to the host: an operation on the host leaves the server's data structures alone,
  whatever it does there.
\<close>

definition same_srv :: "'x world \<Rightarrow> 'x world \<Rightarrow> bool" where
  "same_srv w w' \<longleftrightarrow> srv w' = srv w"

interpretation same_srv: preorder_rel same_srv
  by unfold_locales (auto simp: same_srv_def)

lemma same_srv_onhost [frames]: "keeps same_srv (onhost m)"
  by (rule keepsI) (auto simp: onhost_def same_srv_def split: prod.splits)

definition on_host :: "('x host \<Rightarrow> 'x host \<Rightarrow> bool) \<Rightarrow> 'x world \<Rightarrow> 'x world \<Rightarrow> bool" where
  "on_host R w w' \<longleftrightarrow> R (host w) (host w')"

lemma on_host_onhost: "keeps R m \<Longrightarrow> keeps (on_host R) (onhost m)"
  by (rule keepsI) (auto simp: onhost_def on_host_def split: prod.splits dest: keepsD)

interpretation world_later: preorder_rel "on_host later"
  by unfold_locales (auto simp: on_host_def later_def)

interpretation world_untouched: preorder_rel "on_host (untouched P)" for P
  by unfold_locales (auto simp: on_host_def untouched_def)

definition gets_srv :: "(server \<Rightarrow> 'a) \<Rightarrow> ('x world, 'a) state" where
  "gets_srv f = gets (\<lambda>w. f (srv w))"

definition modify_srv :: "(server \<Rightarrow> server) \<Rightarrow> ('x world, unit) state" where
  "modify_srv f = modify (\<lambda>w. w\<lparr>srv := f (srv w)\<rparr>)"

lemma wp_gets_srv [wp_simps]: "wp (gets_srv f) Q w = Q (f (srv w)) w"
  by (simp add: gets_srv_def wp_gets)

lemma wp_modify_srv [wp_simps]: "wp (modify_srv f) Q w = Q () (w\<lparr>srv := f (srv w)\<rparr>)"
  by (simp add: modify_srv_def wp_modify)

lemma run_gets_srv [simp]: "run_state (gets_srv f) w = (f (srv w), w)"
  by (simp add: gets_srv_def)

lemma run_modify_srv [simp]: "run_state (modify_srv f) w = ((), w\<lparr>srv := f (srv w)\<rparr>)"
  by (simp add: modify_srv_def)

lemma on_host_srv [frames]:
  "keeps (on_host later) (modify_srv f)" "keeps (on_host (untouched P)) (modify_srv f)"
  "keeps (on_host later) (gets_srv g)" "keeps (on_host (untouched P)) (gets_srv g)"
  by (auto intro!: keepsI simp: on_host_def later_def untouched_def)

text \<open>The sandbox at an address, and its update.\<close>

definition sb_at :: "nat \<Rightarrow> ('x world, sandbox) state" where
  "sb_at a = gets_srv (\<lambda>s. heap s ! a)"

definition sb_modify :: "nat \<Rightarrow> (sandbox \<Rightarrow> sandbox) \<Rightarrow> ('x world, unit) state" where
  "sb_modify a f = modify_srv (\<lambda>s. s\<lparr>heap := (heap s)[a := f (heap s ! a)]\<rparr>)"

definition sb_alloc :: "sandbox \<Rightarrow> ('x world, nat) state" where
  "sb_alloc sb = do {
     a \<leftarrow> gets_srv (\<lambda>s. length (heap s));
     modify_srv (\<lambda>s. s\<lparr>heap := heap s @ [sb]\<rparr>);
     return a
   }"

lemma wp_sb [wp_simps]:
  "wp (sb_at a) Q w = Q (heap (srv w) ! a) w"
  "wp (sb_modify a f) Q' w = Q' () (w\<lparr>srv := (srv w)\<lparr>heap := (heap (srv w))[a := f (heap (srv w) ! a)]\<rparr>\<rparr>)"
  "wp (sb_alloc sb) Q'' w = Q'' (length (heap (srv w))) (w\<lparr>srv := (srv w)\<lparr>heap := heap (srv w) @ [sb]\<rparr>\<rparr>)"
  by (simp_all add: sb_at_def sb_modify_def sb_alloc_def wp_simps)

end
