(* ===== verification/Netns.thy ===== *)
theory Netns
  imports Server_Types
begin

text \<open>
  \<open>cmd/server/netns.go\<close>, \<open>netns_util.go\<close> and \<open>iptables.go\<close>: setting up and tearing down the
  network namespace of a sandbox, and the one NAT rule of the server. The netlink and netns
  packages are calls of the environment; the handles they return are numbers.
\<close>

section \<open>Names and addresses\<close>

definition netnsNameForSandbox :: "string \<Rightarrow> string" where
  "netnsNameForSandbox id0 =
    (let sid = TrimSpace id0 in
     if sid = [] then ''manta-unknown''
     else let name = ''manta-'' @ sid in if length name > 63 then take 63 name else name)"

text \<open>The configuration \<open>setupSandboxNetnsAndRouting\<close> works towards and returns.\<close>

definition netns_plan :: "string \<Rightarrow> int \<Rightarrow> netnsConfig" where
  "netns_plan sid subnet =
    \<lparr>NetnsName = netnsNameForSandbox sid, Subnet = subnet, Pooled = False,
     VethHost = ''veth'' @ pad_itoa 3 subnet, VethNS = ''veth0'',
     VethCIDR = ''10.200.'' @ itoa subnet @ ''.0/30'',
     VethHostIP = ''10.200.'' @ itoa subnet @ ''.1'',
     VethNSIP = ''10.200.'' @ itoa subnet @ ''.2'',
     TapName = ''tap0'',
     SubnetCIDR = ''172.16.'' @ itoa subnet @ ''.0/30'',
     HostIP = ''172.16.'' @ itoa subnet @ ''.1'',
     GuestIP = ''172.16.'' @ itoa subnet @ ''.2''\<rparr>"


section \<open>Setting up a namespace\<close>

definition withNetns :: "'x env \<Rightarrow> nat \<Rightarrow> ('x host, goerr option) state \<Rightarrow> ('x host, goerr option) state" where
  "withNetns E target fn = do {
     r \<leftarrow> outside (e_netns_Get E);
     case r of
       Inl e \<Rightarrow> return (Some e)
     | Inr orig \<Rightarrow> do {
         s \<leftarrow> outside (e_netns_Set E target);
         case s of
           Some e \<Rightarrow> do { _ \<leftarrow> outside (e_netns_Close E orig); return (Some e) }
         | None \<Rightarrow> do {
             err \<leftarrow> fn;
             _ \<leftarrow> outside (e_netns_Set E orig);
             _ \<leftarrow> outside (e_netns_Close E orig);
             return err
           }
       }
   }"

text \<open>\<open>AddrAdd\<close> where an address that is already there is not an error.\<close>

definition addr_add :: "'x env \<Rightarrow> nat \<Rightarrow> nat \<Rightarrow> string \<Rightarrow> ('x host, goerr option) state" where
  "addr_add E nl link addr = do {
     err \<leftarrow> outside (e_nl_AddrAdd E nl link addr);
     return (case err of Some e \<Rightarrow> if os_IsExist e then None else Some e | None \<Rightarrow> None)
   }"

text \<open>The closure run inside the namespace: the veth end, forwarding, the default route, the tap.\<close>

definition configure_tap :: "'x env \<Rightarrow> netnsConfig \<Rightarrow> nat \<Rightarrow> ('x host, goerr option) state" where
  "configure_tap E nc nl = do {
     t \<leftarrow> outside (e_nl_AddTap E nl (TapName nc));
     case t of Some e \<Rightarrow> return (Some (wrap ''create tap: '' e)) | None \<Rightarrow> do {
     l \<leftarrow> outside (e_nl_LinkByName E nl (TapName nc));
     case l of Inl e \<Rightarrow> return (Some (wrap ''lookup tap: '' e)) | Inr nsTap \<Rightarrow>
     (case e_nl_ParseAddr E (HostIP nc @ ''/30'') of Inl e \<Rightarrow> return (Some e) | Inr tapAddr \<Rightarrow> do {
     a \<leftarrow> addr_add E nl nsTap tapAddr;
     case a of Some e \<Rightarrow> return (Some (wrap ''assign tap ip: '' e)) | None \<Rightarrow> do {
     u \<leftarrow> outside (e_nl_LinkSetUp E nl nsTap);
     case u of Some e \<Rightarrow> return (Some (wrap ''set tap up: '' e)) | None \<Rightarrow> return None
     }})}
   }"

definition configure_netns :: "'x env \<Rightarrow> netnsConfig \<Rightarrow> ('x host, goerr option) state" where
  "configure_netns E nc = do {
     h \<leftarrow> outside (e_nl_NewHandle E);
     case h of Inl e \<Rightarrow> return (Some (wrap ''netlink netns handle: '' e)) | Inr nl \<Rightarrow> do {
     err \<leftarrow> do {
       l \<leftarrow> outside (e_nl_LinkByName E nl (VethNS nc));
       case l of Inl e \<Rightarrow> return (Some (wrap ''lookup veth in netns: '' e)) | Inr nsVeth \<Rightarrow>
       (case e_nl_ParseAddr E (VethNSIP nc @ ''/30'') of Inl e \<Rightarrow> return (Some e) | Inr addrNS \<Rightarrow> do {
       a \<leftarrow> addr_add E nl nsVeth addrNS;
       case a of Some e \<Rightarrow> return (Some (wrap ''assign veth ns ip: '' e)) | None \<Rightarrow> do {
       u \<leftarrow> outside (e_nl_LinkSetUp E nl nsVeth);
       case u of Some e \<Rightarrow> return (Some (wrap ''set veth ns up: '' e)) | None \<Rightarrow> do {
       w \<leftarrow> os_WriteFile E ''/proc/sys/net/ipv4/ip_forward'' (''1'' @ [CHR 0x0A]);
       case w of Some e \<Rightarrow> return (Some (wrap ''enable ip_forward in netns: '' e)) | None \<Rightarrow>
       (case ParseIP (VethHostIP nc) of
          None \<Rightarrow> return (Some (ErrMsg (''invalid gw ip: '' @ Quote (VethHostIP nc))))
        | Some gw \<Rightarrow> do {
       r \<leftarrow> outside (e_nl_RouteReplace E nl nsVeth None gw);
       case r of Some e \<Rightarrow> return (Some (wrap ''set netns default route: '' e)) | None \<Rightarrow>
         configure_tap E nc nl
       })}}})
     };
     outside (e_nl_Delete E nl);
     return err
     }
   }"

text \<open>
  From the veth pair on. The first failures delete the namespace; those of lines 139 to 229 of
  the source do not. Every failure removes the veth pair (the deferred \<open>cleanupVeth\<close>).
\<close>

definition give_up :: "'x env \<Rightarrow> string \<Rightarrow> goerr \<Rightarrow> ('x host, 'a res) state" where
  "give_up E ns e = do { _ \<leftarrow> outside (e_netns_DeleteNamed E ns); return (Inl e) }"

definition setup_veth :: "'x env \<Rightarrow> netnsConfig \<Rightarrow> nat \<Rightarrow> nat \<Rightarrow> ('x host, netnsConfig res) state" where
  "setup_veth E nc nsHandle root =
    (let ns = NetnsName nc in do {
     p \<leftarrow> outside (e_nl_LinkByName E root (VethNS nc));
     case p of Inl e \<Rightarrow> give_up E ns (wrap ''lookup veth peer: '' e) | Inr peer \<Rightarrow> do {
     m \<leftarrow> outside (e_nl_LinkSetNsFd E root peer nsHandle);
     case m of Some e \<Rightarrow> give_up E ns (wrap ''move veth peer into netns: '' e) | None \<Rightarrow> do {
     v \<leftarrow> outside (e_nl_LinkByName E root (VethHost nc));
     case v of Inl e \<Rightarrow> give_up E ns (wrap ''lookup veth host: '' e) | Inr rootVeth \<Rightarrow>
     (case e_nl_ParseAddr E (VethHostIP nc @ ''/30'') of Inl e \<Rightarrow> give_up E ns e | Inr addrHost \<Rightarrow> do {
     a \<leftarrow> addr_add E root rootVeth addrHost;
     case a of Some e \<Rightarrow> return (Inl (wrap ''assign veth host ip: '' e)) | None \<Rightarrow> do {
     u \<leftarrow> outside (e_nl_LinkSetUp E root rootVeth);
     case u of Some e \<Rightarrow> return (Inl (wrap ''set veth host up: '' e)) | None \<Rightarrow> do {
     c \<leftarrow> withNetns E nsHandle (configure_netns E nc);
     case c of Some e \<Rightarrow> return (Inl e) | None \<Rightarrow>
     (case ParseCIDR (SubnetCIDR nc) of
        None \<Rightarrow> return (Inl (ErrMsg (''invalid CIDR address: '' @ SubnetCIDR nc)))
      | Some (_, dst) \<Rightarrow>
     (case ParseIP (VethNSIP nc) of
        None \<Rightarrow> return (Inl (ErrMsg (''invalid veth ns ip: '' @ Quote (VethNSIP nc))))
      | Some via \<Rightarrow> do {
     r \<leftarrow> outside (e_nl_RouteReplace E root rootVeth (Some dst) via);
     case r of Some e \<Rightarrow> return (Inl (wrap ''add route to guest subnet: '' e)) | None \<Rightarrow> return (Inr nc)
     }))}}})}}
   })"

definition delete_link :: "'x env \<Rightarrow> nat \<Rightarrow> string \<Rightarrow> ('x host, unit) state" where
  "delete_link E nl name = do {
     l \<leftarrow> outside (e_nl_LinkByName E nl name);
     case l of Inl _ \<Rightarrow> return () | Inr link \<Rightarrow> do { _ \<leftarrow> outside (e_nl_LinkDel E nl link); return () }
   }"

definition setup_links :: "'x env \<Rightarrow> netnsConfig \<Rightarrow> nat \<Rightarrow> ('x host, netnsConfig res) state" where
  "setup_links E nc nsHandle = do {
     h \<leftarrow> outside (e_nl_NewHandle E);
     case h of Inl e \<Rightarrow> give_up E (NetnsName nc) (wrap ''netlink root handle: '' e) | Inr root \<Rightarrow> do {
     v \<leftarrow> outside (e_nl_AddVeth E root (VethHost nc) (VethNS nc));
     r \<leftarrow> (case v of
         Some e \<Rightarrow> give_up E (NetnsName nc) (wrap ''create veth pair: '' e)
       | None \<Rightarrow> do {
           r \<leftarrow> setup_veth E nc nsHandle root;
           (case r of Inl _ \<Rightarrow> delete_link E root (VethHost nc) | Inr _ \<Rightarrow> return ());
           return r
         });
     outside (e_nl_Delete E root);
     return r
     }
   }"

definition setupSandboxNetnsAndRouting :: "'x env \<Rightarrow> string \<Rightarrow> int \<Rightarrow> ('x host, netnsConfig res) state" where
  "setupSandboxNetnsAndRouting E sid subnet =
    (let nc = netns_plan sid subnet; ns = NetnsName nc in do {
     g \<leftarrow> outside (e_netns_Get E);
     case g of Inl e \<Rightarrow> return (Inl (wrap ''get current netns: '' e)) | Inr origNS \<Rightarrow> do {
     n \<leftarrow> outside (e_netns_NewNamed E ns);
     case n of
       Inl e \<Rightarrow> do {
         _ \<leftarrow> outside (e_netns_Close E origNS);
         return (Inl (wrap (''create netns '' @ Quote ns @ '': '') e))
       }
     | Inr nsHandle \<Rightarrow> do {
     s \<leftarrow> outside (e_netns_Set E origNS);
     case s of
       Some e \<Rightarrow> do {
         _ \<leftarrow> outside (e_netns_Close E nsHandle);
         _ \<leftarrow> outside (e_netns_Close E origNS);
         return (Inl (wrap ''restore original netns after create: '' e))
       }
     | None \<Rightarrow> do {
         _ \<leftarrow> outside (e_netns_Close E origNS);
         r \<leftarrow> setup_links E nc nsHandle;
         _ \<leftarrow> outside (e_netns_Close E nsHandle);
         return r
       }}}
   })"


section \<open>Tearing it down\<close>

definition cleanupSandboxNetnsAndRouting :: "'x env \<Rightarrow> netnsConfig option \<Rightarrow> ('x host, goerr option) state" where
  "cleanupSandboxNetnsAndRouting E nco =
    (case nco of None \<Rightarrow> return None | Some nc \<Rightarrow> do {
     h \<leftarrow> outside (e_nl_NewHandle E);
     errs1 \<leftarrow> (case h of
         Inr root \<Rightarrow> do {
           (case ParseCIDR (SubnetCIDR nc) of
              None \<Rightarrow> return ()
            | Some (_, dst) \<Rightarrow> do { _ \<leftarrow> outside (e_nl_RouteDel E root dst); return () });
           delete_link E root (VethHost nc);
           outside (e_nl_Delete E root);
           return []
         }
       | Inl e \<Rightarrow> return [''netlink root handle: '' @ Error e]);
     d \<leftarrow> outside (e_netns_DeleteNamed E (NetnsName nc));
     let errs = errs1 @ (case d of None \<Rightarrow> [] | Some e \<Rightarrow> [''remove netns: '' @ Error e]);
     return (if errs \<noteq> [] then Some (ErrMsg (strings_Join errs ''; '')) else None)
   })"


section \<open>The NAT rule\<close>

definition masquerade_args :: "string \<Rightarrow> string \<Rightarrow> string list" where
  "masquerade_args op iface =
    [''-t'', ''nat'', op, ''POSTROUTING'', ''-s'', ''172.16.0.0/16'', ''-o'', iface, ''-j'', ''MASQUERADE'']"

definition ensureGlobalMasquerade :: "'x env \<Rightarrow> string \<Rightarrow> ('x host, goerr option) state" where
  "ensureGlobalMasquerade E hostIface =
    (if TrimSpace hostIface = [] then return (Some (ErrMsg ''host iface is empty''))
     else do {
       (_, _, err) \<leftarrow> runCmd E ''iptables'' (masquerade_args ''-C'' hostIface);
       case err of
         None \<Rightarrow> return None
       | Some _ \<Rightarrow> do {
           (_, _, aerr) \<leftarrow> runCmd E ''iptables'' (masquerade_args ''-A'' hostIface);
           case aerr of
             Some e \<Rightarrow> return (Some (wrap ''add global MASQUERADE rule: '' e))
           | None \<Rightarrow> return None
         }
     })"


section \<open>Addresses of a subnet\<close>

lemma digit_values: "digit 0 = CHR ''0''" "digit 1 = CHR ''1''" "digit (Suc 0) = CHR ''1''" "digit 2 = CHR ''2''" "digit 6 = CHR ''6''"
    "digit 7 = CHR ''7''"
  by (simp_all add: digit_def char_of_def bit_iff_odd)

lemma utoa_values: "utoa 1 = ''1''" "utoa (Suc 0) = ''1''" "utoa 2 = ''2''" "utoa 0 = ''0''" "utoa 10 = ''10''" "utoa 16 = ''16''" "utoa 172 = ''172''" "utoa 200 = ''200''"
  by (simp_all add: utoa.simps digit_values)

lemma netns_plan_dotted:
  "VethHostIP (netns_plan sid (int n)) = dotted 10 200 n 1"
  "VethNSIP (netns_plan sid (int n)) = dotted 10 200 n 2"
  "HostIP (netns_plan sid (int n)) = dotted 172 16 n 1"
  "GuestIP (netns_plan sid (int n)) = dotted 172 16 n 2"
  "SubnetCIDR (netns_plan sid (int n)) = dotted 172 16 n 0 @ ''/30''"
  "VethCIDR (netns_plan sid (int n)) = dotted 10 200 n 0 @ ''/30''"
  by (simp_all add: netns_plan_def dotted_def utoa_values itoa_of_nat)

text \<open>The first address of the guest network of a subnet.\<close>

definition guest_net :: "nat \<Rightarrow> nat" where
  "guest_net n = 172 * 2 ^ 24 + 16 * 2 ^ 16 + n * 2 ^ 8"

lemma setup_veth_result:
  "wp (setup_veth E nc nsHandle root) (\<lambda>r _. \<forall>nc'. r = Inr nc' \<longrightarrow> nc' = nc \<and> ParseCIDR (SubnetCIDR nc) \<noteq> None) h"
  unfolding setup_veth_def give_up_def Let_def
  by (auto simp: wp_simps outside_def addr_add_def wp_all [of "withNetns _ _ _"] split: option.splits)

lemma setup_result:
  "wp (setupSandboxNetnsAndRouting E sid subnet) (\<lambda>r _. \<forall>nc. r = Inr nc \<longrightarrow>
      nc = netns_plan sid subnet \<and> ParseCIDR (SubnetCIDR nc) \<noteq> None) h"
proof -
  have veth: "nc' = nc \<and> ParseCIDR (SubnetCIDR nc) \<noteq> None"
    if "run_state (setup_veth E nc a b) h = (Inr nc', h')" for nc nc' a b h h'
    using wp_run [OF setup_veth_result that] by simp
  have links: "nc' = nc \<and> ParseCIDR (SubnetCIDR nc) \<noteq> None"
    if "run_state (setup_links E nc a) h = (Inr nc', h')" for nc nc' a h h'
    using that unfolding setup_links_def give_up_def
    by (auto simp: outside_def run_simps split: sum.splits option.splits prod.splits dest: veth)
  show ?thesis
    unfolding setupSandboxNetnsAndRouting_def Let_def
    by (auto simp: wp_simps outside_def wp_all [of "setup_links _ _ _"] dest: links)
qed

section \<open>Frames\<close>

lemmas netns_defs = setupSandboxNetnsAndRouting_def setup_links_def setup_veth_def give_up_def delete_link_def
  withNetns_def configure_netns_def configure_tap_def addr_add_def

lemma later_setup [clock_monos]:
  "keeps later (setupSandboxNetnsAndRouting E sid subnet)" "keeps later (cleanupSandboxNetnsAndRouting E nc)"
  unfolding netns_defs cleanupSandboxNetnsAndRouting_def Let_def
  by (intro later.keeps_rules clock_monos)+

abbreviation ip_forward_file :: string where
  "ip_forward_file \<equiv> ''/proc/sys/net/ipv4/ip_forward''"

lemma untouched_setup [frames]:
  "\<not> P ip_forward_file \<Longrightarrow> keeps (untouched P) (setupSandboxNetnsAndRouting E sid subnet)"
  "keeps (untouched P) (cleanupSandboxNetnsAndRouting E nc)"
  unfolding netns_defs cleanupSandboxNetnsAndRouting_def Let_def
  by (intro untouched.keeps_rules frames; assumption)+


section \<open>Properties\<close>

text \<open>
  C28: When \<open>setupSandboxNetnsAndRouting\<close> succeeds, on any host, the subnet number is at most 255
  and the returned addresses are the ones the guest needs: the network is the \<open>/30\<close> of that
  subnet, the tap has its first and the guest its second address. In particular every subnet
  number above 255 makes the setup fail.
\<close>

theorem setup_success_addresses:
  assumes "run_state (setupSandboxNetnsAndRouting E sid (int n)) h = (Inr nc, h')"
  shows "nc = netns_plan sid (int n) \<and> n \<le> 255 \<and>
    ParseCIDR (SubnetCIDR nc) = Some (guest_net n, guest_net n, 30) \<and>
    ParseIP (HostIP nc) = Some (IPv4 (guest_net n + 1)) \<and>
    ParseIP (GuestIP nc) = Some (IPv4 (guest_net n + 2))"
proof -
  have nc: "nc = netns_plan sid (int n)" and ok: "ParseCIDR (SubnetCIDR nc) \<noteq> None"
    using wp_run [OF setup_result assms] by blast+
  from ok have n: "n \<le> 255"
    unfolding nc netns_plan_dotted ParseCIDR_dotted parse_ipv4_dotted by (simp split: if_splits)
  moreover have "(guest_net n) div 4 * 4 = guest_net n"
    by (simp add: guest_net_def)
  ultimately show ?thesis
    unfolding nc netns_plan_dotted ParseCIDR_dotted ParseIP_dotted parse_ipv4_dotted
    by (simp add: guest_net_def)
qed

text \<open>The calm environment with any answers on connections: every set-up works.\<close>

lemma setup_calm_any:
  assumes "n \<le> 255"
  shows "run_state (setupSandboxNetnsAndRouting (calm_env\<lparr>e_ReadFull := rd\<rparr>) sid (int n)) h =
    (Inr (netns_plan sid (int n)), h\<lparr>ticks := Suc (ticks h)\<rparr>)"
  using assms
  unfolding setupSandboxNetnsAndRouting_def setup_links_def setup_veth_def withNetns_def configure_netns_def
    configure_tap_def netns_plan_dotted ParseCIDR_dotted ParseIP_dotted parse_ipv4_dotted Let_def
  by (simp add: run_defs calm_env_def addr_add_def os_WriteFile_def sys_fs_def below_def err_of_def)

theorem setup_success_addresses_witness:
  "ParseIP (GuestIP (netns_plan ''sb-1'' (int 5))) = Some (IPv4 (guest_net 5 + 2))"
  using setup_success_addresses [OF setup_calm_any [of 5 "e_ReadFull calm_env"]] by simp

text \<open>The addresses of a network written as a CIDR, and that an address is one of them.\<close>

definition network :: "string \<Rightarrow> nat set" where
  "network cidr = (case ParseCIDR cidr of None \<Rightarrow> {} | Some (_, base, len) \<Rightarrow> {base ..< base + 2 ^ (32 - len)})"

definition in_network :: "string \<Rightarrow> string \<Rightarrow> bool" where
  "in_network addr cidr \<longleftrightarrow> (\<exists>v \<in> network cidr. ParseIP addr = Some (IPv4 v))"

lemma network_dotted:
  "a \<le> 255 \<Longrightarrow> b \<le> 255 \<Longrightarrow> c \<le> 255 \<Longrightarrow> network (dotted a b c 0 @ ''/30'') =
    {a * 2 ^ 24 + b * 2 ^ 16 + c * 2 ^ 8 ..< a * 2 ^ 24 + b * 2 ^ 16 + c * 2 ^ 8 + 4}"
  unfolding network_def ParseCIDR_dotted parse_ipv4_dotted by (simp add: mult.commute)

lemma setup_networks:
  assumes "run_state (setupSandboxNetnsAndRouting E sid (int n)) h = (Inr nc, h')"
  shows "nc = netns_plan sid (int n)" "n \<le> 255"
    "network (SubnetCIDR nc) = {guest_net n ..< guest_net n + 4}"
    "network (VethCIDR nc) = {10 * 2 ^ 24 + 200 * 2 ^ 16 + n * 2 ^ 8 ..< 10 * 2 ^ 24 + 200 * 2 ^ 16 + n * 2 ^ 8 + 4}"
proof -
  show nc: "nc = netns_plan sid (int n)" using wp_run [OF setup_result assms] by blast
  have "ParseCIDR (SubnetCIDR nc) \<noteq> None" using wp_run [OF setup_result assms] by blast
  then show n: "n \<le> 255"
    unfolding nc netns_plan_dotted ParseCIDR_dotted parse_ipv4_dotted by (simp split: if_splits)
  show "network (SubnetCIDR nc) = {guest_net n ..< guest_net n + 4}"
    "network (VethCIDR nc) = {10 * 2 ^ 24 + 200 * 2 ^ 16 + n * 2 ^ 8 ..< 10 * 2 ^ 24 + 200 * 2 ^ 16 + n * 2 ^ 8 + 4}"
    unfolding nc netns_plan_dotted using network_dotted [of 172 16 n] network_dotted [of 10 200 n] n
    by (simp_all add: guest_net_def)
qed

text \<open>
  C29: Two namespaces that were set up successfully for different subnets, on whatever hosts, have
  disjoint networks: no address belongs to the guest networks of both, to the link networks of
  both, or to the guest network of one and the link network of the other. The addresses each of
  them uses, on the tap, in the guest and at both ends of the link, lie in its own networks. And
  their interfaces on the host have different names.
\<close>

theorem netns_plans_disjoint:
  assumes "run_state (setupSandboxNetnsAndRouting E s (int m)) h = (Inr a, h')"
    and "run_state (setupSandboxNetnsAndRouting F t (int n)) g = (Inr b, g')" and "m \<noteq> n"
  shows "network (SubnetCIDR a) \<inter> network (SubnetCIDR b) = {} \<and> network (VethCIDR a) \<inter> network (VethCIDR b) = {} \<and>
    network (SubnetCIDR a) \<inter> network (VethCIDR b) = {} \<and>
    in_network (HostIP a) (SubnetCIDR a) \<and> in_network (GuestIP a) (SubnetCIDR a) \<and>
    in_network (VethHostIP a) (VethCIDR a) \<and> in_network (VethNSIP a) (VethCIDR a) \<and>
    VethHost a \<noteq> VethHost b"
proof -
  note a = setup_networks [OF assms(1)] and b = setup_networks [OF assms(2)]
  have "\<not> (n * 256 < 4 + m * 256 \<and> m * 256 < 4 + n * 256)" using assms(3) by presburger
  then have "network (SubnetCIDR a) \<inter> network (SubnetCIDR b) = {}" "network (VethCIDR a) \<inter> network (VethCIDR b) = {}"
    by (auto simp: a(3,4) b(3,4) guest_net_def)
  moreover have "network (SubnetCIDR a) \<inter> network (VethCIDR b) = {}"
    using b(2) by (auto simp: a(3) b(4) guest_net_def)
  moreover have "in_network (HostIP a) (SubnetCIDR a)" "in_network (GuestIP a) (SubnetCIDR a)"
    "in_network (VethHostIP a) (VethCIDR a)" "in_network (VethNSIP a) (VethCIDR a)"
    unfolding in_network_def a(3,4) using a(2)
    by (simp_all add: a(1) netns_plan_dotted ParseIP_dotted parse_ipv4_dotted guest_net_def)
  moreover have "VethHost a \<noteq> VethHost b"
    using assms(3) by (simp add: a(1) b(1) netns_plan_def pad_itoa_inj)
  ultimately show ?thesis by blast
qed

theorem netns_plans_disjoint_witness:
  "network (SubnetCIDR (netns_plan ''sb-1'' (int 1))) \<inter> network (SubnetCIDR (netns_plan ''sb-2'' (int 2))) = {}"
  using netns_plans_disjoint [OF setup_calm_any [of 1 "e_ReadFull calm_env"] setup_calm_any [of 2 "e_ReadFull calm_env"]]
  by simp

text \<open>
  A namespace name always fits the 63 bytes the comment allows, starts with \<open>manta-\<close>, and two
  sandboxes with short identifiers of printable characters never share one.
\<close>

theorem netns_names:
  "length (netnsNameForSandbox s) \<le> 63 \<and> HasPrefix (netnsNameForSandbox s) ''manta-'' \<and>
   (list_all printable s \<and> list_all printable t \<and> s \<noteq> [] \<and> t \<noteq> [] \<and> length s \<le> 57 \<and> length t \<le> 57 \<and>
     netnsNameForSandbox s = netnsNameForSandbox t \<longrightarrow> s = t)"
proof -
  have trim: "TrimSpace u = u" if "list_all printable u" "u \<noteq> []" for u
    using that by (intro TrimSpace_printable) (auto simp: list_all_iff)
  have "HasPrefix (netnsNameForSandbox s) ''manta-''"
    by (simp add: netnsNameForSandbox_def HasPrefix_def Let_def)
  moreover have "length (netnsNameForSandbox s) \<le> 63"
    by (simp add: netnsNameForSandbox_def Let_def)
  moreover have "s = t" if "list_all printable s" "list_all printable t" "s \<noteq> []" "t \<noteq> []" "length s \<le> 57" "length t \<le> 57"
      "netnsNameForSandbox s = netnsNameForSandbox t"
    using that by (simp add: netnsNameForSandbox_def trim)
  ultimately show ?thesis by blast
qed

theorem netns_names_witness: "netnsNameForSandbox ''sb-1'' \<noteq> netnsNameForSandbox ''sb-2''"
proof -
  have "list_all printable ''sb-1''" "list_all printable ''sb-2''"
    by (simp_all add: printable_def less_char_def)
  then show ?thesis using netns_names [of "''sb-1''" "''sb-2''"] by auto
qed

text \<open>
  Installing the NAT rule is idempotent: when \<open>iptables -C\<close> reports whether the rule is
  there and \<open>-A\<close> appends it, a successful \<open>ensureGlobalMasquerade\<close> leaves the rule installed,
  and does not add a second copy when it was there before.
\<close>

theorem ensureGlobalMasquerade_idempotent:
  assumes check: "\<And>i f x. \<exists>out se d. e_Run E ''iptables'' (masquerade_args ''-C'' i) f x
      = ((out, se, if i \<in> set (rules x) then None else Some (ExitError 1 ''exit status 1'')), d, f, x)"
    and add: "\<And>i f x r d f' x'. e_Run E ''iptables'' (masquerade_args ''-A'' i) f x = (r, d, f', x') \<Longrightarrow>
      rules x' = (if snd (snd r) = None then rules x @ [i] else rules x)"
    and run: "run_state (ensureGlobalMasquerade E iface) h = (None, h')"
  shows "iface \<in> set (rules (ext h')) \<and> (iface \<in> set (rules (ext h)) \<longrightarrow> rules (ext h') = rules (ext h))"
proof -
  obtain out se d where c: "e_Run E ''iptables'' (masquerade_args ''-C'' iface) (fs h) (ext h)
      = ((out, se, if iface \<in> set (rules (ext h)) then None else Some (ExitError 1 ''exit status 1'')), d, fs h, ext h)"
    using check by blast
  show ?thesis
  proof (cases "iface \<in> set (rules (ext h))")
    case True
    with c run show ?thesis
      by (auto simp: ensureGlobalMasquerade_def runCmd_def outside_fs_def split: if_splits)
  next
    case False
    obtain r d' f' x' where a: "e_Run E ''iptables'' (masquerade_args ''-A'' iface) (fs h) (ext h) = (r, d', f', x')"
      by (metis prod_cases4)
    obtain o1 o2 er where r: "r = (o1, o2, er)" by (cases r)
    have "er = None \<and> ext h' = x'"
      using run c False a r
      by (cases er) (auto simp: ensureGlobalMasquerade_def runCmd_def outside_fs_def split: if_splits)
    with add [OF a] r False show ?thesis by simp
  qed
qed

definition demo_iptables :: "string list env" where
  "demo_iptables = calm_env\<lparr>e_Run := \<lambda>name args f x.
     if args ! 2 = ''-C''
     then (([], [], if args ! 7 \<in> set x then None else Some (ExitError 1 ''exit status 1'')), 0, f, x)
     else (([], [], None), 0, f, x @ [args ! 7])\<rparr>"

lemma demo_masquerade:
  "run_state (ensureGlobalMasquerade demo_iptables ''eth0'') (blank_host [])
     = (None, (blank_host [])\<lparr>ext := [''eth0'']\<rparr>)"
  using TrimSpace_printable [of "''eth0''"]
  by (simp add: ensureGlobalMasquerade_def runCmd_def outside_fs_def demo_iptables_def calm_env_def masquerade_args_def
      blank_host_def printable_def less_char_def)

theorem ensureGlobalMasquerade_idempotent_witness:
  "''eth0'' \<in> set (ext (snd (run_state (ensureGlobalMasquerade demo_iptables ''eth0'') (blank_host []))))"
proof -
  have "''eth0'' \<in> set ((\<lambda>x. x) (ext ((blank_host [])\<lparr>ext := [''eth0'']\<rparr>)))"
    by (rule ensureGlobalMasquerade_idempotent [OF _ _ demo_masquerade, THEN conjunct1])
       (auto simp: demo_iptables_def masquerade_args_def)
  then show ?thesis by (simp add: demo_masquerade)
qed

definition named_env :: "string list env" where
  "named_env = calm_env\<lparr>e_netns_NewNamed := \<lambda>n x. (Inr 2, 0, n # x),
     e_netns_DeleteNamed := \<lambda>n x. (None, 0, filter (\<lambda>m. m \<noteq> n) x)\<rparr>"

text \<open>
  The setup leaks the namespace on its later failures: on a host where the kernel refuses to
  assign an address, \<open>setupSandboxNetnsAndRouting\<close> fails and the namespace it created stays
  behind, whereas a refused veth pair leaves nothing.
\<close>

theorem setup_leaks_namespace:
  "(\<exists>e h'. run_state (setupSandboxNetnsAndRouting
        (named_env\<lparr>e_nl_AddrAdd := \<lambda>_ _ _ x. (Some (Errno EPERM), 0, x)\<rparr>) ''sb-1'' 5) (blank_host []) = (Inl e, h') \<and>
      ext h' = [netnsNameForSandbox ''sb-1'']) \<and>
   (\<exists>e h'. run_state (setupSandboxNetnsAndRouting
        (named_env\<lparr>e_nl_AddVeth := \<lambda>_ _ _ x. (Some (Errno EPERM), 0, x)\<rparr>) ''sb-1'' 5) (blank_host []) = (Inl e, h') \<and>
      ext h' = [])"
  unfolding setupSandboxNetnsAndRouting_def setup_links_def setup_veth_def Let_def
  by (simp add: run_defs named_env_def calm_env_def addr_add_def give_up_def delete_link_def blank_host_def)
     (simp add: netns_plan_def)

end
