(* ===== verification/Cgroup.thy ===== *)
theory Cgroup
  imports Server_Types
begin

text \<open>
  \<open>cmd/server/cgroup.go\<close>: killing and removing cgroups through the kernel's cgroup file system,
  and clearing those a crashed server left behind.
\<close>

definition ensureCgroupRoot :: "'x env \<Rightarrow> string \<Rightarrow> ('x host, goerr option) state" where
  "ensureCgroupRoot E root = do {
     s \<leftarrow> os_Stat E ''/sys/fs/cgroup/cgroup.controllers'';
     case s of
       Some e \<Rightarrow> return (Some (wrap ''cgroup v2 not available at /sys/fs/cgroup: '' e))
     | None \<Rightarrow> do {
         m \<leftarrow> os_MkdirAll E root;
         case m of
           Some e \<Rightarrow> return (Some (wrap (''create cgroup root '' @ Quote root @ '': '') e))
         | None \<Rightarrow> return None
       }
   }"

definition killCgroup :: "'x env \<Rightarrow> string \<Rightarrow> ('x host, goerr option) state" where
  "killCgroup E cgroupPath =
    (if TrimSpace cgroupPath = [] then return None
     else let killFile = Join [cgroupPath, ''cgroup.kill''] in do {
       s \<leftarrow> os_Stat E killFile;
       case s of
         Some e \<Rightarrow> return (Some (wrap (''cgroup.kill missing for '' @ Quote cgroupPath @ '': '') e))
       | None \<Rightarrow> do {
           w \<leftarrow> os_WriteFile E killFile (''1'' @ [CHR 0x0A]);
           case w of
             Some e \<Rightarrow> return (Some (wrap (''write cgroup.kill for '' @ Quote cgroupPath @ '': '') e))
           | None \<Rightarrow> return None
         }
     })"

text \<open>The retry loop of \<open>removeCgroupDir\<close>.\<close>

function remove_loop :: "'x env \<Rightarrow> string \<Rightarrow> int \<Rightarrow> 'x host \<Rightarrow> goerr option \<times> 'x host" where
  "remove_loop E cgroupPath deadline h =
    (case run_state (os_Remove E cgroupPath) h of
       (None, h1) \<Rightarrow> (None, h1)
     | (Some err, h1) \<Rightarrow>
       if errors_Is err ENOENT then (None, h1)
       else if errors_Is err EBUSY \<or> errors_Is err ENOTEMPTY then
         (case run_state (time_Now E) h1 of (t, h2) \<Rightarrow>
            if t > deadline then (Some err, h2)
            else remove_loop E cgroupPath deadline (snd (run_state (time_Sleep E (50 * Millisecond)) h2)))
       else (Some err, h1))"
  by pat_completeness auto
termination
  by (relation "measure (\<lambda>(E, c, deadline, h). time_left deadline h)")
     (auto elim!: retry_round [OF keepsD [OF later_os(4) sym] sym _ prod.collapse [symmetric]])

declare remove_loop.simps [simp del]

definition removeCgroupDir :: "'x env \<Rightarrow> string \<Rightarrow> int \<Rightarrow> ('x host, goerr option) state" where
  "removeCgroupDir E cgroupPath timeout =
    (if TrimSpace cgroupPath = [] then return None
     else do {
       now \<leftarrow> time_Now E;
       State (remove_loop E cgroupPath (now + timeout))
     })"

definition movePidToCgroup :: "'x env \<Rightarrow> string \<Rightarrow> nat \<Rightarrow> ('x host, goerr option) state" where
  "movePidToCgroup E cgroupPath pid =
    (let procsFile = Join [cgroupPath, ''cgroup.procs''] in do {
       s \<leftarrow> os_Stat E procsFile;
       case s of
         Some e \<Rightarrow> return (Some (wrap (''cgroup.procs missing for '' @ Quote cgroupPath @ '': '') e))
       | None \<Rightarrow> do {
           w \<leftarrow> os_WriteFile E procsFile (utoa pid @ [CHR 0x0A]);
           case w of
             Some e \<Rightarrow> return (Some (wrap (''write cgroup.procs for '' @ Quote cgroupPath @ '': '') e))
           | None \<Rightarrow> return None
         }
     })"

fun scavenge_each :: "'x env \<Rightarrow> string \<Rightarrow> (string \<times> bool) list \<Rightarrow> ('x host, unit) state" where
  "scavenge_each E root [] = return ()"
| "scavenge_each E root ((name, isDir) # es) =
    (if \<not> isDir then scavenge_each E root es
     else let cg = Join [root, name] in do {
       _ \<leftarrow> killCgroup E cg;
       _ \<leftarrow> removeCgroupDir E cg (1500 * Millisecond);
       scavenge_each E root es
     })"

definition scavengeCgroups :: "'x env \<Rightarrow> string \<Rightarrow> ('x host, unit) state" where
  "scavengeCgroups E root = do {
     r \<leftarrow> os_ReadDir E root;
     case r of Inl _ \<Rightarrow> return () | Inr entries \<Rightarrow> scavenge_each E root entries
   }"

end
