(* ===== verification/Firecracker.thy ===== *)
theory Firecracker
  imports Server_Types Go_Json_Struct
begin

text \<open>
  \<open>cmd/server/firecracker_api.go\<close> and \<open>vm_config.go\<close>: the client of Firecracker's HTTP API on its
  Unix socket, and the configuration file a fresh VM is started with. Firecracker itself, which
  answers the requests and writes snapshot files, is the \<open>Do\<close> call of the environment.
\<close>

section \<open>API client\<close>

record fcClient =
  fc_socketPath :: string
  fc_timeout :: int

definition newFCClient :: "string \<Rightarrow> int \<Rightarrow> fcClient" where
  "newFCClient sock timeout = \<lparr>fc_socketPath = sock, fc_timeout = (if timeout \<le> 0 then 5 * Second else timeout)\<rparr>"

definition doJSON :: "'x env \<Rightarrow> fcClient \<Rightarrow> string \<Rightarrow> string \<Rightarrow> json option \<Rightarrow> ('x host, goerr option) state" where
  "doJSON E c verb path payload = do {
     r \<leftarrow> outside_fs (e_Do E (fc_socketPath c) (fc_timeout c) verb path (map_option Marshal payload));
     case r of
       Inl e \<Rightarrow> return (Some e)
     | Inr (statusCode, raw) \<Rightarrow>
       if statusCode < 200 \<or> statusCode \<ge> 300 then
         (let msg = TrimSpace raw in
          if msg = [] then return (Some (ErrMsg (''firecracker '' @ verb @ '' '' @ path @ '': status '' @ itoa statusCode)))
          else return (Some (ErrMsg (''firecracker '' @ verb @ '' '' @ path @ '': status '' @ itoa statusCode @ '' body='' @ Quote msg))))
       else return None
   }"

text \<open>Go prints the keys of a map in sorted order.\<close>

definition state_payload :: "string \<Rightarrow> json" where
  "state_payload v = JObj [(''state'', JStr v)]"

definition pauseVM :: "'x env \<Rightarrow> fcClient \<Rightarrow> ('x host, goerr option) state" where
  "pauseVM E c = doJSON E c ''PATCH'' ''/vm'' (Some (state_payload ''Paused''))"

definition resumeVM :: "'x env \<Rightarrow> fcClient \<Rightarrow> ('x host, goerr option) state" where
  "resumeVM E c = doJSON E c ''PATCH'' ''/vm'' (Some (state_payload ''Resumed''))"

definition createFullSnapshot :: "'x env \<Rightarrow> fcClient \<Rightarrow> string \<Rightarrow> string \<Rightarrow> ('x host, goerr option) state" where
  "createFullSnapshot E c statePath memPath = doJSON E c ''PUT'' ''/snapshot/create''
     (Some (JObj [(''mem_file_path'', JStr memPath), (''snapshot_path'', JStr statePath), (''snapshot_type'', JStr ''Full'')]))"

definition loadSnapshot :: "'x env \<Rightarrow> fcClient \<Rightarrow> string \<Rightarrow> string \<Rightarrow> bool \<Rightarrow> ('x host, goerr option) state" where
  "loadSnapshot E c statePath memPath resume = doJSON E c ''PUT'' ''/snapshot/load''
     (Some (JObj [(''mem_backend'', JObj [(''backend_path'', JStr memPath), (''backend_type'', JStr ''File'')]),
                  (''resume_vm'', JBool resume), (''snapshot_path'', JStr statePath)]))"

lemma later_fc [clock_monos]:
  "keeps later (doJSON E c verb path payload)" "keeps later (pauseVM E c)" "keeps later (resumeVM E c)"
  "keeps later (createFullSnapshot E c sp mp)" "keeps later (loadSnapshot E c sp mp b)"
  unfolding pauseVM_def resumeVM_def createFullSnapshot_def loadSnapshot_def doJSON_def
  by (intro later.keeps_rules clock_monos)+


section \<open>VM configuration\<close>

text \<open>\<open>(subnet>>8)\&0xFF\<close> and \<open>subnet\&0xFF\<close> of a non-negative \<open>int\<close>.\<close>

definition guestMAC :: "int \<Rightarrow> string" where
  "guestMAC subnet = ''06:00:AC:10:'' @ hex2 (nat (subnet div 256 mod 256)) @ '':'' @ hex2 (nat (subnet mod 256))"

definition vmConfig :: "config \<Rightarrow> string \<Rightarrow> string \<Rightarrow> int \<Rightarrow> string \<Rightarrow> 32 word \<Rightarrow> json" where
  "vmConfig cfg tapDevice rootfsPath subnet vsockPath guestCID = JObj
    [(''boot-source'', JObj [(''kernel_image_path'', JStr (KernelPath cfg)), (''boot_args'', JStr (BootArgs cfg))]),
     (''drives'', JArr [JObj [(''drive_id'', JStr ''rootfs''), (''path_on_host'', JStr rootfsPath),
        (''is_root_device'', JBool True), (''is_read_only'', JBool False)]]),
     (''machine-config'', JObj [(''vcpu_count'', JNum (itoa (DefaultVCPU cfg))), (''mem_size_mib'', JNum (itoa (DefaultMemMiB cfg)))]),
     (''network-interfaces'', JArr [JObj [(''iface_id'', JStr ''eth0''), (''guest_mac'', JStr (guestMAC subnet)),
        (''host_dev_name'', JStr tapDevice)]]),
     (''vsock'', JObj [(''guest_cid'', JNum (itoa (uint guestCID))), (''uds_path'', JStr vsockPath)])]"

definition writeVMConfig ::
  "'x env \<Rightarrow> string \<Rightarrow> config \<Rightarrow> string \<Rightarrow> string \<Rightarrow> int \<Rightarrow> string \<Rightarrow> 32 word \<Rightarrow> ('x host, goerr option) state" where
  "writeVMConfig E configPath cfg tapDevice rootfsPath subnet vsockPath guestCID =
    os_WriteFile E configPath
      (MarshalIndent (vmConfig cfg tapDevice rootfsPath subnet vsockPath guestCID) @ [CHR 0x0A])"

lemma later_writeVMConfig [clock_monos]: "keeps later (writeVMConfig E p cfg t r n v c)"
  unfolding writeVMConfig_def by (intro clock_monos)

lemma untouched_writeVMConfig [frames]: "\<not> P p \<Longrightarrow> keeps (untouched P) (writeVMConfig E p cfg t r n v c)"
  unfolding writeVMConfig_def by (intro frames)

end
