(* ===== verification/Agent_Client.thy ===== *)
theory Agent_Client
  imports Server_Types Agentrpc
begin

text \<open>
  \<open>cmd/server/agent.go\<close> and \<open>ReadLine\<close> of \<open>agentrpc.go\<close>: the host's connection to the agent of a
  sandbox, through Firecracker's vsock socket. A connection is the number the environment's
  \<open>Dial\<close> returns.
\<close>

definition ReadLine :: "'x env \<Rightarrow> nat \<Rightarrow> int \<Rightarrow> ('x host, string res) state" where
  "ReadLine E c timeout0 =
    (let timeout = (if timeout0 \<le> 0 then 5 * Second else timeout0) in do {
     r \<leftarrow> outside (e_ReadString E c timeout);
     case r of
       Some res \<Rightarrow> return res
     | None \<Rightarrow> return (Inl (ErrMsg (''agentrpc: timed out reading line after '' @ Duration_String timeout)))
   })"

definition connect_line :: "int \<Rightarrow> string" where
  "connect_line port = ''CONNECT '' @ itoa port @ [CHR 0x0A]"

definition dialAgent :: "'x env \<Rightarrow> string \<Rightarrow> int \<Rightarrow> int \<Rightarrow> ('x host, nat res) state" where
  "dialAgent E udsPath port timeout0 =
    (if TrimSpace udsPath = [] then return (Inl (ErrMsg ''agent uds path is empty''))
     else if port \<le> 0 \<or> port > 65535 then return (Inl (ErrMsg (''invalid agent port: '' @ itoa port)))
     else let timeout = (if timeout0 \<le> 0 then 2 * Second else timeout0) in do {
       d \<leftarrow> outside (e_Dial E udsPath timeout);
       case d of Inl e \<Rightarrow> return (Inl e) | Inr c \<Rightarrow> do {
       now \<leftarrow> time_Now E;
       outside (e_SetDeadline E c (Some (now + timeout)));
       w \<leftarrow> outside (e_Write E c (connect_line port));
       case w of Some e \<Rightarrow> do { _ \<leftarrow> outside (e_Close E c); return (Inl e) } | None \<Rightarrow> do {
       l \<leftarrow> ReadLine E c timeout;
       case l of Inl e \<Rightarrow> do { _ \<leftarrow> outside (e_Close E c); return (Inl e) } | Inr line \<Rightarrow>
       if \<not> HasPrefix line ''OK '' \<and> TrimSpace line \<noteq> ''OK'' then do {
         _ \<leftarrow> outside (e_Close E c);
         return (Inl (ErrMsg (''vsock CONNECT failed: '' @ Quote (TrimSpace line))))
       } else do {
         outside (e_SetDeadline E c None);
         return (Inr c)
       }}}
     })"

definition agent_Close :: "'x env \<Rightarrow> nat option \<Rightarrow> ('x host, goerr option) state" where
  "agent_Close E aco = (case aco of None \<Rightarrow> return None | Some c \<Rightarrow> outside (e_Close E c))"

definition Call :: "'x env \<Rightarrow> nat \<Rightarrow> Request \<Rightarrow> int \<Rightarrow> ('x host, Response res) state" where
  "Call E c req timeout0 =
    (let timeout = (if timeout0 \<le> 0 then 20 * Second else timeout0) in do {
     now \<leftarrow> time_Now E;
     outside (e_SetDeadline E c (Some (now + timeout)));
     w \<leftarrow> WriteMessage (\<lambda>b. outside (e_Write E c b)) (json_Request req);
     r \<leftarrow> (case w of
         Some e \<Rightarrow> return (Inl e)
       | None \<Rightarrow> do {
           m \<leftarrow> ReadMessage (\<lambda>n. outside (e_ReadFull E c n)) (dec_Response True) zero_Response;
           case m of
             Inl e \<Rightarrow> return (Inl e)
           | Inr resp \<Rightarrow>
             if \<not> rs_OK resp then
               (if TrimSpace (rs_Error resp) \<noteq> [] then return (Inl (ErrMsg (rs_Error resp)))
                else return (Inl (ErrMsg ''agent returned ok=false'')))
             else return (Inr resp)
         });
     outside (e_SetDeadline E c None);
     return r
   })"

text \<open>The clock never goes back in these operations, so the loop below ends.\<close>

context preorder_rel
begin

lemma keeps_WriteMessage: "(\<And>b. keeps R (wr b)) \<Longrightarrow> keeps R (WriteMessage wr v)"
  unfolding WriteMessage_def by (intro keeps_rules)

lemma keeps_ReadMessage: "(\<And>n. keeps R (rd n)) \<Longrightarrow> keeps R (ReadMessage rd dec zero)"
  unfolding ReadMessage_def by (intro keeps_rules)

end

lemma later_Call [clock_monos]: "keeps later (Call E c req t)"
  unfolding Call_def
  by (intro later.keeps_rules later.keeps_WriteMessage later.keeps_ReadMessage clock_monos)

lemma later_dialAgent [clock_monos]: "keeps later (dialAgent E udsPath port t)"
  unfolding dialAgent_def ReadLine_def by (intro later.keeps_rules clock_monos)

lemma later_agent_Close [clock_monos]: "keeps later (agent_Close E c)"
  unfolding agent_Close_def by (intro later.keeps_rules clock_monos)

definition ping_request :: Request where
  "ping_request = zero_Request\<lparr>rq_Type := ''ping''\<rparr>"

text \<open>One round of \<open>waitForAgentReady\<close>: dial, then ping.\<close>

definition try_agent :: "'x env \<Rightarrow> string \<Rightarrow> int \<Rightarrow> int \<Rightarrow> ('x host, nat res) state" where
  "try_agent E udsPath port dialTimeout = do {
     d \<leftarrow> dialAgent E udsPath port dialTimeout;
     case d of
       Inl e \<Rightarrow> return (Inl e)
     | Inr ac \<Rightarrow> do {
         p \<leftarrow> Call E ac ping_request (2 * Second);
         case p of
           Inr _ \<Rightarrow> return (Inr ac)
         | Inl perr \<Rightarrow> do { _ \<leftarrow> agent_Close E (Some ac); return (Inl perr) }
       }
   }"

lemma later_try_agent [clock_monos]: "keeps later (try_agent E udsPath port t)"
  unfolding try_agent_def by (intro later.keeps_rules clock_monos)

function agent_loop ::
  "'x env \<Rightarrow> string \<Rightarrow> int \<Rightarrow> int \<Rightarrow> int \<Rightarrow> goerr option \<Rightarrow> 'x host \<Rightarrow> (goerr option + nat) \<times> 'x host" where
  "agent_loop E udsPath port dialTimeout deadline lastErr h =
    (case run_state (time_Now E) h of (t, h1) \<Rightarrow>
     if \<not> t < deadline then (Inl lastErr, h1)
     else case run_state (try_agent E udsPath port dialTimeout) h1 of
       (Inr ac, h2) \<Rightarrow> (Inr ac, h2)
     | (Inl e, h2) \<Rightarrow>
         agent_loop E udsPath port dialTimeout deadline (Some e)
           (snd (run_state (time_Sleep E (10 * Millisecond)) h2)))"
  by pat_completeness auto
termination
  by (relation "measure (\<lambda>(E, u, p, dt, deadline, l, h). time_left deadline h)")
     (auto elim!: poll_round [OF sym _ keepsD [OF later_try_agent sym] prod.collapse [symmetric]])

declare agent_loop.simps [simp del]

definition waitForAgentReady ::
  "'x env \<Rightarrow> string \<Rightarrow> int \<Rightarrow> int \<Rightarrow> int \<Rightarrow> ('x host, nat res) state" where
  "waitForAgentReady E udsPath port timeout dialTimeout = do {
     now \<leftarrow> time_Now E;
     r \<leftarrow> State (agent_loop E udsPath port dialTimeout (now + timeout) None);
     return (case r of
         Inr ac \<Rightarrow> Inr ac
       | Inl (Some e) \<Rightarrow> Inl (wrap (''agent not ready after '' @ Duration_String timeout @ '': '') e)
       | Inl None \<Rightarrow> Inl (ErrMsg (''agent not ready after '' @ Duration_String timeout)))
   }"


section \<open>Properties\<close>

lemma agent_loop_result:
  "agent_loop E u p dt deadline l h = (r, h') \<Longrightarrow> later h h' \<and>
    (case r of Inr ac \<Rightarrow> \<exists>h1. run_state (try_agent E u p dt) h1 = (Inr ac, h') \<and> clock h1 < deadline
     | Inl _ \<Rightarrow> deadline \<le> clock h')"
proof (induction E u p dt deadline l h rule: agent_loop.induct)
  case (1 E u p dt deadline l h)
  obtain t h1 where t: "run_state (time_Now E) h = (t, h1)" by fastforce
  obtain a h2 where a: "run_state (try_agent E u p dt) h1 = (a, h2)" by fastforce
  obtain v h3 where v: "run_state (time_Sleep E (10 * Millisecond)) h2 = (v, h3)" by (rule prod.exhaust)
  have now: "t = clock h1" "clock h \<le> t" using time_Now_value [OF t] by simp_all
  have tried: "later h h2" using keepsD [OF later_try_agent a] now by (simp add: later_def)
  have slept: "later h2 h3" by (rule keepsD [OF later_time_Sleep v])
  consider "\<not> t < deadline" | ac where "t < deadline" "a = Inr ac" | e where "t < deadline" "a = Inl e" by (cases a) auto
  then show ?case
  proof cases
    case 3
    then have "agent_loop E u p dt deadline (Some e) h3 = (r, h')"
      using 1(2) t a v by (subst (asm) agent_loop.simps) simp
    then show ?thesis
      using 1(1) [OF t [symmetric]] 3 a v tried slept later.trans_R by (auto intro: later.trans_R)
  qed (use 1(2) t a now tried in \<open>auto simp: agent_loop.simps [of E u p dt deadline l h] later_def\<close>)
qed

text \<open>
  C35: \<open>waitForAgentReady\<close> always returns. On success the returned connection has just answered a
  ping; it fails only once the timeout has passed.
\<close>

theorem waitForAgentReady_result:
  assumes "run_state (waitForAgentReady E u p timeout dt) h = (r, h')"
  shows "case r of
      Inr ac \<Rightarrow> \<exists>h1 h2 resp. run_state (dialAgent E u p dt) h1 = (Inr ac, h2) \<and> run_state (Call E ac ping_request (2 * Second)) h2 = (Inr resp, h')
    | Inl _ \<Rightarrow> clock h + timeout \<le> clock h'"
proof -
  obtain t h1 where t: "run_state (time_Now E) h = (t, h1)" by fastforce
  obtain x h2 where x: "agent_loop E u p dt (t + timeout) None h1 = (x, h2)" by fastforce
  have "h2 = h'" "case r of Inr ac \<Rightarrow> x = Inr ac | Inl _ \<Rightarrow> \<exists>l. x = Inl l"
    using assms t x by (auto simp: waitForAgentReady_def split: sum.splits option.splits)
  with agent_loop_result [OF x] time_Now_value [OF t] show ?thesis
    by (auto simp: try_agent_def split: sum.splits prod.splits)
qed


theorem waitForAgentReady_result_witness:
  "\<exists>r h'. run_state (waitForAgentReady calm_env ''/v'' 7777 (2 * Second) Second) (blank_host ()) = (r, h') \<and>
     (case r of Inl _ \<Rightarrow> 2 * Second \<le> clock h' | Inr ac \<Rightarrow> \<exists>h2 resp. run_state (Call calm_env ac ping_request (2 * Second)) h2 = (Inr resp, h'))"
proof -
  obtain r h' where h': "run_state (waitForAgentReady calm_env ''/v'' 7777 (2 * Second) Second) (blank_host ()) = (r, h')"
    by (rule prod.exhaust)
  from waitForAgentReady_result [OF h'] h' show ?thesis
    by (cases r) (auto simp: blank_host_def)
qed

end
