(* ===== verification/Go_Time.thy ===== *)
theory Go_Time
  imports Go_Strings "HOL-Library.List_Lexorder"
begin

text \<open>
  \<open>time.Time.Format(time.RFC3339Nano)\<close> of a time in UTC, given as nanoseconds since 1970: the
  fraction of a second is printed without trailing zeros, and left out when it is zero.
\<close>

text \<open>The civil date of a day number (days since 1970-01-01), counted from 0000-03-01 in cycles of 400 years.\<close>

definition civil :: "nat \<Rightarrow> nat \<times> nat \<times> nat" where
  "civil days =
    (let z = days + 719468; era = z div 146097; doe = z mod 146097;
         yoe = (doe - doe div 1460 + doe div 36524 - doe div 146096) div 365;
         doy = doe - (365 * yoe + yoe div 4 - yoe div 100);
         mp = (5 * doy + 2) div 153;
         m = (if mp < 10 then mp + 3 else mp - 9)
     in (yoe + era * 400 + (if m \<le> 2 then 1 else 0), m, doy - (153 * mp + 2) div 5 + 1))"

definition pad :: "nat \<Rightarrow> nat \<Rightarrow> string" where
  "pad w n = pad_itoa w (int n)"

definition RFC3339Nano :: "int \<Rightarrow> string" where
  "RFC3339Nano t =
    (let ns = nat t; secs = ns div 1000000000; tod = secs mod 86400;
         (y, m, d) = civil (secs div 86400)
     in pad 4 y @ ''-'' @ pad 2 m @ ''-'' @ pad 2 d @ ''T'' @
        pad 2 (tod div 3600) @ '':'' @ pad 2 (tod div 60 mod 60) @ '':'' @ pad 2 (tod mod 60) @
        frac_string (ns mod 1000000000) 9 @ ''Z'')"

text \<open>The text is ASCII, so it survives JSON.\<close>

definition ascii :: "string \<Rightarrow> bool" where
  "ascii = list_all (\<lambda>c. (of_char c :: nat) < 0x80)"

lemma ascii_simps [simp]: "ascii []" "ascii (c # s) \<longleftrightarrow> (of_char c :: nat) < 0x80 \<and> ascii s"
    "ascii (s @ t) \<longleftrightarrow> ascii s \<and> ascii t"
  by (simp_all add: ascii_def)

lemma ascii_subset: "set s \<subseteq> set t \<Longrightarrow> ascii t \<Longrightarrow> ascii s"
  by (auto simp: ascii_def list_all_iff)

lemma ascii_utoa: "ascii (utoa n)"
  using utoa_digits [of n] by (auto simp: ascii_def list_all_iff is_digit_def less_eq_char_def)

lemma ascii_pad: "ascii (pad w n)"
  by (simp add: pad_def pad_itoa_def ascii_utoa) (simp add: ascii_def list_all_iff)

lemma ascii_frac: "ascii (frac_string v w)"
proof -
  let ?ds = "replicate (w - length (utoa v)) (CHR ''0'') @ utoa v"
  have "ascii ?ds" by (simp add: ascii_utoa) (simp add: ascii_def list_all_iff)
  then have "ascii (rev (dropWhile (\<lambda>c. c = CHR ''0'') (rev ?ds)))"
    by (rule ascii_subset [rotated]) (auto dest: set_dropWhileD)
  then show ?thesis by (simp add: frac_string_def Let_def)
qed

lemma ascii_RFC3339Nano: "ascii (RFC3339Nano t)"
  by (simp add: RFC3339Nano_def Let_def ascii_pad ascii_frac split: prod.split)

end
