(* ===== verification/Snapshot.thy ===== *)
theory Snapshot
  imports Netns Cgroup Firecracker Agent_Client Go_Time
begin

text \<open>
  \<open>cmd/server/snapshot.go\<close>: the golden snapshot every sandbox is restored from. Its files and
  metadata under the work directory, whether they can be reused, building them by booting a VM,
  and the helpers to wait for Firecracker's socket and to load a snapshot with retries.
\<close>

section \<open>Layout and metadata\<close>

record snapshotPaths =
  sp_Dir :: string
  sp_BaseDir :: string
  sp_BaseDisk :: string
  sp_StateFile :: string
  sp_MemFile :: string
  sp_MetaFile :: string

definition snapshotLayout :: "string \<Rightarrow> snapshotPaths" where
  "snapshotLayout workDir =
    (let dir = Join [workDir, ''snapshot'']; base = Join [dir, ''base''] in
     \<lparr>sp_Dir = dir, sp_BaseDir = base, sp_BaseDisk = Join [base, ''rootfs.ext4''],
      sp_StateFile = Join [dir, ''state.snap''], sp_MemFile = Join [dir, ''mem.snap''],
      sp_MetaFile = Join [dir, ''meta.json'']\<rparr>)"

record snapshotMeta =
  sm_Version :: int
  sm_LineageID :: string
  sm_BaseRootfsPath :: string
  sm_CreatedAt :: string

definition json_snapshotMeta :: "snapshotMeta \<Rightarrow> json" where
  "json_snapshotMeta m = JObj
    [(''version'', JNum (itoa (sm_Version m))), (''lineage_id'', JStr (sm_LineageID m)),
     (''base_rootfs_path'', JStr (sm_BaseRootfsPath m)), (''created_at'', JStr (sm_CreatedAt m))]"

definition zero_snapshotMeta :: snapshotMeta where
  "zero_snapshotMeta = \<lparr>sm_Version = 0, sm_LineageID = [], sm_BaseRootfsPath = [], sm_CreatedAt = []\<rparr>"

definition dec_snapshotMeta :: "snapshotMeta decoder" where
  "dec_snapshotMeta = dec_struct False
    [(''version'', field sm_Version sm_Version_update dec_int),
     (''lineage_id'', field sm_LineageID sm_LineageID_update dec_string),
     (''base_rootfs_path'', field sm_BaseRootfsPath sm_BaseRootfsPath_update dec_string),
     (''created_at'', field sm_CreatedAt sm_CreatedAt_update dec_string)]"

text \<open>What \<open>validateSnapshotMeta\<close> checks once the file is read.\<close>

definition check_snapshotMeta :: "config \<Rightarrow> string \<Rightarrow> goerr option" where
  "check_snapshotMeta cfg raw =
    (case Unmarshal dec_snapshotMeta zero_snapshotMeta raw of
       None \<Rightarrow> Some (wrap ''decode snapshot meta: '' json_error)
     | Some meta \<Rightarrow>
       if sm_Version meta \<noteq> 1 then Some (ErrMsg (''unsupported snapshot meta version '' @ itoa (sm_Version meta)))
       else if TrimSpace (BaseRootfsLineageID cfg) = [] then None
       else if TrimSpace (sm_LineageID meta) = [] then Some (ErrMsg ''snapshot meta missing lineage id'')
       else if sm_LineageID meta \<noteq> BaseRootfsLineageID cfg
       then Some (ErrMsg (''snapshot lineage mismatch (meta='' @ sm_LineageID meta @ '' current='' @ BaseRootfsLineageID cfg @ '')''))
       else None)"

definition validateSnapshotMeta :: "'x env \<Rightarrow> snapshotPaths \<Rightarrow> config \<Rightarrow> ('x host, goerr option) state" where
  "validateSnapshotMeta E sp cfg = do {
     r \<leftarrow> os_ReadFile E (sp_MetaFile sp);
     case r of
       Inl e \<Rightarrow> return (Some (wrap ''read snapshot meta: '' e))
     | Inr raw \<Rightarrow> return (check_snapshotMeta cfg raw)
   }"

text \<open>
  Both metadata files of the program are replaced the same way: the text goes to a temporary file
  beside the target, which is then renamed over it.
\<close>

definition write_meta :: "'x env \<Rightarrow> string \<Rightarrow> json \<Rightarrow> ('x host, goerr option) state" where
  "write_meta E metaPath j =
    (let tmp = metaPath @ ''.tmp'' in do {
     w \<leftarrow> os_WriteFile E tmp (MarshalIndent j @ [CHR 0x0A]);
     case w of
       Some e \<Rightarrow> return (Some (wrap ''write snapshot meta: '' e))
     | None \<Rightarrow> do {
         r \<leftarrow> os_Rename E tmp metaPath;
         case r of
           Some e \<Rightarrow> return (Some (wrap ''persist snapshot meta: '' e))
         | None \<Rightarrow> return None
       }
   })"

definition writeSnapshotMeta :: "'x env \<Rightarrow> snapshotPaths \<Rightarrow> config \<Rightarrow> ('x host, goerr option) state" where
  "writeSnapshotMeta E sp cfg = do {
     now \<leftarrow> time_Now E;
     write_meta E (sp_MetaFile sp) (json_snapshotMeta
       \<lparr>sm_Version = 1, sm_LineageID = BaseRootfsLineageID cfg, sm_BaseRootfsPath = BaseRootfsPath cfg,
        sm_CreatedAt = RFC3339Nano now\<rparr>)
   }"

definition resetSnapshotDir :: "'x env \<Rightarrow> snapshotPaths \<Rightarrow> ('x host, goerr option) state" where
  "resetSnapshotDir E sp = do {
     r \<leftarrow> os_RemoveAll E (sp_Dir sp);
     case r of
       Some e \<Rightarrow> return (Some (wrap ''remove old snapshot dir: '' e))
     | None \<Rightarrow> do {
         m \<leftarrow> os_MkdirAll E (sp_BaseDir sp);
         case m of Some e \<Rightarrow> return (Some (wrap ''recreate snapshot dir: '' e)) | None \<Rightarrow> return None
       }
   }"


section \<open>Helpers\<close>

definition fileExists :: "'x env \<Rightarrow> string \<Rightarrow> ('x host, bool) state" where
  "fileExists E p = do { e \<leftarrow> os_Stat E p; return (e = None) }"

definition materializeSandboxRootfs :: "'x env \<Rightarrow> config \<Rightarrow> string \<Rightarrow> string \<Rightarrow> ('x host, goerr option) state" where
  "materializeSandboxRootfs E cfg srcPath dstPath =
    (let reflinkMode = (if RootfsCloneMode cfg = ''reflink-required'' then ''--reflink=always'' else ''--reflink=auto'') in do {
     (_, _, err) \<leftarrow> runCmd E ''cp'' [reflinkMode, srcPath, dstPath];
     return (case err of
         None \<Rightarrow> None
       | Some e \<Rightarrow> if RootfsCloneMode cfg = ''reflink-required''
                  then Some (Wrap [] e ''; reflink-required mode prevents full-copy fallback'') else Some e)
   })"

definition isTransientUnixSocketErr :: "goerr \<Rightarrow> bool" where
  "isTransientUnixSocketErr err \<longleftrightarrow>
    errors_Is err ENOENT \<or> errors_Is err ECONNREFUSED \<or>
    (let msg = ToLower (Error err) in
     Contains msg ''connect: no such file or directory'' \<or> Contains msg ''connect: connection refused'')"

text \<open>One look at the socket: it must exist and accept a connection.\<close>

definition try_socket :: "'x env \<Rightarrow> string \<Rightarrow> ('x host, goerr option) state" where
  "try_socket E socketPath = do {
     s \<leftarrow> os_Stat E socketPath;
     case s of
       Some e \<Rightarrow> return (Some e)
     | None \<Rightarrow> do {
         c \<leftarrow> outside (e_Dial E socketPath (50 * Millisecond));
         case c of
           Inl e \<Rightarrow> return (Some e)
         | Inr conn \<Rightarrow> do { _ \<leftarrow> outside (e_Close E conn); return None }
       }
   }"

lemma later_try_socket [clock_monos]: "keeps later (try_socket E p)"
  unfolding try_socket_def by (intro later.keeps_rules clock_monos)

function socket_loop :: "'x env \<Rightarrow> string \<Rightarrow> int \<Rightarrow> goerr option \<Rightarrow> 'x host \<Rightarrow> (goerr option + unit) \<times> 'x host" where
  "socket_loop E socketPath deadline lastErr h =
    (case run_state (time_Now E) h of (t, h1) \<Rightarrow>
     if \<not> t < deadline then (Inl lastErr, h1)
     else case run_state (try_socket E socketPath) h1 of
       (None, h2) \<Rightarrow> (Inr (), h2)
     | (Some e, h2) \<Rightarrow>
         socket_loop E socketPath deadline (Some e) (snd (run_state (time_Sleep E (2 * Millisecond)) h2)))"
  by pat_completeness auto
termination
  by (relation "measure (\<lambda>(E, p, deadline, l, h). time_left deadline h)")
     (auto elim!: poll_round [OF sym _ keepsD [OF later_try_socket sym] prod.collapse [symmetric]])

declare socket_loop.simps [simp del]

definition waitForUnixSocketReady :: "'x env \<Rightarrow> string \<Rightarrow> int \<Rightarrow> ('x host, goerr option) state" where
  "waitForUnixSocketReady E socketPath timeout0 =
    (if TrimSpace socketPath = [] then return (Some (ErrMsg ''socket path is empty''))
     else let timeout = (if timeout0 \<le> 0 then 1500 * Millisecond else timeout0) in do {
       now \<leftarrow> time_Now E;
       r \<leftarrow> State (socket_loop E socketPath (now + timeout) None);
       return (case r of
           Inr _ \<Rightarrow> None
         | Inl (Some e) \<Rightarrow> Some (wrap (Quote socketPath @ '' not ready after '' @ Duration_String timeout @ '': '') e)
         | Inl None \<Rightarrow> Some (ErrMsg (Quote socketPath @ '' not ready after '' @ Duration_String timeout)))
     })"

function load_loop :: "'x env \<Rightarrow> fcClient \<Rightarrow> string \<Rightarrow> string \<Rightarrow> bool \<Rightarrow> int \<Rightarrow> 'x host \<Rightarrow> goerr option \<times> 'x host" where
  "load_loop E fc statePath memPath resume deadline h =
    (case run_state (loadSnapshot E fc statePath memPath resume) h of
       (None, h1) \<Rightarrow> (None, h1)
     | (Some err, h1) \<Rightarrow>
       if \<not> isTransientUnixSocketErr err then (Some err, h1)
       else case run_state (time_Now E) h1 of (t, h2) \<Rightarrow>
         if t > deadline then (Some err, h2)
         else load_loop E fc statePath memPath resume deadline (snd (run_state (time_Sleep E (20 * Millisecond)) h2)))"
  by pat_completeness auto
termination
  by (relation "measure (\<lambda>(E, c, s, m, b, deadline, h). time_left deadline h)")
     (auto elim!: retry_round [OF keepsD [OF later_fc(5) sym] sym _ prod.collapse [symmetric]])

declare load_loop.simps [simp del]

definition loadSnapshotWithRetry ::
  "'x env \<Rightarrow> fcClient \<Rightarrow> string \<Rightarrow> string \<Rightarrow> bool \<Rightarrow> int \<Rightarrow> ('x host, goerr option) state" where
  "loadSnapshotWithRetry E fc statePath memPath resume timeout0 =
    (let timeout = (if timeout0 \<le> 0 then 1500 * Millisecond else timeout0) in do {
     now \<leftarrow> time_Now E;
     State (load_loop E fc statePath memPath resume (now + timeout))
   })"


section \<open>Building the snapshot\<close>

text \<open>\<open>exec.Command\<close> of Firecracker inside a namespace; the log file is only a descriptor.\<close>

definition fc_argv :: "config \<Rightarrow> netnsConfig \<Rightarrow> bool \<Rightarrow> string list" where
  "fc_argv cfg nc boot =
    [''ip'', ''netns'', ''exec'', NetnsName nc, FirecrackerBin cfg, ''--api-sock'', ''firecracker.sock'']
    @ (if boot then [''--config-file'', ''vm-config.json''] else [])"

abbreviation snapID :: string where "snapID \<equiv> ''snapshot''"
abbreviation snapSubnet :: int where "snapSubnet \<equiv> 250"

text \<open>From the running VM on: wait for its agent, pause, snapshot, kill it, write the metadata.\<close>

definition snapshot_vm :: "'x env \<Rightarrow> config \<Rightarrow> snapshotPaths \<Rightarrow> nat \<Rightarrow> ('x host, snapshotPaths res) state" where
  "snapshot_vm E cfg sp pid = do {
     a \<leftarrow> waitForAgentReady E (Join [sp_BaseDir sp, ''vsock.sock'']) (AgentPort cfg) (AgentWaitTimeout cfg) (AgentDialTimeout cfg);
     case a of Inl e \<Rightarrow> return (Inl (wrap ''wait for snapshot agent: '' e)) | Inr ac \<Rightarrow> do {
     _ \<leftarrow> agent_Close E (Some ac);
     let fc = newFCClient (Join [sp_BaseDir sp, ''firecracker.sock'']) (5 * Second);
     p \<leftarrow> pauseVM E fc;
     case p of Some e \<Rightarrow> return (Inl (wrap ''pause snapshot vm: '' e)) | None \<Rightarrow> do {
     _ \<leftarrow> os_Remove E (sp_StateFile sp);
     _ \<leftarrow> os_Remove E (sp_MemFile sp);
     c \<leftarrow> createFullSnapshot E fc (sp_StateFile sp) (sp_MemFile sp);
     case c of Some e \<Rightarrow> return (Inl (wrap ''create snapshot: '' e)) | None \<Rightarrow> do {
     _ \<leftarrow> killProcessGroup E (Some pid);
     _ \<leftarrow> cmd_Wait E pid None;
     m \<leftarrow> writeSnapshotMeta E sp cfg;
     case m of Some e \<Rightarrow> return (Inl e) | None \<Rightarrow> return (Inr sp)
     }}}
   }"

text \<open>Inside the namespace of the golden VM; the process is killed and reaped on every way out.\<close>

definition boot_snapshot_vm :: "'x env \<Rightarrow> config \<Rightarrow> snapshotPaths \<Rightarrow> netnsConfig \<Rightarrow> ('x host, snapshotPaths res) state" where
  "boot_snapshot_vm E cfg sp nc = do {
     w \<leftarrow> writeVMConfig E (Join [sp_BaseDir sp, ''vm-config.json'']) cfg (TapName nc) ''rootfs.ext4'' snapSubnet ''vsock.sock'' 3;
     case w of Some e \<Rightarrow> return (Inl (wrap ''write snapshot vm config: '' e)) | None \<Rightarrow> do {
     _ \<leftarrow> os_Remove E (Join [sp_BaseDir sp, ''firecracker.sock'']);
     _ \<leftarrow> os_Remove E (Join [sp_BaseDir sp, ''vsock.sock'']);
     l \<leftarrow> os_OpenTrunc E (Join [sp_BaseDir sp, ''firecracker.log'']);
     case l of Some e \<Rightarrow> return (Inl (wrap ''open snapshot firecracker log: '' e)) | None \<Rightarrow> do {
     s \<leftarrow> cmd_Start E (fc_argv cfg nc True) (sp_BaseDir sp);
     case s of Inl e \<Rightarrow> return (Inl (wrap ''start snapshot firecracker: '' e)) | Inr pid \<Rightarrow> do {
     r \<leftarrow> snapshot_vm E cfg sp pid;
     _ \<leftarrow> killProcessGroup E (Some pid);
     _ \<leftarrow> cmd_Wait E pid None;
     return r
     }}}
   }"

definition build_snapshot :: "'x env \<Rightarrow> config \<Rightarrow> snapshotPaths \<Rightarrow> ('x host, snapshotPaths res) state" where
  "build_snapshot E cfg sp = do {
     m \<leftarrow> os_MkdirAll E (sp_BaseDir sp);
     case m of Some e \<Rightarrow> return (Inl (wrap ''create snapshot dir: '' e)) | None \<Rightarrow> do {
     c \<leftarrow> materializeSandboxRootfs E cfg (BaseRootfsPath cfg) (sp_BaseDisk sp);
     case c of Some e \<Rightarrow> return (Inl (wrap ''copy base disk for snapshot: '' e)) | None \<Rightarrow> do {
     n \<leftarrow> setupSandboxNetnsAndRouting E snapID snapSubnet;
     case n of Inl e \<Rightarrow> return (Inl (wrap ''setup snapshot netns: '' e)) | Inr nc \<Rightarrow> do {
     r \<leftarrow> boot_snapshot_vm E cfg sp nc;
     _ \<leftarrow> cleanupSandboxNetnsAndRouting E (Some nc);
     return r
     }}}
   }"

definition snapshot_files_exist :: "'x env \<Rightarrow> snapshotPaths \<Rightarrow> ('x host, bool) state" where
  "snapshot_files_exist E sp = do {
     a \<leftarrow> fileExists E (sp_StateFile sp);
     if \<not> a then return False else do {
     b \<leftarrow> fileExists E (sp_MemFile sp);
     if \<not> b then return False else fileExists E (sp_BaseDisk sp)
     }
   }"

definition ensureSnapshot :: "'x env \<Rightarrow> config \<Rightarrow> ('x host, snapshotPaths res) state" where
  "ensureSnapshot E cfg =
    (let sp = snapshotLayout (WorkDir cfg) in do {
     present \<leftarrow> snapshot_files_exist E sp;
     if \<not> present then build_snapshot E cfg sp
     else do {
       v \<leftarrow> validateSnapshotMeta E sp cfg;
       case v of
         None \<Rightarrow> return (Inr sp)
       | Some _ \<Rightarrow> do {
           r \<leftarrow> resetSnapshotDir E sp;
           case r of Some e \<Rightarrow> return (Inl e) | None \<Rightarrow> build_snapshot E cfg sp
         }
     }
   })"


section \<open>Loading with retries\<close>

lemma load_loop_result:
  "load_loop E fc st mem b deadline h = (r, h') \<Longrightarrow> later h h' \<and>
    (case r of None \<Rightarrow> \<exists>h1. run_state (loadSnapshot E fc st mem b) h1 = (None, h')
     | Some e \<Rightarrow> \<not> isTransientUnixSocketErr e \<or> deadline < clock h')"
proof (induction E fc st mem b deadline h rule: load_loop.induct)
  case (1 E fc st mem b deadline h)
  obtain a h1 where a: "run_state (loadSnapshot E fc st mem b) h = (a, h1)" by (rule prod.exhaust)
  obtain t h2 where t: "run_state (time_Now E) h1 = (t, h2)" by (rule prod.exhaust)
  obtain v h3 where v: "run_state (time_Sleep E (20 * Millisecond)) h2 = (v, h3)" by (rule prod.exhaust)
  have tried: "later h h1" by (rule keepsD [OF later_fc(5) a])
  have now: "later h1 h2" "t = clock h2" using time_Now_value [OF t] by (simp_all add: later_def)
  have slept: "later h2 h3" by (rule keepsD [OF later_time_Sleep v])
  consider "a = None" | e where "a = Some e" "\<not> isTransientUnixSocketErr e" | e where "a = Some e" "isTransientUnixSocketErr e" "t > deadline"
    | e where "a = Some e" "isTransientUnixSocketErr e" "\<not> t > deadline" by (cases a) auto
  then show ?case
  proof cases
    case 4
    then have "load_loop E fc st mem b deadline h3 = (r, h')"
      using 1(2) a t v by (subst (asm) load_loop.simps) simp
    with 1(1) [OF a [symmetric] 4(1) _ t [symmetric] 4(3)] 4(2) v
    have "later h3 h' \<and> (case r of None \<Rightarrow> \<exists>h1. run_state (loadSnapshot E fc st mem b) h1 = (None, h')
     | Some e \<Rightarrow> \<not> isTransientUnixSocketErr e \<or> deadline < clock h')" by simp
    then show ?thesis using tried now(1) slept by (blast intro: later.trans_R)
  qed (use 1(2) a t now tried in \<open>auto simp: load_loop.simps [of E fc st mem b deadline h] later_def\<close>)
qed

text \<open>
  \<open>loadSnapshotWithRetry\<close> always returns. It succeeds only if Firecracker has just accepted
  the snapshot, and it gives up only on an error that is not a missing or refusing socket, or once
  the timeout (1.5 seconds if none is given) has passed.
\<close>

theorem loadSnapshotWithRetry_result:
  assumes "run_state (loadSnapshotWithRetry E fc st mem b timeout) h = (r, h')"
  shows "case r of
      None \<Rightarrow> \<exists>h1. run_state (loadSnapshot E fc st mem b) h1 = (None, h')
    | Some e \<Rightarrow> \<not> isTransientUnixSocketErr e \<or> clock h + (if timeout \<le> 0 then 1500 * Millisecond else timeout) < clock h'"
proof -
  obtain t h1 where t: "run_state (time_Now E) h = (t, h1)" by (rule prod.exhaust)
  have "load_loop E fc st mem b (t + (if timeout \<le> 0 then 1500 * Millisecond else timeout)) h1 = (r, h')"
    using assms t by (simp add: loadSnapshotWithRetry_def)
  from load_loop_result [OF this] time_Now_value [OF t] show ?thesis
    by (auto split: option.splits)
qed

definition refusing_env :: "unit env" where
  "refusing_env = calm_env\<lparr>e_Do := \<lambda>_ _ _ _ _ f x. (Inl (Errno ECONNREFUSED), 0, f, x)\<rparr>"

lemma refusing_doJSON: "fst (run_state (doJSON refusing_env c verb path payload) h) = Some (Errno ECONNREFUSED)"
  by (simp add: doJSON_def refusing_env_def run_defs)

theorem loadSnapshotWithRetry_result_witness:
  "\<exists>e h'. run_state (loadSnapshotWithRetry refusing_env (newFCClient ''/s'' 0) [] [] True 0) (blank_host ()) = (Some e, h') \<and>
     (\<not> isTransientUnixSocketErr e \<or> 1500 * Millisecond < clock h')"
proof -
  obtain r h' where h': "run_state (loadSnapshotWithRetry refusing_env (newFCClient ''/s'' 0) [] [] True 0) (blank_host ()) = (r, h')"
    by (rule prod.exhaust)
  have never: "run_state (loadSnapshot refusing_env fc st mem b) h1 \<noteq> (None, h2)" for fc st mem b h1 h2
    unfolding loadSnapshot_def using refusing_doJSON by (metis fst_conv option.distinct(1))
  obtain e where e: "r = Some e"
    using loadSnapshotWithRetry_result [OF h'] never by (cases r) (simp_all only: option.case, blast)
  have "clock (blank_host ()) = 0" by (simp add: blank_host_def)
  with loadSnapshotWithRetry_result [OF h'] have "\<not> isTransientUnixSocketErr e \<or> 1500 * Millisecond < clock h'"
    by (simp only: e option.case order_refl if_True add_0)
  with h' show ?thesis unfolding e by blast
qed

end
