(* ===== verification/Netns_Pool.thy ===== *)
theory Netns_Pool
  imports Netns "HOL-Library.Multiset"
begin

text \<open>
  \<open>cmd/server/netns_pool.go\<close> and \<open>netns_alloc.go\<close>: the pool of prepared network namespaces and
  how the server takes a namespace for a sandbox and gives it back. The pool's buffered channel
  is a list with a capacity.
\<close>

section \<open>The channel of the pool\<close>

definition newNetnsPool :: "int \<Rightarrow> netnsPool" where
  "newNetnsPool n = \<lparr>p_size = n, p_ch = [], p_all = [], p_once = False, p_stuck = False\<rparr>"

text \<open>Sending on a full channel blocks for ever, since nothing else is running.\<close>

definition ch_send :: "netnsConfig \<Rightarrow> netnsPool \<Rightarrow> netnsPool" where
  "ch_send nc p = (if int (length (p_ch p)) < p_size p then p\<lparr>p_ch := p_ch p @ [nc]\<rparr> else p\<lparr>p_stuck := True\<rparr>)"

definition ch_recv :: "netnsPool \<Rightarrow> (netnsConfig \<times> netnsPool) option" where
  "ch_recv p = (case p_ch p of [] \<Rightarrow> None | nc # rest \<Rightarrow> Some (nc, p\<lparr>p_ch := rest\<rparr>))"


section \<open>Operations of the pool\<close>

definition pool_entry_id :: "nat \<Rightarrow> string" where
  "pool_entry_id i = ''pool-'' @ pad_itoa 3 (int i)"

text \<open>What \<open>Init\<close> cleans up before it builds entry \<open>i\<close>: the fields it sets, the others empty.\<close>

definition stale_entry :: "nat \<Rightarrow> netnsConfig" where
  "stale_entry i =
    \<lparr>NetnsName = netnsNameForSandbox (pool_entry_id i), Subnet = 0, Pooled = False,
     VethHost = ''veth'' @ pad_itoa 3 (int i), VethNS = [], VethCIDR = [], VethHostIP = [], VethNSIP = [],
     TapName = [], SubnetCIDR = ''172.16.'' @ itoa (int i) @ ''.0/30'', HostIP = [], GuestIP = []\<rparr>"

definition update_pool :: "(netnsPool \<Rightarrow> netnsPool) \<Rightarrow> ('x world, unit) state" where
  "update_pool f = modify_srv (\<lambda>s. s\<lparr>pool := map_option f (pool s)\<rparr>)"

text \<open>The loop of \<open>Init\<close> from entry \<open>i\<close>, with \<open>n\<close> entries to go.\<close>

fun init_entries :: "'x env \<Rightarrow> nat \<Rightarrow> nat \<Rightarrow> ('x world, goerr option) state" where
  "init_entries E i 0 = return None"
| "init_entries E i (Suc n) = do {
     _ \<leftarrow> onhost (cleanupSandboxNetnsAndRouting E (Some (stale_entry i)));
     r \<leftarrow> onhost (setupSandboxNetnsAndRouting E (pool_entry_id i) (int i));
     case r of
       Inl e \<Rightarrow> return (Some (wrap (''init netns pool entry '' @ utoa i @ '': '') e))
     | Inr nc0 \<Rightarrow> do {
         let nc = nc0\<lparr>Pooled := True, Subnet := int i\<rparr>;
         update_pool (\<lambda>p. p\<lparr>p_all := p_all p @ [nc]\<rparr>);
         update_pool (ch_send nc);
         init_entries E (Suc i) n
       }
   }"

definition pool_Init :: "'x env \<Rightarrow> ('x world, goerr option) state" where
  "pool_Init E = do {
     po \<leftarrow> gets_srv pool;
     case po of
       None \<Rightarrow> return None
     | Some p \<Rightarrow>
       if p_once p then return None
       else do {
         update_pool (\<lambda>p. p\<lparr>p_once := True\<rparr>);
         init_entries E 1 (nat (p_size p))
       }
   }"

text \<open>
  \<open>Acquire\<close>: a namespace that is in the channel is received at once. With an empty channel the
  timer fires, since no other handler runs in this sequential model.
\<close>

definition pool_Acquire :: "'x env \<Rightarrow> int \<Rightarrow> ('x world, netnsConfig res) state" where
  "pool_Acquire E timeout0 = do {
     po \<leftarrow> gets_srv pool;
     case po of
       None \<Rightarrow> return (Inl (ErrMsg ''netns pool is nil''))
     | Some p \<Rightarrow>
       (let timeout = (if timeout0 \<le> 0 then 5 * Second else timeout0) in
        case ch_recv p of
          Some (nc, p') \<Rightarrow> do { modify_srv (\<lambda>s. s\<lparr>pool := Some p'\<rparr>); return (Inr nc) }
        | None \<Rightarrow> do {
            onhost (time_Sleep E timeout);
            return (Inl (ErrMsg (''timed out acquiring netns from pool after '' @ Duration_String timeout)))
          })
   }"

definition pool_Release :: "netnsConfig option \<Rightarrow> ('x world, unit) state" where
  "pool_Release nco = (case nco of None \<Rightarrow> return () | Some nc \<Rightarrow> update_pool (ch_send nc))"

fun cleanup_each :: "'x env \<Rightarrow> netnsConfig list \<Rightarrow> ('x host, unit) state" where
  "cleanup_each E [] = return ()"
| "cleanup_each E (nc # ncs) = do { _ \<leftarrow> cleanupSandboxNetnsAndRouting E (Some nc); cleanup_each E ncs }"

definition pool_Destroy :: "'x env \<Rightarrow> ('x world, unit) state" where
  "pool_Destroy E = do {
     po \<leftarrow> gets_srv pool;
     case po of None \<Rightarrow> return () | Some p \<Rightarrow> onhost (cleanup_each E (p_all p))
   }"


section \<open>Taking and giving back a namespace\<close>

text \<open>\<open>atomic.AddUint32(\&s.nextSubnet, 1)\<close>, converted to \<open>int\<close>.\<close>

definition next_subnet :: "('x world, int) state" where
  "next_subnet = do {
     modify_srv (\<lambda>s. s\<lparr>nextSubnet := nextSubnet s + 1\<rparr>);
     gets_srv (\<lambda>s. uint (nextSubnet s))
   }"

lemma next_subnet_code [code]:
  "next_subnet = State (\<lambda>w. (uint (nextSubnet (srv w) + 1), w\<lparr>srv := (srv w)\<lparr>nextSubnet := nextSubnet (srv w) + 1\<rparr>\<rparr>))"
  by (simp add: next_subnet_def gets_srv_def modify_srv_def modify_def gets_def State_Monad.bind_def)

definition acquireNetns :: "'x env \<Rightarrow> string \<Rightarrow> ('x world, netnsConfig res) state" where
  "acquireNetns E sid = do {
     po \<leftarrow> gets_srv pool;
     got \<leftarrow> (if po \<noteq> None then do { r \<leftarrow> pool_Acquire E (10 * Millisecond); return (case r of Inr nc \<Rightarrow> Some nc | Inl _ \<Rightarrow> None) }
            else return None);
     case got of
       Some nc \<Rightarrow> return (Inr nc)
     | None \<Rightarrow> do {
         subnet \<leftarrow> next_subnet;
         onhost (setupSandboxNetnsAndRouting E sid subnet)
       }
   }"

definition releaseNetns :: "'x env \<Rightarrow> netnsConfig option \<Rightarrow> ('x world, unit) state" where
  "releaseNetns E nco =
    (case nco of None \<Rightarrow> return () | Some nc \<Rightarrow> do {
     po \<leftarrow> gets_srv pool;
     if po \<noteq> None \<and> Pooled nc then pool_Release (Some nc)
     else do { _ \<leftarrow> onhost (cleanupSandboxNetnsAndRouting E (Some nc)); return () }
   })"



section \<open>The contract of a pool\<close>

text \<open>
  What a client of the pool relies on: taking removes one free resource, giving back adds it as
  long as there is room, and an empty answer means that nothing was free. From these alone: as
  long as clients only give back what they took and no more exists than the pool has room for,
  nothing is lost or duplicated and giving back never blocks.
\<close>

locale resource_pool =
  fixes take_one :: "'p \<Rightarrow> ('r \<times> 'p) option"
    and give :: "'r \<Rightarrow> 'p \<Rightarrow> 'p"
    and free :: "'p \<Rightarrow> 'r multiset"
    and room :: "'p \<Rightarrow> int"
    and stuck :: "'p \<Rightarrow> bool"
  assumes take_Some: "take_one p = Some (r, p') \<Longrightarrow>
      free p = add_mset r (free p') \<and> room p' = room p \<and> stuck p' = stuck p"
    and take_None: "take_one p = None \<Longrightarrow> free p = {#}"
    and give_room: "int (size (free p)) < room p \<Longrightarrow>
      free (give r p) = add_mset r (free p) \<and> room (give r p) = room p \<and> stuck (give r p) = stuck p"
begin

text \<open>A pool together with the resources its clients hold, and what clients may do.\<close>

inductive client :: "'p \<times> 'r multiset \<Rightarrow> 'p \<times> 'r multiset \<Rightarrow> bool" where
  takes: "take_one p = Some (r, p') \<Longrightarrow> client (p, H) (p', add_mset r H)"
| gives: "client (p, add_mset r H) (give r p, H)"

lemma client_conserves:
  assumes "client (p, H) (p', H')" "int (size (free p + H)) \<le> room p"
  shows "free p' + H' = free p + H \<and> room p' = room p \<and> stuck p' = stuck p"
  using assms
proof (cases rule: client.cases)
  case (takes r)
  with take_Some [of p r p'] show ?thesis by simp
next
  case (gives r)
  with give_room [of p r] assms(2) show ?thesis by simp
qed

lemma clients_conserve:
  assumes "client\<^sup>*\<^sup>* s t" "int (size (free (fst s) + snd s)) \<le> room (fst s)"
  shows "free (fst t) + snd t = free (fst s) + snd s \<and> room (fst t) = room (fst s) \<and> stuck (fst t) = stuck (fst s)"
  using assms
proof (induction rule: rtranclp_induct)
  case (step t u)
  then show ?case
    using client_conserves [of "fst t" "snd t" "fst u" "snd u"] by simp
qed simp

end

interpretation netns: resource_pool ch_recv ch_send "\<lambda>p. mset (p_ch p)" p_size p_stuck
proof
  fix p p' :: netnsPool and r
  assume "ch_recv p = Some (r, p')"
  then show "mset (p_ch p) = add_mset r (mset (p_ch p')) \<and> p_size p' = p_size p \<and> p_stuck p' = p_stuck p"
    by (auto simp: ch_recv_def split: list.splits)
next
  fix p :: netnsPool
  assume "ch_recv p = None"
  then show "mset (p_ch p) = {#}" by (simp add: ch_recv_def split: list.splits)
next
  fix p :: netnsPool and r
  assume "int (size (mset (p_ch p))) < p_size p"
  then show "mset (p_ch (ch_send r p)) = add_mset r (mset (p_ch p)) \<and> p_size (ch_send r p) = p_size p \<and>
      p_stuck (ch_send r p) = p_stuck p"
    by (simp add: ch_send_def)
qed

lemma ch_recv_all: "ch_recv p = Some (nc, p') \<Longrightarrow> p_all p' = p_all p"
  by (auto simp: ch_recv_def split: list.splits)

lemma ch_send_all [simp]: "p_all (ch_send nc p) = p_all p" "p_size (ch_send nc p) = p_size p"
  by (simp_all add: ch_send_def)


section \<open>Conservation in the server\<close>

text \<open>
  The account of the pool: its own namespaces, pairwise different, are exactly the free ones and
  those that are out, \<open>Y\<close>; the channel has room for all of them, and no send has blocked.
\<close>

definition pool_room :: "netnsConfig multiset \<Rightarrow> server \<Rightarrow> bool" where
  "pool_room Y s \<longleftrightarrow> (case pool s of None \<Rightarrow> True
     | Some p \<Rightarrow> \<not> p_stuck p \<and> distinct (p_all p) \<and> list_all Pooled (p_all p) \<and> int (length (p_all p)) \<le> p_size p \<and>
         mset (p_ch p) + Y = mset (p_all p))"

definition pooled :: "netnsConfig \<Rightarrow> netnsConfig multiset" where
  "pooled nc = (if Pooled nc then {#nc#} else {#})"

lemma pool_room_cong: "pool s' = pool s \<Longrightarrow> pool_room Y s' = pool_room Y s"
  by (simp add: pool_room_def)

lemma pool_room_recv:
  assumes "pool_room Y s" "pool s = Some p" "ch_recv p = Some (nc, p')"
  shows "pool_room (Y + pooled nc) (s\<lparr>pool := Some p'\<rparr>)"
proof -
  have p: "mset (p_ch p) = add_mset nc (mset (p_ch p'))" "p_size p' = p_size p" "p_stuck p' = p_stuck p" "p_all p' = p_all p"
    using netns.take_Some [OF assms(3)] ch_recv_all [OF assms(3)] by simp_all
  have all: "add_mset nc (mset (p_ch p') + Y) = mset (p_all p)" "list_all Pooled (p_all p)"
    using assms(1,2) p(1) by (simp_all add: pool_room_def)
  then have "nc \<in> set (p_all p)" by (metis set_mset_mset union_single_eq_member)
  with all(2) have "pooled nc = {#nc#}" by (simp add: pooled_def list_all_iff)
  with all(1) show ?thesis
    using assms(1,2) p(2-4) by (simp add: pool_room_def)
qed

lemma pool_room_send:
  assumes "pool_room (Y + {#nc#}) s" "pool s = Some p"
  shows "pool_room Y (s\<lparr>pool := Some (ch_send nc p)\<rparr>)"
proof -
  have out: "mset (p_ch p) + (Y + {#nc#}) = mset (p_all p)" and len: "int (length (p_all p)) \<le> p_size p"
    using assms by (simp_all add: pool_room_def)
  from out have "size (mset (p_ch p) + (Y + {#nc#})) = length (p_all p)" by (metis size_mset)
  with len have "int (size (mset (p_ch p))) < p_size p" by simp
  from netns.give_room [OF this, of nc] assms out len show ?thesis
    by (simp add: pool_room_def add.commute add.left_commute)
qed

text \<open>
  What an operation does to the account: \<open>X\<close> is out before it and \<open>X'\<close> afterwards, besides
  whatever else is out.
\<close>

definition moves :: "netnsConfig multiset \<Rightarrow> netnsConfig multiset \<Rightarrow> server \<Rightarrow> server \<Rightarrow> bool" where
  "moves X X' s s' \<longleftrightarrow> (\<forall>Y. pool_room (Y + X) s \<longrightarrow> pool_room (Y + X') s')"

lemma moves_refl [simp]: "moves X X s s"
  by (simp add: moves_def)

lemma moves_trans [trans]: "moves X Y s t \<Longrightarrow> moves Y Z t u \<Longrightarrow> moves X Z s u"
  by (simp add: moves_def)

lemma moves_same: "pool s' = pool s \<Longrightarrow> moves X X s s'"
  by (simp add: moves_def pool_room_cong [of s' s])

text \<open>Taking and giving back changes the pool and the subnet counter only.\<close>

definition net_only :: "server \<Rightarrow> server \<Rightarrow> bool" where
  "net_only s s' \<longleftrightarrow> (\<exists>p n. s' = s\<lparr>pool := p, nextSubnet := n\<rparr>)"

lemma net_only_refl [simp]: "net_only s s"
  unfolding net_only_def by (intro exI [of _ "pool s"] exI [of _ "nextSubnet s"]) simp

lemma net_only_simps [simp]:
  "net_only s (s\<lparr>pool := p\<rparr>)" "net_only s (s\<lparr>nextSubnet := n\<rparr>)"
  unfolding net_only_def
  by (rule exI [of _ p], rule exI [of _ "nextSubnet s"], simp,
      rule exI [of _ "pool s"], rule exI [of _ n], simp)

lemma net_only_trans: "net_only s t \<Longrightarrow> net_only t u \<Longrightarrow> net_only s u"
  unfolding net_only_def by (elim exE) (simp, blast)

lemma net_onlyD:
  "net_only s s' \<Longrightarrow> heap s' = heap s \<and> sandboxes s' = sandboxes s \<and> nextSandboxID s' = nextSandboxID s \<and>
    nextSnapshotID s' = nextSnapshotID s"
  by (auto simp: net_only_def)

text \<open>Giving a namespace back: a pooled one joins the free ones.\<close>

definition given_back :: "netnsConfig option \<Rightarrow> server \<Rightarrow> server \<Rightarrow> bool" where
  "given_back nco s s' \<longleftrightarrow> (case nco of None \<Rightarrow> pool s' = pool s
     | Some nc \<Rightarrow> pool s' = (if Pooled nc then map_option (ch_send nc) (pool s) else pool s))"

definition drawn :: "netnsConfig option \<Rightarrow> netnsConfig multiset" where
  "drawn nco = (case nco of None \<Rightarrow> {#} | Some nc \<Rightarrow> pooled nc)"

lemma given_back_moves:
  assumes "given_back nco s s'"
  shows "moves (drawn nco) {#} s s'"
proof (cases nco)
  case (Some nc)
  show ?thesis
  proof (cases "Pooled nc")
    case True
    have "pool_room (Y + {#nc#}) s \<Longrightarrow> pool_room Y s'" for Y
      using assms Some True pool_room_send [of Y nc s] pool_room_cong [of s' "s\<lparr>pool := pool s'\<rparr>" Y]
      by (cases "pool s") (simp_all add: given_back_def pool_room_def)
    with Some True show ?thesis by (simp add: moves_def drawn_def pooled_def)
  qed (use assms Some in \<open>simp add: given_back_def drawn_def pooled_def moves_same\<close>)
qed (use assms in \<open>simp add: given_back_def drawn_def moves_same\<close>)

lemma wp_releaseNetns:
  "wp (releaseNetns E nco) (\<lambda>_ w'. given_back nco (srv w) (srv w') \<and> net_only (srv w) (srv w')) w"
  by (auto simp: releaseNetns_def pool_Release_def update_pool_def wp_simps given_back_def
      wp_all [of "cleanupSandboxNetnsAndRouting _ _"] split: option.split)

lemma wp_acquireNetns:
  "wp (acquireNetns E sid) (\<lambda>r w'. moves {#} (case r of Inr nc \<Rightarrow> pooled nc | Inl _ \<Rightarrow> {#}) (srv w) (srv w') \<and>
      net_only (srv w) (srv w')) w"
proof -
  have fresh: "pooled nc = {#}" if "run_state (setupSandboxNetnsAndRouting E sid n) h = (Inr nc, h')" for n h nc h'
    using wp_run [OF setup_result that] by (simp add: pooled_def netns_plan_def)
  have bump: "moves X X s (s\<lparr>nextSubnet := n\<rparr>)" for X s n
    by (simp add: moves_def pool_room_def)
  have recv: "moves {#} (pooled nc) s (s\<lparr>pool := Some p'\<rparr>)" if "pool s = Some p" "ch_recv p = Some (nc, p')" for nc s p p'
    using pool_room_recv [OF _ that] by (simp add: moves_def)
  show ?thesis
    by (auto simp: acquireNetns_def pool_Acquire_def next_subnet_def wp_simps wp_all [of "setupSandboxNetnsAndRouting _ _ _"]
        wp_all [of "time_Sleep _ _"] fresh bump recv split: sum.splits option.splits)
qed

text \<open>
  The server's view: out are the pooled namespaces its sandboxes hold, and others, \<open>L\<close>.
\<close>

definition nets :: "sandbox \<Rightarrow> netnsConfig list" where
  "nets sb = (case sb_Netns sb of None \<Rightarrow> [] | Some nc \<Rightarrow> [nc])"

definition held :: "server \<Rightarrow> netnsConfig multiset" where
  "held s = mset (filter Pooled (concat (map nets (heap s))))"

definition pool_ok :: "netnsConfig multiset \<Rightarrow> server \<Rightarrow> bool" where
  "pool_ok L s \<longleftrightarrow> pool_room (L + held s) s"

lemma pool_ok_cong: "pool s' = pool s \<Longrightarrow> held s' = held s \<Longrightarrow> pool_ok L s' = pool_ok L s"
  by (simp add: pool_ok_def pool_room_def split: option.split)

text \<open>
  A request settles the account if no more is out of hand after it than before, but for at most
  one namespace where \<open>lossy\<close> allows it.
\<close>

definition settles :: "bool \<Rightarrow> server \<Rightarrow> server \<Rightarrow> bool" where
  "settles lossy s s' \<longleftrightarrow> (\<forall>L. pool_ok L s \<longrightarrow> pool_ok L s' \<or> lossy \<and> (\<exists>nc. pool_ok (add_mset nc L) s'))"

lemma settles_refl [simp]: "settles b s s"
  by (simp add: settles_def)

lemma settles_cong:
  assumes "pool t = pool s" "held t = held s" "pool t' = pool s'" "held t' = held s'"
  shows "settles b t t' = settles b s s'"
  using pool_ok_cong [OF assms(1,2)] pool_ok_cong [OF assms(3,4)] by (simp only: settles_def)

lemma settles_same: "pool s' = pool s \<Longrightarrow> held s' = held s \<Longrightarrow> settles b s s'"
  using settles_cong [of s s s' s] by simp

lemma settles_moves:
  assumes "moves X X' s s'" "held s = H + X" "held s' = H + X'"
  shows "settles b s s'"
proof -
  have "pool_ok L s'" if "pool_ok L s" for L
    using assms that by (simp add: pool_ok_def moves_def flip: add.assoc)
  then show ?thesis by (simp add: settles_def)
qed

lemma settles_lost:
  assumes "moves {#} (pooled nc) s s'" "held s' = held s"
  shows "settles True s s'"
proof -
  have "pool_ok (L + pooled nc) s'" if "pool_ok L s" for L
  proof -
    have "pool_room (L + held s + pooled nc) s'" using assms(1) that by (simp add: pool_ok_def moves_def)
    then show ?thesis by (simp add: pool_ok_def assms(2) ac_simps)
  qed
  then show ?thesis by (cases "Pooled nc") (auto simp: settles_def pooled_def)
qed


section \<open>Filling the pool\<close>

text \<open>The first \<open>k\<close> entries are built and all of them are free.\<close>

definition filled :: "nat \<Rightarrow> netnsPool \<Rightarrow> bool" where
  "filled k p \<longleftrightarrow> p_ch p = p_all p \<and> \<not> p_stuck p \<and> map Subnet (p_all p) = map int [1..<Suc k] \<and>
     list_all Pooled (p_all p) \<and> int k \<le> p_size p"

lemma filled_length: "filled k p \<Longrightarrow> length (p_all p) = k"
  by (metis filled_def diff_Suc_1 length_map length_upt)

definition add_entry :: "nat \<Rightarrow> netnsConfig \<Rightarrow> netnsPool \<Rightarrow> netnsPool" where
  "add_entry i nc p = ch_send (nc\<lparr>Pooled := True, Subnet := int i\<rparr>)
     (p\<lparr>p_all := p_all p @ [nc\<lparr>Pooled := True, Subnet := int i\<rparr>]\<rparr>)"

lemma add_entry_simps [simp]: "p_size (add_entry i nc p) = p_size p" "p_once (add_entry i nc p) = p_once p"
  by (simp_all add: add_entry_def ch_send_def)

lemma filled_next: "filled k p \<Longrightarrow> int k < p_size p \<Longrightarrow> filled (Suc k) (add_entry (Suc k) nc p)"
  using filled_length [of k p] by (simp add: filled_def add_entry_def ch_send_def)

definition filling :: "server \<Rightarrow> netnsPool \<Rightarrow> nat \<Rightarrow> goerr option \<Rightarrow> server \<Rightarrow> bool" where
  "filling s p k r s' \<longleftrightarrow> (\<exists>p' k'. s' = s\<lparr>pool := Some p'\<rparr> \<and> filled k' p' \<and> p_size p' = p_size p \<and>
     p_once p' = p_once p \<and> (r = None \<longrightarrow> k' = k))"

lemma wp_init_entries:
  assumes "pool (srv w) = Some p" "filled k p" "p_size p = int (k + n)"
  shows "wp (init_entries E (Suc k) n) (\<lambda>r w'. filling (srv w) p (k + n) r (srv w')) w"
  using assms
proof (induction n arbitrary: k p w)
  case 0
  then have "srv w = (srv w)\<lparr>pool := Some p\<rparr>" by simp
  with 0 show ?case by (auto simp: wp_simps filling_def intro!: exI [of _ p] exI [of _ k])
next
  case (Suc n)
  have stop: "filling (srv w) p (k + Suc n) (Some e) (srv w)" for e
    using Suc.prems unfolding filling_def by (intro exI [of _ p] exI [of _ k]) simp
  have rec: "wp (init_entries E (Suc (Suc k)) n) (\<lambda>r w'. filling (srv w) p (k + Suc n) r (srv w')) w1"
    if "srv w1 = (srv w)\<lparr>pool := Some (add_entry (Suc k) nc p)\<rparr>" for w1 nc
  proof (rule wp_mono [OF Suc.IH [of w1 "add_entry (Suc k) nc p" "Suc k"]])
    show "filled (Suc k) (add_entry (Suc k) nc p)"
      using Suc.prems by (intro filled_next) simp_all
  qed (use that Suc.prems in \<open>auto simp: filling_def\<close>)
  show ?case
    using Suc.prems stop
    by (auto simp: wp_simps update_pool_def wp_all [of "cleanupSandboxNetnsAndRouting _ _"]
        wp_all [of "setupSandboxNetnsAndRouting _ _ _"] add_entry_def intro!: rec [simplified])
qed


section \<open>Properties\<close>

text \<open>
  C27: A successful \<open>Init\<close> of a fresh pool of size \<open>n\<close> leaves exactly \<open>n\<close> namespaces in the pool,
  one for each subnet from 1 to \<open>n\<close>, all marked as pooled and all free; no send blocked, and
  nothing else of the server changed.
\<close>

theorem pool_Init_fills:
  assumes "pool (srv w) = Some (newNetnsPool (int n))" "run_state (pool_Init E) w = (None, w')"
  shows "\<exists>p. srv w' = (srv w)\<lparr>pool := Some p\<rparr> \<and> map Subnet (p_all p) = map int [1..<Suc n] \<and>
    list_all Pooled (p_all p) \<and> p_ch p = p_all p \<and> p_size p = int n \<and> \<not> p_stuck p"
proof -
  let ?p = "(newNetnsPool (int n))\<lparr>p_once := True\<rparr>"
  let ?w = "w\<lparr>srv := (srv w)\<lparr>pool := Some ?p\<rparr>\<rparr>"
  have "run_state (init_entries E (Suc 0) n) ?w = (None, w')"
    using assms by (simp add: pool_Init_def newNetnsPool_def update_pool_def)
  moreover have "wp (init_entries E (Suc 0) n) (\<lambda>r w'. filling (srv ?w) ?p (0 + n) r (srv w')) ?w"
    by (rule wp_init_entries) (simp_all add: filled_def newNetnsPool_def)
  ultimately show ?thesis
    by (auto dest!: wp_run simp: filling_def filled_def newNetnsPool_def)
qed

definition demo_world :: "unit world" where
  "demo_world = \<lparr>host = blank_host (), srv = \<lparr>nextSandboxID = 0, nextSnapshotID = 0, nextSubnet = 0, sandboxes = [],
     heap = [], pool = Some (newNetnsPool (int 2))\<rparr>\<rparr>"

lemma calm_init_entries:
  "i + n \<le> 256 \<Longrightarrow> \<exists>w'. run_state (init_entries (calm_env\<lparr>e_ReadFull := rd\<rparr>) i n) w = (None, w') \<and>
     (pool (srv w') = None \<longleftrightarrow> pool (srv w) = None)"
proof (induction n arbitrary: i w)
  case (Suc n)
  have clean: "run_state (cleanupSandboxNetnsAndRouting (calm_env\<lparr>e_ReadFull := rd\<rparr>) (Some nc)) h = (None, h)" for nc h
    unfolding cleanupSandboxNetnsAndRouting_def delete_link_def
    by (simp add: run_defs calm_env_def split: option.split)
  let ?w = "w\<lparr>host := (host w)\<lparr>ticks := Suc (ticks (host w))\<rparr>,
    srv := (srv w)\<lparr>pool := map_option (add_entry i (netns_plan (pool_entry_id i) (int i))) (pool (srv w))\<rparr>\<rparr>"
  have "run_state (init_entries (calm_env\<lparr>e_ReadFull := rd\<rparr>) i (Suc n)) w =
      run_state (init_entries (calm_env\<lparr>e_ReadFull := rd\<rparr>) (Suc i) n) ?w"
    using setup_calm_any [of i rd "pool_entry_id i" "host w"] Suc.prems
    by (simp add: onhost_def clean update_pool_def Let_def add_entry_def [abs_def] option.map_comp comp_def)
  moreover have "pool (srv ?w) = None \<longleftrightarrow> pool (srv w) = None" by simp
  ultimately show ?case using Suc.IH [of "Suc i" ?w] Suc.prems by (simp only: add_Suc_right add_Suc)
qed simp

lemma calm_pool_Init:
  assumes "pool (srv w) = Some (newNetnsPool n)" "n \<le> 255"
  shows "\<exists>w' p. run_state (pool_Init (calm_env\<lparr>e_ReadFull := rd\<rparr>)) w = (None, w') \<and> pool (srv w') = Some p"
proof -
  let ?w = "w\<lparr>srv := (srv w)\<lparr>pool := Some ((newNetnsPool n)\<lparr>p_once := True\<rparr>)\<rparr>\<rparr>"
  have "run_state (pool_Init (calm_env\<lparr>e_ReadFull := rd\<rparr>)) w = run_state (init_entries (calm_env\<lparr>e_ReadFull := rd\<rparr>) 1 (nat n)) ?w"
    using assms by (simp add: pool_Init_def newNetnsPool_def update_pool_def)
  with calm_init_entries [of 1 "nat n" rd ?w] assms(2) show ?thesis by auto
qed

lemma demo_pool_Init:
  "\<exists>w'. run_state (pool_Init calm_env) demo_world = (None, w')"
  using calm_pool_Init [of demo_world 2 "e_ReadFull calm_env"] by (auto simp: demo_world_def)

theorem pool_Init_fills_witness:
  "\<exists>w' p. run_state (pool_Init calm_env) demo_world = (None, w') \<and> pool (srv w') = Some p \<and>
     map Subnet (p_all p) = [1, 2] \<and> p_ch p = p_all p"
proof -
  obtain w' where w': "run_state (pool_Init calm_env) demo_world = (None, w')" using demo_pool_Init by blast
  have "pool (srv demo_world) = Some (newNetnsPool (int 2))" by (simp add: demo_world_def)
  from pool_Init_fills [OF this w'] w' show ?thesis by (auto simp: upt_rec)
qed


section \<open>Namespaces built on demand\<close>

definition first_entry :: netnsConfig where
  "first_entry = (netns_plan (pool_entry_id 1) 1)\<lparr>Pooled := True, Subnet := 1\<rparr>"

text \<open>
  C38: When every pooled namespace is taken, the first namespace built on demand gets subnet 1,
  the subnet of the first entry of the pool, which is in use: the same interface name on the host,
  the same network and the same guest address.
\<close>

theorem fallback_subnet_collides:
  assumes "pool (srv w) = Some p" "first_entry \<in> set (p_all p)" "p_ch p = []" "nextSubnet (srv w) = 0"
    and "run_state (acquireNetns E sid) w = (Inr nc, w')"
  shows "\<exists>m \<in> set (p_all p). VethHost nc = VethHost m \<and> SubnetCIDR nc = SubnetCIDR m \<and> GuestIP nc = GuestIP m"
proof -
  obtain h h' where "run_state (setupSandboxNetnsAndRouting E sid 1) h = (Inr nc, h')"
    using assms by (auto simp: acquireNetns_def pool_Acquire_def ch_recv_def next_subnet_def onhost_def split: prod.splits)
  from wp_run [OF setup_result this] show ?thesis
    by (intro bexI [OF _ assms(2)]) (simp add: first_entry_def netns_plan_def)
qed

definition drained_world :: "unit world" where
  "drained_world = demo_world\<lparr>srv := (srv demo_world)\<lparr>pool := Some ((newNetnsPool 2)\<lparr>p_all := [first_entry]\<rparr>)\<rparr>\<rparr>"

theorem fallback_subnet_collides_witness:
  "\<exists>nc w'. run_state (acquireNetns calm_env ''sb-2'') drained_world = (Inr nc, w') \<and> VethHost nc = VethHost first_entry"
proof -
  have s: "run_state (setupSandboxNetnsAndRouting calm_env ''sb-2'' 1) h = (Inr (netns_plan ''sb-2'' 1), h\<lparr>ticks := Suc (ticks h)\<rparr>)" for h
    using setup_calm_any [of 1 "e_ReadFull calm_env" "''sb-2''" h] by simp
  have p: "pool (srv drained_world) = Some ((newNetnsPool 2)\<lparr>p_all := [first_entry]\<rparr>)" "nextSubnet (srv drained_world) = 0"
    by (simp_all add: drained_world_def demo_world_def)
  obtain w' where w': "run_state (acquireNetns calm_env ''sb-2'') drained_world = (Inr (netns_plan ''sb-2'' 1), w')"
    using p by (simp add: acquireNetns_def pool_Acquire_def ch_recv_def next_subnet_def onhost_def newNetnsPool_def s time_Sleep_def tick_def)
  from fallback_subnet_collides [OF p(1) _ _ p(2) w'] w' show ?thesis by (auto simp: newNetnsPool_def)
qed

end
