(* ===== verification/Lifecycle.thy ===== *)
theory Lifecycle
  imports Server_Types
begin

text \<open>
  \<open>cmd/server/sandbox_lifecycle.go\<close>: the state of a sandbox (running, closing, closed) and its
  count of running execs. Each method holds the sandbox's mutex for its whole body, so each is one
  step on the sandbox record; \<open>waitForExecDrain\<close> is a loop that polls the count.
\<close>

section \<open>The methods as steps on a sandbox\<close>

definition tryStartExec :: "sandbox \<Rightarrow> goerr option \<times> sandbox" where
  "tryStartExec sb =
    (if sb_state sb \<noteq> sandboxStateRunning then (Some (ErrMsg ''sandbox is closing''), sb)
     else (None, sb\<lparr>sb_inFlightExec := sb_inFlightExec sb + 1\<rparr>))"

definition finishExec :: "sandbox \<Rightarrow> sandbox" where
  "finishExec sb = (if sb_inFlightExec sb > 0 then sb\<lparr>sb_inFlightExec := sb_inFlightExec sb - 1\<rparr> else sb)"

definition beginDestroy :: "sandbox \<Rightarrow> bool \<times> sandbox" where
  "beginDestroy sb =
    (if sb_state sb \<noteq> sandboxStateRunning then (False, sb)
     else (True, sb\<lparr>sb_state := sandboxStateClosing\<rparr>))"

definition currentInFlightExec :: "sandbox \<Rightarrow> int" where
  "currentInFlightExec sb = sb_inFlightExec sb"

definition finishDestroy :: "sandbox \<Rightarrow> sandbox" where
  "finishDestroy sb = sb\<lparr>sb_state := sandboxStateClosed\<rparr>"


section \<open>Waiting for running execs\<close>

text \<open>
  The polling loop. \<open>inFlight\<close> gives the count another thread may change while this one sleeps:
  it is read from the host state at each round.
\<close>

function drain_loop :: "'x env \<Rightarrow> ('x host \<Rightarrow> int) \<Rightarrow> int \<Rightarrow> 'x host \<Rightarrow> bool \<times> 'x host" where
  "drain_loop E inFlight deadline h =
    (if inFlight h = 0 then (True, h)
     else case run_state (time_Now E) h of (t, h1) \<Rightarrow>
       if t > deadline then (False, h1)
       else drain_loop E inFlight deadline (snd (run_state (time_Sleep E (10 * Millisecond)) h1)))"
  by pat_completeness auto
termination
  by (relation "measure (\<lambda>(E, f, deadline, h). time_left deadline h)")
     (auto elim!: poll_round [OF sym _ later.refl_R prod.collapse [symmetric]])

declare drain_loop.simps [simp del]

definition waitForExecDrain :: "'x env \<Rightarrow> ('x host \<Rightarrow> int) \<Rightarrow> int \<Rightarrow> ('x host, bool) state" where
  "waitForExecDrain E inFlight timeout = do {
     now \<leftarrow> time_Now E;
     State (drain_loop E inFlight (now + timeout))
   }"


section \<open>Properties\<close>

lemma drain_loop_result:
  "drain_loop E f deadline h = (b, h') \<Longrightarrow> later h h' \<and> (if b then f h' = 0 else deadline < clock h')"
proof (induction E f deadline h rule: drain_loop.induct)
  case (1 E f deadline h)
  obtain t h1 where t: "run_state (time_Now E) h = (t, h1)" by fastforce
  obtain u h2 where u: "run_state (time_Sleep E (10 * Millisecond)) h1 = (u, h2)" by (rule prod.exhaust)
  note now = time_Now_value [OF t] and slept = time_Sleep_passes [OF u]
  consider "f h = 0" | "f h \<noteq> 0" "t > deadline" | "f h \<noteq> 0" "\<not> t > deadline" by linarith
  then show ?case
  proof cases
    case 3
    then have "drain_loop E f deadline h2 = (b, h')"
      using 1(2) t u by (subst (asm) drain_loop.simps) simp
    with 1(1) [OF 3(1) t [symmetric] 3(2)] u have "later h2 h' \<and> (if b then f h' = 0 else deadline < clock h')" by simp
    with now slept show ?thesis by (auto simp: later_def)
  qed (use 1(2) t now in \<open>auto simp: drain_loop.simps [of E f deadline h] later_def\<close>)
qed

text \<open>Without delays of the scheduler, each round finds the clock where the sleep has left it.\<close>

lemma prompt_now: "(\<And>n. e_lag E n = 0) \<Longrightarrow> run_state (time_Now E) h = (t, h') \<Longrightarrow> t = clock h \<and> clock h' = clock h"
  by (auto simp: time_Now_def tick_def)

lemma drain_loop_prompt:
  assumes "\<And>n. e_lag E n = 0" "\<And>h'. T \<le> clock h' \<Longrightarrow> f h' = 0" "T \<le> deadline"
  shows "fst (drain_loop E f deadline h)"
  using assms
proof (induction E f deadline h rule: drain_loop.induct)
  case (1 E f deadline h)
  obtain t h1 where t: "run_state (time_Now E) h = (t, h1)" by fastforce
  have "t = clock h" using prompt_now [OF 1(2) t] by simp
  have "\<not> t > deadline" if "f h \<noteq> 0"
    using 1(3) [of h] 1(4) that \<open>t = clock h\<close> by linarith
  then show ?case
    using 1(1) [OF _ t [symmetric]] 1(2-4) t by (subst drain_loop.simps) auto
qed

text \<open>
  C33: \<open>waitForExecDrain\<close> always returns. It returns true only when no exec is running, and false
  only once the timeout has passed.
\<close>

theorem waitForExecDrain_result:
  assumes "run_state (waitForExecDrain E f timeout) h = (b, h')"
  shows "if b then f h' = 0 else clock h + timeout < clock h'"
proof -
  obtain t h1 where t: "run_state (time_Now E) h = (t, h1)" by fastforce
  with assms drain_loop_result [of E f "t + timeout" h1 b h'] time_Now_value [OF t] show ?thesis
    by (auto simp: waitForExecDrain_def split: if_splits)
qed

text \<open>
  C34: If the running execs are over by some time within the timeout, and the scheduler adds no delays,
  \<open>waitForExecDrain\<close> sees it and returns true.
\<close>

theorem waitForExecDrain_live:
  assumes "\<And>n. e_lag E n = 0" "\<And>h'. T \<le> clock h' \<Longrightarrow> f h' = 0" "T \<le> clock h + timeout"
  shows "fst (run_state (waitForExecDrain E f timeout) h)"
proof -
  obtain t h1 where t: "run_state (time_Now E) h = (t, h1)" by fastforce
  then have "fst (drain_loop E f (t + timeout) h1)"
    using prompt_now [OF assms(1) t] assms by (intro drain_loop_prompt) auto
  with t show ?thesis by (simp add: waitForExecDrain_def)
qed

definition draining :: "unit host \<Rightarrow> int" where
  "draining h = (if clock h < 3 * Millisecond then 2 else 0)"

theorem waitForExecDrain_result_witness:
  "\<exists>h'. run_state (waitForExecDrain calm_env (\<lambda>_. 1) (2 * Second)) (blank_host ()) = (False, h') \<and> 2 * Second < clock h'"
proof -
  obtain b h' where h': "run_state (waitForExecDrain calm_env (\<lambda>_. 1) (2 * Second)) (blank_host ()) = (b, h')" by fastforce
  from waitForExecDrain_result [OF this] show ?thesis
    using h' by (cases b) (simp_all add: blank_host_def)
qed

theorem waitForExecDrain_live_witness:
  "fst (run_state (waitForExecDrain calm_env draining (2 * Second)) (blank_host ()))"
  by (rule waitForExecDrain_live [where T = "3 * Millisecond"]) (simp_all add: calm_env_def draining_def blank_host_def)

end
