(* ===== verification/Sandbox.thy ===== *)
theory Sandbox
  imports Snapshot Netns_Pool Lifecycle
begin

text \<open>
  \<open>cmd/server/sandbox.go\<close> and \<open>restore.go\<close>: creating a sandbox by booting a VM or by restoring
  one from snapshot files, and tearing it down. Every early return of the source is a branch with
  the clean-up its deferred functions do; the timing log of a restore is left out.
\<close>

section \<open>Preparing a sandbox\<close>

definition prepareSandboxRuntimePaths :: "'x env \<Rightarrow> string \<Rightarrow> ('x host, string \<times> string \<times> string) state" where
  "prepareSandboxRuntimePaths E sbDir =
    (let socketPath = Join [sbDir, ''firecracker.sock'']; vsockPath = Join [sbDir, ''vsock.sock''];
         logPath = Join [sbDir, ''firecracker.log''] in do {
     _ \<leftarrow> os_Remove E socketPath;
     _ \<leftarrow> os_Remove E vsockPath;
     return (socketPath, vsockPath, logPath)
   })"

definition openSandboxLog :: "'x env \<Rightarrow> string \<Rightarrow> ('x host, goerr option) state" where
  "openSandboxLog E logPath = do {
     r \<leftarrow> os_OpenTrunc E logPath;
     return (map_option (wrap ''open firecracker log file: '') r)
   }"

definition prepareSandboxCgroup :: "'x env \<Rightarrow> config \<Rightarrow> string \<Rightarrow> ('x host, string) state" where
  "prepareSandboxCgroup E cfg sid =
    (if \<not> EnableCgroups cfg then return []
     else let cg = Join [CgroupRoot cfg, sid] in do {
       r \<leftarrow> os_Mkdir E cg;
       return (if r = None then cg else [])
     })"

definition attachSandboxProcessToCgroup :: "'x env \<Rightarrow> string \<Rightarrow> nat \<Rightarrow> ('x host, string) state" where
  "attachSandboxProcessToCgroup E cgroupPath pid =
    (if cgroupPath = [] then return []
     else do {
       r \<leftarrow> movePidToCgroup E cgroupPath pid;
       case r of
         Some _ \<Rightarrow> do { _ \<leftarrow> os_Remove E cgroupPath; return [] }
       | None \<Rightarrow> return cgroupPath
     })"

definition net_request :: "netnsConfig \<Rightarrow> Request" where
  "net_request nc = zero_Request\<lparr>rq_Type := ''net'',
     rq_Net := Some \<lparr>nr_Interface = ''eth0'', nr_Address = GuestIP nc @ ''/30'', nr_Gateway = HostIP nc,
                     nr_DNS = ''1.1.1.1''\<rparr>\<rparr>"

definition configureSandboxGuestNetwork :: "'x env \<Rightarrow> nat \<Rightarrow> netnsConfig \<Rightarrow> ('x host, goerr option) state" where
  "configureSandboxGuestNetwork E ac nc = do {
     r \<leftarrow> Call E ac (net_request nc) (5 * Second);
     case r of
       Inl e \<Rightarrow> return (Some (wrap ''agent network config failed: '' e))
     | Inr _ \<Rightarrow> return None
   }"

text \<open>
  The two goroutines that clone the disk and acquire the namespace; the scheduler decides which
  one runs first. Both results are awaited before either is looked at.
\<close>

definition clone_and_acquire ::
  "'x env \<Rightarrow> config \<Rightarrow> string \<Rightarrow> string \<Rightarrow> string \<Rightarrow> string \<Rightarrow> ('x world, goerr option \<times> netnsConfig res) state" where
  "clone_and_acquire E cfg sid src dst label = do {
     diskFirst \<leftarrow> gets (\<lambda>w. e_sched E (ticks (host w)));
     if diskFirst then do {
       c \<leftarrow> onhost (materializeSandboxRootfs E cfg src dst);
       n \<leftarrow> acquireNetns E sid;
       return (map_option (wrap label) c, n)
     } else do {
       n \<leftarrow> acquireNetns E sid;
       c \<leftarrow> onhost (materializeSandboxRootfs E cfg src dst);
       return (map_option (wrap label) c, n)
     }
   }"

definition sandbox_dir :: "config \<Rightarrow> string \<Rightarrow> string" where
  "sandbox_dir cfg sid = Join [WorkDir cfg, ''sandboxes'', sid]"

definition new_sandbox ::
  "string \<Rightarrow> netnsConfig \<Rightarrow> 32 word \<Rightarrow> string \<Rightarrow> string \<times> string \<times> string \<Rightarrow> string \<Rightarrow> string \<Rightarrow> string \<Rightarrow> nat \<Rightarrow> nat \<Rightarrow> sandbox" where
  "new_sandbox sid nc cid sbDir paths configPath rootfs cgroupPath pid ac =
    (case paths of (socketPath, vsockPath, logPath) \<Rightarrow>
     \<lparr>sb_ID = sid, sb_Subnet = Subnet nc, sb_TapDevice = TapName nc, sb_HostIP = HostIP nc, sb_GuestIP = GuestIP nc,
      sb_GuestCID = cid, sb_Netns = Some nc, sb_Dir = sbDir, sb_SocketPath = socketPath, sb_VsockPath = vsockPath,
      sb_ConfigPath = configPath, sb_RootfsPath = rootfs, sb_LogPath = logPath, sb_CgroupPath = cgroupPath,
      sb_Process = Some pid, sb_SSHClient = None, sb_Agent = Some ac, sb_state = sandboxStateRunning,
      sb_inFlightExec = 0\<rparr>)"


section \<open>Booting a VM\<close>

text \<open>
  From the acquired namespace on. The second result is the value of \<open>cleanupNet\<close> at the return:
  whether the deferred function still has to release the namespace.
\<close>

definition boot_vm :: "'x env \<Rightarrow> config \<Rightarrow> string \<Rightarrow> string \<Rightarrow> string \<Rightarrow> netnsConfig \<Rightarrow> ('x host, sandbox res \<times> bool) state" where
  "boot_vm E cfg sid sbDir rootfsCopy nc =
    (let configPath = Join [sbDir, ''vm-config.json'']; cid = word_of_int (1000 + Subnet nc) in do {
     w \<leftarrow> writeVMConfig E configPath cfg (TapName nc) ''rootfs.ext4'' (Subnet nc) ''vsock.sock'' cid;
     case w of Some e \<Rightarrow> return (Inl (wrap ''write vm config: '' e), True) | None \<Rightarrow> do {
     paths \<leftarrow> prepareSandboxRuntimePaths E sbDir;
     l \<leftarrow> openSandboxLog E (snd (snd paths));
     case l of Some e \<Rightarrow> return (Inl e, True) | None \<Rightarrow> do {
     cg0 \<leftarrow> prepareSandboxCgroup E cfg sid;
     s \<leftarrow> cmd_Start E (fc_argv cfg nc True) sbDir;
     case s of Inl e \<Rightarrow> return (Inl (wrap ''start firecracker: '' e), True) | Inr pid \<Rightarrow> do {
     cg \<leftarrow> attachSandboxProcessToCgroup E cg0 pid;
     a \<leftarrow> waitForAgentReady E (fst (snd paths)) (AgentPort cfg) (AgentWaitTimeout cfg) (AgentDialTimeout cfg);
     case a of
       Inl e \<Rightarrow> do {
         _ \<leftarrow> killProcessGroup E (Some pid);
         _ \<leftarrow> killCgroup E cg;
         _ \<leftarrow> cleanupSandboxNetnsAndRouting E (Some nc);
         return (Inl (wrap ''wait for agent: '' e), False)
       }
     | Inr ac \<Rightarrow> do {
     n \<leftarrow> configureSandboxGuestNetwork E ac nc;
     case n of
       Some e \<Rightarrow> do {
         _ \<leftarrow> agent_Close E (Some ac);
         _ \<leftarrow> killProcessGroup E (Some pid);
         _ \<leftarrow> killCgroup E cg;
         _ \<leftarrow> cleanupSandboxNetnsAndRouting E (Some nc);
         return (Inl e, False)
       }
     | None \<Rightarrow> return (Inr (new_sandbox sid nc cid sbDir paths configPath rootfsCopy cg pid ac), False)
     }}}}
   })"

text \<open>
  The frame both ways of creating a sandbox share: make its directory, clone and acquire, run the
  rest, and undo on failure: release the namespace if it is still held, then remove the directory
  unless it is to be kept.
\<close>

definition with_netns_and_disk ::
  "'x env \<Rightarrow> (netnsConfig \<Rightarrow> ('x host, sandbox res \<times> bool) state) \<Rightarrow> goerr option \<times> netnsConfig res \<Rightarrow> ('x world, sandbox res) state" where
  "with_netns_and_disk E rest prepared =
    (case prepared of (c, n) \<Rightarrow>
     (case n of
        Inl e \<Rightarrow> return (Inl (case c of Some ce \<Rightarrow> ce | None \<Rightarrow> e))
      | Inr nc \<Rightarrow>
        (case c of
           Some ce \<Rightarrow> do { releaseNetns E (Some nc); return (Inl ce) }
         | None \<Rightarrow> do {
             (r, cleanupNet) \<leftarrow> onhost (rest nc);
             (if cleanupNet then releaseNetns E (Some nc) else return ());
             return r
           })))"

definition keep_or_remove :: "'x env \<Rightarrow> string \<Rightarrow> bool \<Rightarrow> sandbox res \<Rightarrow> ('x world, nat res) state" where
  "keep_or_remove E sbDir keepDir r =
    (case r of
       Inl e \<Rightarrow> do {
         (if keepDir then return () else do { _ \<leftarrow> onhost (os_RemoveAll E sbDir); return () });
         return (Inl e)
       }
     | Inr sb \<Rightarrow> do { a \<leftarrow> sb_alloc sb; return (Inr a) })"

definition create_in_dir ::
  "'x env \<Rightarrow> config \<Rightarrow> string \<Rightarrow> string \<Rightarrow> string \<Rightarrow> bool \<Rightarrow>
    (string \<Rightarrow> string \<Rightarrow> netnsConfig \<Rightarrow> ('x host, sandbox res \<times> bool) state) \<Rightarrow> ('x world, nat res) state" where
  "create_in_dir E cfg sid src label keepDir rest =
    (let sbDir = sandbox_dir cfg sid; rootfsCopy = Join [sbDir, ''rootfs.ext4''] in do {
     m \<leftarrow> onhost (os_MkdirAll E sbDir);
     case m of Some e \<Rightarrow> return (Inl (wrap ''create sandbox dir: '' e)) | None \<Rightarrow> do {
     prepared \<leftarrow> clone_and_acquire E cfg sid src rootfsCopy label;
     r \<leftarrow> with_netns_and_disk E (rest sbDir rootfsCopy) prepared;
     keep_or_remove E sbDir keepDir r
     }
   })"


section \<open>Restoring a VM\<close>

text \<open>The failures after Firecracker has started.\<close>

definition abort_vm :: "'x env \<Rightarrow> nat \<Rightarrow> string \<Rightarrow> goerr \<Rightarrow> ('x host, sandbox res \<times> bool) state" where
  "abort_vm E pid cg e = do {
     _ \<leftarrow> killProcessGroup E (Some pid);
     _ \<leftarrow> killCgroup E cg;
     return (Inl e, True)
   }"

definition restore_vm ::
  "'x env \<Rightarrow> config \<Rightarrow> string \<Rightarrow> string \<Rightarrow> string \<Rightarrow> string \<Rightarrow> string \<Rightarrow> netnsConfig \<Rightarrow> ('x host, sandbox res \<times> bool) state" where
  "restore_vm E cfg sid stateFile memFile sbDir rootfsCopy nc = do {
     paths \<leftarrow> prepareSandboxRuntimePaths E sbDir;
     l \<leftarrow> openSandboxLog E (snd (snd paths));
     case l of Some e \<Rightarrow> return (Inl e, True) | None \<Rightarrow> do {
     cg0 \<leftarrow> prepareSandboxCgroup E cfg sid;
     s \<leftarrow> cmd_Start E (fc_argv cfg nc False) sbDir;
     case s of Inl e \<Rightarrow> return (Inl (wrap ''start firecracker: '' e), True) | Inr pid \<Rightarrow> do {
     k \<leftarrow> waitForUnixSocketReady E (fst paths) (1500 * Millisecond);
     case k of Some e \<Rightarrow> abort_vm E pid cg0 (wrap ''firecracker api socket not ready: '' e) | None \<Rightarrow> do {
     cg \<leftarrow> attachSandboxProcessToCgroup E cg0 pid;
     let fc = newFCClient (fst paths) (10 * Second);
     ld \<leftarrow> loadSnapshotWithRetry E fc stateFile memFile True (1500 * Millisecond);
     case ld of Some e \<Rightarrow> abort_vm E pid cg (wrap ''load snapshot: '' e) | None \<Rightarrow> do {
     a \<leftarrow> waitForAgentReady E (fst (snd paths)) (AgentPort cfg) (AgentWaitTimeout cfg) (AgentDialTimeout cfg);
     case a of Inl e \<Rightarrow> abort_vm E pid cg (wrap ''wait for agent after snapshot: '' e) | Inr ac \<Rightarrow> do {
     n \<leftarrow> configureSandboxGuestNetwork E ac nc;
     case n of
       Some e \<Rightarrow> do { _ \<leftarrow> agent_Close E (Some ac); abort_vm E pid cg e }
     | None \<Rightarrow> return (Inr (new_sandbox sid nc 3 sbDir paths [] rootfsCopy cg pid ac), False)
     }}}}}
   }"

definition restoreSandboxFromArtifacts ::
  "'x env \<Rightarrow> config \<Rightarrow> string \<Rightarrow> string \<Rightarrow> string \<Rightarrow> string \<Rightarrow> string \<Rightarrow> bool \<Rightarrow> ('x world, nat res) state" where
  "restoreSandboxFromArtifacts E cfg sid diskSrcPath stateFile memFile cloneErrLabel keepFailedSandboxDir =
    create_in_dir E cfg sid diskSrcPath (cloneErrLabel @ '': '') keepFailedSandboxDir
      (restore_vm E cfg sid stateFile memFile)"

definition createSandboxFromSnapshot :: "'x env \<Rightarrow> config \<Rightarrow> string \<Rightarrow> ('x world, nat res) state" where
  "createSandboxFromSnapshot E cfg sid = do {
     r \<leftarrow> onhost (ensureSnapshot E cfg);
     case r of
       Inl e \<Rightarrow> return (Inl e)
     | Inr sp \<Rightarrow> restoreSandboxFromArtifacts E cfg sid (sp_BaseDisk sp) (sp_StateFile sp) (sp_MemFile sp)
         ''clone snapshot base disk'' (KeepFailedSandboxes cfg)
   }"

definition createSandbox :: "'x env \<Rightarrow> config \<Rightarrow> string \<Rightarrow> ('x world, nat res) state" where
  "createSandbox E cfg sid =
    (if EnableSnapshots cfg then createSandboxFromSnapshot E cfg sid
     else create_in_dir E cfg sid (BaseRootfsPath cfg) ''copy rootfs: '' False (boot_vm E cfg sid))"


section \<open>Tearing a sandbox down\<close>

text \<open>Waiting for the killed process, at most five seconds.\<close>

definition reap :: "'x env \<Rightarrow> nat option \<Rightarrow> ('x host, string list) state" where
  "reap E proc =
    (case proc of None \<Rightarrow> return [] | Some pid \<Rightarrow> do {
     _ \<leftarrow> killProcessGroup E (Some pid);
     r \<leftarrow> cmd_Wait E pid (Some (5 * Second));
     return (case r of
         None \<Rightarrow> [''timed out waiting for firecracker process exit'']
       | Some None \<Rightarrow> []
       | Some (Some e) \<Rightarrow> if errors_As_ExitError e = None then [''wait firecracker: '' @ Error e] else [])
   })"

definition kill_sandbox_cgroup :: "'x env \<Rightarrow> string \<Rightarrow> ('x host, string list) state" where
  "kill_sandbox_cgroup E cg =
    (if cg = [] then return []
     else do { r \<leftarrow> killCgroup E cg; return (case r of None \<Rightarrow> [] | Some e \<Rightarrow> [''kill cgroup: '' @ Error e]) })"

definition cleanupSandbox :: "'x env \<Rightarrow> nat \<Rightarrow> ('x world, goerr option) state" where
  "cleanupSandbox E a = do {
     sb \<leftarrow> sb_at a;
     _ \<leftarrow> onhost (agent_Close E (sb_Agent sb));
     sb_modify a (\<lambda>s. s\<lparr>sb_Agent := None\<rparr>);
     (case sb_SSHClient sb of None \<Rightarrow> return () | Some c \<Rightarrow> do { _ \<leftarrow> onhost (outside (e_ssh_CloseClient E c)); return () });
     errs1 \<leftarrow> onhost (kill_sandbox_cgroup E (sb_CgroupPath sb));
     errs2 \<leftarrow> onhost (reap E (sb_Process sb));
     _ \<leftarrow> onhost (if sb_CgroupPath sb = [] then return None else removeCgroupDir E (sb_CgroupPath sb) (1500 * Millisecond));
     releaseNetns E (sb_Netns sb);
     sb_modify a (\<lambda>s. s\<lparr>sb_Netns := None\<rparr>);
     r \<leftarrow> onhost (os_RemoveAll E (sb_Dir sb));
     let errs = errs1 @ errs2 @ (case r of None \<Rightarrow> [] | Some e \<Rightarrow> [''remove sandbox dir: '' @ Error e]);
     return (if errs \<noteq> [] then Some (ErrMsg (strings_Join errs ''; '')) else None)
   }"

definition destroyExecDrainTimeout :: int where
  "destroyExecDrainTimeout = 2 * Second"

definition begin_destroy :: "nat \<Rightarrow> ('x world, bool) state" where
  "begin_destroy a = do {
     sb \<leftarrow> sb_at a;
     sb_modify a (\<lambda>s. snd (beginDestroy s));
     return (fst (beginDestroy sb))
   }"

text \<open>No other handler runs here, so the count of running execs does not change while waiting.\<close>

definition wait_drain :: "'x env \<Rightarrow> nat \<Rightarrow> ('x world, bool) state" where
  "wait_drain E a = do {
     sb \<leftarrow> sb_at a;
     onhost (waitForExecDrain E (\<lambda>_. currentInFlightExec sb) destroyExecDrainTimeout)
   }"

fun destroy_each :: "'x env \<Rightarrow> nat list \<Rightarrow> ('x world, unit) state" where
  "destroy_each E [] = return ()"
| "destroy_each E (a # as) = do {
     began \<leftarrow> begin_destroy a;
     _ \<leftarrow> (if began then wait_drain E a else return True);
     _ \<leftarrow> cleanupSandbox E a;
     sb_modify a finishDestroy;
     destroy_each E as
   }"

definition destroyAll :: "'x env \<Rightarrow> ('x world, unit) state" where
  "destroyAll E = do {
     all \<leftarrow> gets (\<lambda>w. sort_key (e_rank E (ticks (host w))) (map snd (sandboxes (srv w))));
     modify_srv (\<lambda>s. s\<lparr>sandboxes := []\<rparr>);
     destroy_each E all
   }"

end
