(* ===== verification/User_Snapshot.thy ===== *)
theory User_Snapshot
  imports Sandbox
begin

text \<open>
  The part of \<open>cmd/server/user_snapshot.go\<close> below its HTTP handlers: identifiers and paths of user
  snapshots, taking one from a sandbox, and writing, loading and listing their metadata.
\<close>

section \<open>Identifiers and paths\<close>

definition alnum :: "char \<Rightarrow> bool" where
  "alnum c \<longleftrightarrow> (CHR ''A'' \<le> c \<and> c \<le> CHR ''Z'') \<or> (CHR ''a'' \<le> c \<and> c \<le> CHR ''z'') \<or> (CHR ''0'' \<le> c \<and> c \<le> CHR ''9'')"

text \<open>\<open>^[A-Za-z0-9][A-Za-z0-9.\_-]{0,127}$\<close>\<close>

definition snapshotIDPattern :: "string \<Rightarrow> bool" where
  "snapshotIDPattern s =
    (case s of [] \<Rightarrow> False
     | c # r \<Rightarrow> alnum c \<and> length r \<le> 127 \<and> list_all (\<lambda>d. alnum d \<or> d \<in> set ''._-'') r)"

definition normalizeSnapshotID :: "string \<Rightarrow> string res" where
  "normalizeSnapshotID raw =
    (let sid = TrimSpace raw in
     if sid = [] then Inl (ErrMsg ''snapshot_id is required'')
     else if \<not> snapshotIDPattern sid then Inl (ErrMsg ''invalid snapshot_id'')
     else Inr sid)"

definition userSnapshotsDir :: "string \<Rightarrow> string" where
  "userSnapshotsDir workDir = Join [workDir, ''user-snapshots'']"

definition userSnapshotRootDir :: "string \<Rightarrow> string \<Rightarrow> string" where
  "userSnapshotRootDir workDir snapshotID = Join [userSnapshotsDir workDir, snapshotID]"

definition userSnapshotMetaPath :: "string \<Rightarrow> string \<Rightarrow> string" where
  "userSnapshotMetaPath workDir snapshotID = Join [userSnapshotRootDir workDir snapshotID, ''meta.json'']"


section \<open>Metadata\<close>

record userSnapshotMeta =
  um_SnapshotID :: string
  um_Name :: string
  um_CreatedAt :: string
  um_StateFile :: string
  um_MemFile :: string
  um_DiskFile :: string
  um_LineageID :: string
  um_SourceSandboxID :: string
  um_SourceRootfsPath :: string

definition json_userSnapshotMeta :: "userSnapshotMeta \<Rightarrow> json" where
  "json_userSnapshotMeta m = JObj
    ([(''snapshot_id'', JStr (um_SnapshotID m))] @ omit_str ''name'' (um_Name m) @
     [(''created_at'', JStr (um_CreatedAt m)), (''state_file'', JStr (um_StateFile m)),
      (''mem_file'', JStr (um_MemFile m)), (''disk_file'', JStr (um_DiskFile m)),
      (''lineage_id'', JStr (um_LineageID m)), (''source_sandbox_id'', JStr (um_SourceSandboxID m)),
      (''source_rootfs_path'', JStr (um_SourceRootfsPath m))])"

definition zero_userSnapshotMeta :: userSnapshotMeta where
  "zero_userSnapshotMeta = \<lparr>um_SnapshotID = [], um_Name = [], um_CreatedAt = [], um_StateFile = [], um_MemFile = [],
     um_DiskFile = [], um_LineageID = [], um_SourceSandboxID = [], um_SourceRootfsPath = []\<rparr>"

definition dec_userSnapshotMeta :: "userSnapshotMeta decoder" where
  "dec_userSnapshotMeta = dec_struct False
    [(''snapshot_id'', field um_SnapshotID um_SnapshotID_update dec_string),
     (''name'', field um_Name um_Name_update dec_string),
     (''created_at'', field um_CreatedAt um_CreatedAt_update dec_string),
     (''state_file'', field um_StateFile um_StateFile_update dec_string),
     (''mem_file'', field um_MemFile um_MemFile_update dec_string),
     (''disk_file'', field um_DiskFile um_DiskFile_update dec_string),
     (''lineage_id'', field um_LineageID um_LineageID_update dec_string),
     (''source_sandbox_id'', field um_SourceSandboxID um_SourceSandboxID_update dec_string),
     (''source_rootfs_path'', field um_SourceRootfsPath um_SourceRootfsPath_update dec_string)]"

definition writeUserSnapshotMeta :: "'x env \<Rightarrow> config \<Rightarrow> userSnapshotMeta \<Rightarrow> ('x host, goerr option) state" where
  "writeUserSnapshotMeta E cfg meta =
    write_meta E (userSnapshotMetaPath (WorkDir cfg) (um_SnapshotID meta)) (json_userSnapshotMeta meta)"

text \<open>The part of \<open>loadUserSnapshotMeta\<close> after the file is read.\<close>

definition parse_userSnapshotMeta :: "string \<Rightarrow> string \<Rightarrow> userSnapshotMeta res" where
  "parse_userSnapshotMeta snapshotID raw =
    (case Unmarshal dec_userSnapshotMeta zero_userSnapshotMeta raw of
       None \<Rightarrow> Inl (wrap ''decode snapshot metadata: '' json_error)
     | Some meta \<Rightarrow> Inr (if TrimSpace (um_SnapshotID meta) = [] then meta\<lparr>um_SnapshotID := snapshotID\<rparr> else meta))"

definition loadUserSnapshotMeta :: "'x env \<Rightarrow> config \<Rightarrow> string \<Rightarrow> ('x host, userSnapshotMeta res) state" where
  "loadUserSnapshotMeta E cfg snapshotID0 =
    (case normalizeSnapshotID snapshotID0 of
       Inl e \<Rightarrow> return (Inl e)
     | Inr snapshotID \<Rightarrow> do {
         r \<leftarrow> os_ReadFile E (userSnapshotMetaPath (WorkDir cfg) snapshotID);
         case r of
           Inl e \<Rightarrow> return (Inl (wrap ''read snapshot metadata: '' e))
         | Inr raw \<Rightarrow> return (parse_userSnapshotMeta snapshotID raw)
       })"

text \<open>
  \<open>sort.Slice\<close> with \<open>CreatedAt >\<close>: descending by the text of the time. The order of entries with
  the same text is unspecified in Go; here they keep the order of the directory.
\<close>

definition sort_desc :: "('a \<Rightarrow> 'k::linorder) \<Rightarrow> 'a list \<Rightarrow> 'a list" where
  "sort_desc key xs = rev (sort_key key (rev xs))"

fun load_each :: "'x env \<Rightarrow> config \<Rightarrow> (string \<times> bool) list \<Rightarrow> ('x host, userSnapshotMeta list) state" where
  "load_each E cfg [] = return []"
| "load_each E cfg ((name, isDir) # es) =
    (if \<not> isDir then load_each E cfg es
     else do {
       m \<leftarrow> loadUserSnapshotMeta E cfg name;
       out \<leftarrow> load_each E cfg es;
       return (case m of Inl _ \<Rightarrow> out | Inr meta \<Rightarrow> meta # out)
     })"

definition listUserSnapshots :: "'x env \<Rightarrow> config \<Rightarrow> ('x host, userSnapshotMeta list res) state" where
  "listUserSnapshots E cfg = do {
     r \<leftarrow> os_ReadDir E (userSnapshotsDir (WorkDir cfg));
     case r of
       Inl e \<Rightarrow> if os_IsNotExist e then return (Inr []) else return (Inl (wrap ''read snapshot directory: '' e))
     | Inr entries \<Rightarrow> do {
         out \<leftarrow> load_each E cfg entries;
         return (Inr (sort_desc um_CreatedAt out))
       }
   }"


section \<open>Taking a snapshot\<close>

text \<open>
  With the VM paused. The second result is \<open>resumeNeeded\<close> at the return: whether the deferred
  function still has to resume the VM.
\<close>

definition snapshot_paused :: "'x env \<Rightarrow> config \<Rightarrow> fcClient \<Rightarrow> sandbox \<Rightarrow> string \<Rightarrow> string \<Rightarrow> ('x host, userSnapshotMeta res \<times> bool) state" where
  "snapshot_paused E cfg fc sb snapshotID name =
    (let rootDir = userSnapshotRootDir (WorkDir cfg) snapshotID; stateFile = Join [rootDir, ''state.snap''];
         memFile = Join [rootDir, ''mem.snap'']; diskFile = Join [rootDir, ''disk.ext4''] in do {
     _ \<leftarrow> os_Remove E stateFile;
     _ \<leftarrow> os_Remove E memFile;
     _ \<leftarrow> os_Remove E diskFile;
     c \<leftarrow> createFullSnapshot E fc stateFile memFile;
     case c of Some e \<Rightarrow> return (Inl (wrap ''create user snapshot: '' e), True) | None \<Rightarrow> do {
     d \<leftarrow> materializeSandboxRootfs E cfg (sb_RootfsPath sb) diskFile;
     case d of Some e \<Rightarrow> return (Inl (wrap ''persist snapshot disk: '' e), True) | None \<Rightarrow> do {
     now \<leftarrow> time_Now E;
     let meta = \<lparr>um_SnapshotID = snapshotID, um_Name = TrimSpace name, um_CreatedAt = RFC3339Nano now,
       um_StateFile = stateFile, um_MemFile = memFile, um_DiskFile = diskFile,
       um_LineageID = BaseRootfsLineageID cfg, um_SourceSandboxID = sb_ID sb, um_SourceRootfsPath = sb_RootfsPath sb\<rparr>;
     w \<leftarrow> writeUserSnapshotMeta E cfg meta;
     case w of Some e \<Rightarrow> return (Inl e, True) | None \<Rightarrow> do {
     r \<leftarrow> resumeVM E fc;
     case r of Some e \<Rightarrow> return (Inl (wrap ''resume vm after snapshot: '' e), True) | None \<Rightarrow> return (Inr meta, False)
     }}}
   })"

definition take_snapshot :: "'x env \<Rightarrow> config \<Rightarrow> sandbox \<Rightarrow> string \<Rightarrow> string \<Rightarrow> ('x host, userSnapshotMeta res) state" where
  "take_snapshot E cfg sb snapshotID name = do {
     m \<leftarrow> os_MkdirAll E (userSnapshotRootDir (WorkDir cfg) snapshotID);
     case m of Some e \<Rightarrow> return (Inl (wrap ''create snapshot dir: '' e)) | None \<Rightarrow> do {
     let fc = newFCClient (sb_SocketPath sb) (10 * Second);
     p \<leftarrow> pauseVM E fc;
     case p of Some e \<Rightarrow> return (Inl (wrap ''pause vm: '' e)) | None \<Rightarrow> do {
     (r, resumeNeeded) \<leftarrow> snapshot_paused E cfg fc sb snapshotID name;
     (if resumeNeeded then do { _ \<leftarrow> resumeVM E fc; return () } else return ());
     return r
     }}
   }"

definition createUserSnapshotFromSandbox :: "'x env \<Rightarrow> config \<Rightarrow> nat \<Rightarrow> string \<Rightarrow> string \<Rightarrow> ('x world, userSnapshotMeta res) state" where
  "createUserSnapshotFromSandbox E cfg a snapshotID name = do {
     sb \<leftarrow> sb_at a;
     _ \<leftarrow> onhost (agent_Close E (sb_Agent sb));
     sb_modify a (\<lambda>s. s\<lparr>sb_Agent := None\<rparr>);
     onhost (take_snapshot E cfg sb snapshotID name)
   }"

text \<open>\<open>createSandboxFromUserSnapshot\<close> of \<open>restore.go\<close>.\<close>

fun first_missing :: "'x env \<Rightarrow> string list \<Rightarrow> ('x host, string option) state" where
  "first_missing E [] = return None"
| "first_missing E (p # ps) = do {
     ok \<leftarrow> fileExists E p;
     if \<not> ok then return (Some p) else first_missing E ps
   }"

definition createSandboxFromUserSnapshot :: "'x env \<Rightarrow> config \<Rightarrow> string \<Rightarrow> userSnapshotMeta \<Rightarrow> ('x world, nat res) state" where
  "createSandboxFromUserSnapshot E cfg sid meta = do {
     missing \<leftarrow> onhost (first_missing E [um_StateFile meta, um_MemFile meta, um_DiskFile meta]);
     case missing of
       Some p \<Rightarrow> return (Inl (ErrMsg (''snapshot artifact missing: '' @ p)))
     | None \<Rightarrow> restoreSandboxFromArtifacts E cfg sid (um_DiskFile meta) (um_StateFile meta) (um_MemFile meta)
         ''clone user snapshot disk'' False
   }"

end
