(* ===== verification/SSH.thy ===== *)
theory SSH
  imports Server_Types
begin

text \<open>
  \<open>cmd/server/sshutil.go\<close>: the debug transport over ssh. The ssh package is the environment;
  clients and sessions are the numbers it returns.
\<close>

text \<open>\<open>net.JoinHostPort\<close>.\<close>

definition JoinHostPort :: "string \<Rightarrow> string \<Rightarrow> string" where
  "JoinHostPort hst port =
    (if CHR '':'' \<in> set hst then ''['' @ hst @ '']:'' @ port else hst @ '':'' @ port)"

definition dialSSH :: "'x env \<Rightarrow> string \<Rightarrow> string \<Rightarrow> int \<Rightarrow> ('x host, nat res) state" where
  "dialSSH E ipaddr keyPath dialTimeout = do {
     k \<leftarrow> os_ReadFile E keyPath;
     case k of Inl e \<Rightarrow> return (Inl (wrap ''read ssh key: '' e)) | Inr key \<Rightarrow>
     (case e_ssh_ParseKey E key of Some e \<Rightarrow> return (Inl (wrap ''parse ssh key: '' e)) | None \<Rightarrow>
      outside (e_ssh_Dial E (JoinHostPort ipaddr ''22'') dialTimeout))
   }"

lemma later_dialSSH [clock_monos]: "keeps later (dialSSH E i k t)"
  unfolding dialSSH_def by (intro later.keeps_rules clock_monos)

function ssh_exec_loop ::
  "'x env \<Rightarrow> string \<Rightarrow> string \<Rightarrow> int \<Rightarrow> int \<Rightarrow> goerr option \<Rightarrow> 'x host \<Rightarrow> (goerr option + nat) \<times> 'x host" where
  "ssh_exec_loop E ipaddr keyPath dialTimeout deadline lastErr h =
    (case run_state (time_Now E) h of (t, h1) \<Rightarrow>
     if \<not> t < deadline then (Inl lastErr, h1)
     else case run_state (dialSSH E ipaddr keyPath dialTimeout) h1 of
       (Inr c, h2) \<Rightarrow> (Inr c, h2)
     | (Inl e, h2) \<Rightarrow>
         ssh_exec_loop E ipaddr keyPath dialTimeout deadline (Some e)
           (snd (run_state (time_Sleep E (150 * Millisecond)) h2)))"
  by pat_completeness auto
termination
  by (relation "measure (\<lambda>(E, i, k, dt, deadline, l, h). time_left deadline h)")
     (auto elim!: poll_round [OF sym _ keepsD [OF later_dialSSH sym] prod.collapse [symmetric]])

declare ssh_exec_loop.simps [simp del]

definition waitForExecSSH :: "'x env \<Rightarrow> string \<Rightarrow> string \<Rightarrow> int \<Rightarrow> int \<Rightarrow> ('x host, nat res) state" where
  "waitForExecSSH E ipaddr keyPath timeout dialTimeout =
    (let addr = JoinHostPort ipaddr ''22'' in do {
     now \<leftarrow> time_Now E;
     r \<leftarrow> State (ssh_exec_loop E ipaddr keyPath dialTimeout (now + timeout) None);
     return (case r of
         Inr c \<Rightarrow> Inr c
       | Inl (Some e) \<Rightarrow> Inl (wrap (''dial '' @ addr @ '' failed for '' @ Duration_String timeout @ '': '') e)
       | Inl None \<Rightarrow> Inl (ErrMsg (''dial '' @ addr @ '' failed for '' @ Duration_String timeout)))
   })"

text \<open>One round of \<open>waitForSSH\<close>: a client counts only once a command has run over it.\<close>

definition try_ssh :: "'x env \<Rightarrow> string \<Rightarrow> string \<Rightarrow> int \<Rightarrow> ('x host, nat option) state" where
  "try_ssh E ipaddr keyPath dialTimeout = do {
     d \<leftarrow> dialSSH E ipaddr keyPath dialTimeout;
     case d of
       Inl _ \<Rightarrow> return None
     | Inr client \<Rightarrow> do {
         s \<leftarrow> outside (e_ssh_NewSession E client);
         ok \<leftarrow> (case s of
             Inl _ \<Rightarrow> return False
           | Inr session \<Rightarrow> do {
               r \<leftarrow> outside (e_ssh_Run E session ''true'');
               _ \<leftarrow> outside (e_ssh_CloseSession E session);
               return (r = None)
             });
         if ok then return (Some client)
         else do { _ \<leftarrow> outside (e_ssh_CloseClient E client); return None }
       }
   }"

lemma later_try_ssh [clock_monos]: "keeps later (try_ssh E i k t)"
  unfolding try_ssh_def by (intro later.keeps_rules clock_monos)

function ssh_loop :: "'x env \<Rightarrow> string \<Rightarrow> string \<Rightarrow> int \<Rightarrow> int \<Rightarrow> 'x host \<Rightarrow> nat option \<times> 'x host" where
  "ssh_loop E ipaddr keyPath dialTimeout deadline h =
    (case run_state (time_Now E) h of (t, h1) \<Rightarrow>
     if \<not> t < deadline then (None, h1)
     else case run_state (try_ssh E ipaddr keyPath dialTimeout) h1 of
       (Some c, h2) \<Rightarrow> (Some c, h2)
     | (None, h2) \<Rightarrow>
         ssh_loop E ipaddr keyPath dialTimeout deadline (snd (run_state (time_Sleep E (100 * Millisecond)) h2)))"
  by pat_completeness auto
termination
  by (relation "measure (\<lambda>(E, i, k, dt, deadline, h). time_left deadline h)")
     (auto elim!: poll_round [OF sym _ keepsD [OF later_try_ssh sym] prod.collapse [symmetric]])

declare ssh_loop.simps [simp del]

definition waitForSSH :: "'x env \<Rightarrow> string \<Rightarrow> string \<Rightarrow> int \<Rightarrow> int \<Rightarrow> ('x host, nat res) state" where
  "waitForSSH E ipaddr keyPath timeout dialTimeout = do {
     now \<leftarrow> time_Now E;
     r \<leftarrow> State (ssh_loop E ipaddr keyPath dialTimeout (now + timeout));
     return (case r of
         Some c \<Rightarrow> Inr c
       | None \<Rightarrow> Inl (ErrMsg (''ssh not reachable at '' @ JoinHostPort ipaddr ''22'' @ '' after '' @ Duration_String timeout)))
   }"

text \<open>The exit code and the error; the output collected so far is read from the session.\<close>

definition runSSHCommand :: "'x env \<Rightarrow> nat \<Rightarrow> string \<Rightarrow> int \<Rightarrow> ('x host, int \<times> goerr option) state" where
  "runSSHCommand E session cmd timeout = do {
     s \<leftarrow> outside (e_ssh_Start E session cmd);
     case s of Some e \<Rightarrow> return (0, Some e) | None \<Rightarrow> do {
     r \<leftarrow> outside (e_ssh_Wait E session timeout);
     case r of
       Some None \<Rightarrow> return (0, None)
     | Some (Some e) \<Rightarrow> (case errors_As_ExitError e of Some c \<Rightarrow> return (c, None) | None \<Rightarrow> return (0, Some e))
     | None \<Rightarrow> do {
         _ \<leftarrow> outside (e_ssh_Kill E session);
         return (124, Some (ErrMsg (''command timed out after '' @ Duration_String timeout)))
       }}
   }"

end
