(* ===== verification/Handlers.thy ===== *)
theory Handlers
  imports User_Snapshot SSH
begin

text \<open>
  The HTTP handlers of \<open>cmd/server/handlers.go\<close> and \<open>user_snapshot.go\<close>, with \<open>decodeJSON\<close> and
  \<open>writeJSON\<close> of \<open>http_util.go\<close>. A handler takes the request body and returns the status and the
  JSON value it writes, or \<open>Panic\<close> where the source would dereference a nil pointer.
\<close>

section \<open>Requests and replies\<close>

datatype reply = Reply int json | Panic

definition error_body :: "string \<Rightarrow> json" where
  "error_body m = JObj [(''error'', JStr m)]"

abbreviation bad_request :: "string \<Rightarrow> reply" where "bad_request m \<equiv> Reply 400 (error_body m)"
abbreviation not_found :: "string \<Rightarrow> reply" where "not_found m \<equiv> Reply 404 (error_body m)"
abbreviation conflict :: "string \<Rightarrow> reply" where "conflict m \<equiv> Reply 409 (error_body m)"
abbreviation server_error :: "string \<Rightarrow> reply" where "server_error m \<equiv> Reply 500 (error_body m)"

definition decodeJSON :: "'a decoder \<Rightarrow> 'a \<Rightarrow> string \<Rightarrow> 'a option" where
  "decodeJSON dec zero body = Decode dec zero body"

record execRequest =
  xq_SandboxID :: string
  xq_Cmd :: string
  xq_Argv :: "string list"
  xq_UseShell :: "bool option"
  xq_TimeoutMs :: int

definition zero_execRequest :: execRequest where
  "zero_execRequest = \<lparr>xq_SandboxID = [], xq_Cmd = [], xq_Argv = [], xq_UseShell = None, xq_TimeoutMs = 0\<rparr>"

definition dec_execRequest :: "execRequest decoder" where
  "dec_execRequest = dec_struct True
    [(''sandbox_id'', field xq_SandboxID xq_SandboxID_update dec_string),
     (''cmd'', field xq_Cmd xq_Cmd_update dec_string),
     (''argv'', field xq_Argv xq_Argv_update (dec_slice [] dec_string)),
     (''use_shell'', field xq_UseShell xq_UseShell_update (dec_ptr False dec_bool)),
     (''timeout_ms'', field xq_TimeoutMs xq_TimeoutMs_update dec_int)]"

definition json_execResponse :: "string \<Rightarrow> string \<Rightarrow> int \<Rightarrow> json" where
  "json_execResponse stdout stderr exitCode =
    JObj [(''stdout'', JStr stdout), (''stderr'', JStr stderr), (''exit_code'', JNum (itoa exitCode))]"

text \<open>\<open>destroyRequest\<close>, \<open>snapshotRestoreRequest\<close> and \<open>snapshotDeleteRequest\<close> have one string field each.\<close>

definition dec_single :: "string \<Rightarrow> string decoder" where
  "dec_single name = dec_struct True [(name, dec_string)]"

record snapshotCreateRequest =
  sc_SandboxID :: string
  sc_Name :: string

definition dec_snapshotCreateRequest :: "snapshotCreateRequest decoder" where
  "dec_snapshotCreateRequest = dec_struct True
    [(''sandbox_id'', field sc_SandboxID sc_SandboxID_update dec_string),
     (''name'', field sc_Name sc_Name_update dec_string)]"

definition id_body :: "string \<Rightarrow> string \<Rightarrow> json" where
  "id_body name v = JObj [(name, JStr v)]"


section \<open>Create\<close>

text \<open>\<open>atomic.AddUint64\<close> on the two counters.\<close>

definition next_sandbox_id :: "('x world, string) state" where
  "next_sandbox_id = do {
     modify_srv (\<lambda>s. s\<lparr>nextSandboxID := nextSandboxID s + 1\<rparr>);
     gets_srv (\<lambda>s. ''sb-'' @ utoa (unat (nextSandboxID s)))
   }"

definition next_snapshot_id :: "('x world, string) state" where
  "next_snapshot_id = do {
     modify_srv (\<lambda>s. s\<lparr>nextSnapshotID := nextSnapshotID s + 1\<rparr>);
     gets_srv (\<lambda>s. ''us-'' @ utoa (unat (nextSnapshotID s)))
   }"

lemma counters_code [code]:
  "next_sandbox_id = State (\<lambda>w. (''sb-'' @ utoa (unat (nextSandboxID (srv w) + 1)), w\<lparr>srv := (srv w)\<lparr>nextSandboxID := nextSandboxID (srv w) + 1\<rparr>\<rparr>))"
  "next_snapshot_id = State (\<lambda>w. (''us-'' @ utoa (unat (nextSnapshotID (srv w) + 1)), w\<lparr>srv := (srv w)\<lparr>nextSnapshotID := nextSnapshotID (srv w) + 1\<rparr>\<rparr>))"
  by (simp_all add: next_sandbox_id_def next_snapshot_id_def gets_srv_def modify_srv_def modify_def gets_def State_Monad.bind_def)

text \<open>\<open>s.sandboxes[sb.ID] = sb\<close> and the reply.\<close>

definition register :: "nat \<Rightarrow> ('x world, reply) state" where
  "register a = do {
     sb \<leftarrow> sb_at a;
     modify_srv (\<lambda>s. s\<lparr>sandboxes := AList.update (sb_ID sb) a (sandboxes s)\<rparr>);
     return (Reply 200 (id_body ''sandbox_id'' (sb_ID sb)))
   }"

definition handleCreate :: "'x env \<Rightarrow> config \<Rightarrow> ('x world, reply) state" where
  "handleCreate E cfg = do {
     sid \<leftarrow> next_sandbox_id;
     r \<leftarrow> createSandbox E cfg sid;
     case r of
       Inl e \<Rightarrow> return (server_error (Error e))
     | Inr a \<Rightarrow> register a
   }"

definition lookup_sandbox :: "string \<Rightarrow> ('x world, nat option) state" where
  "lookup_sandbox sid = gets_srv (\<lambda>s. map_of (sandboxes s) sid)"


section \<open>Exec\<close>

text \<open>The switch over \<open>cmd\<close>, \<open>argv\<close> and \<open>use\_shell\<close>: whether to use a shell, or the message of the 400.\<close>

definition exec_mode :: "execRequest \<Rightarrow> string + bool" where
  "exec_mode req =
    (let cmd = TrimSpace (xq_Cmd req) in
     if xq_Argv req \<noteq> [] then
       (if cmd \<noteq> [] then Inl ''provide either cmd or argv, not both''
        else if xq_UseShell req = Some True then Inl ''use_shell=true is not valid with argv''
        else Inr False)
     else if cmd \<noteq> [] then
       (if xq_UseShell req = Some False then Inl ''use_shell=false is not valid with cmd; provide argv instead''
        else Inr True)
     else Inl ''cmd or argv is required'')"

definition exec_duration :: "config \<Rightarrow> execRequest \<Rightarrow> int" where
  "exec_duration cfg req = (if xq_TimeoutMs req > 0 then wrap64 (xq_TimeoutMs req * Millisecond) else ExecTimeout cfg)"

definition exec_request :: "config \<Rightarrow> execRequest \<Rightarrow> bool \<Rightarrow> Request" where
  "exec_request cfg req useShell = zero_Request\<lparr>rq_Type := ''exec'',
     rq_Exec := Some (zero_ExecRequest\<lparr>er_UseShell := useShell, er_Cmd := TrimSpace (xq_Cmd req), er_Argv := xq_Argv req,
       er_TimeoutMs := go_quot (exec_duration cfg req) Millisecond, er_MaxOutputBytes := AgentMaxOutputB cfg\<rparr>)\<rparr>"

definition exec_ssh :: "'x env \<Rightarrow> config \<Rightarrow> sandbox \<Rightarrow> execRequest \<Rightarrow> ('x host, reply) state" where
  "exec_ssh E cfg sb req = do {
     c \<leftarrow> waitForExecSSH E (sb_GuestIP sb) (SSHPrivateKey cfg) (SSHExecWait cfg) (SSHDialTimeout cfg);
     case c of Inl e \<Rightarrow> return (server_error (''ssh dial failed: '' @ Error e)) | Inr client \<Rightarrow> do {
     s \<leftarrow> outside (e_ssh_NewSession E client);
     r \<leftarrow> (case s of
         Inl e \<Rightarrow> return (server_error (''new ssh session: '' @ Error e))
       | Inr session \<Rightarrow> do {
           (exitCode, err) \<leftarrow> runSSHCommand E session (TrimSpace (xq_Cmd req)) (exec_duration cfg req);
           (stdout, stderr) \<leftarrow> gets (\<lambda>h. e_ssh_Output E session (ext h));
           _ \<leftarrow> outside (e_ssh_CloseSession E session);
           return (case err of
               Some e \<Rightarrow> server_error (''exec failed: '' @ Error e)
             | None \<Rightarrow> Reply 200 (json_execResponse stdout stderr exitCode))
         });
     _ \<leftarrow> outside (e_ssh_CloseClient E client);
     return r
     }
   }"

text \<open>The reply to a response of the agent; \<open>resp.Exec\<close> is a pointer.\<close>

definition exec_reply :: "Response \<Rightarrow> reply" where
  "exec_reply resp = (case rs_Exec resp of
     None \<Rightarrow> Panic
   | Some x \<Rightarrow> Reply 200 (json_execResponse (xr_Stdout x) (xr_Stderr x) (xr_ExitCode x)))"

definition exec_agent :: "'x env \<Rightarrow> config \<Rightarrow> nat \<Rightarrow> execRequest \<Rightarrow> bool \<Rightarrow> ('x world, reply) state" where
  "exec_agent E cfg a req useShell = do {
     sb \<leftarrow> sb_at a;
     d \<leftarrow> (case sb_Agent sb of
         Some ac \<Rightarrow> return (Inr ac)
       | None \<Rightarrow> do {
           r \<leftarrow> onhost (dialAgent E (sb_VsockPath sb) (AgentPort cfg) (AgentDialTimeout cfg));
           case r of
             Inl e \<Rightarrow> return (Inl e)
           | Inr newAC \<Rightarrow> do { sb_modify a (\<lambda>s. s\<lparr>sb_Agent := Some newAC\<rparr>); return (Inr newAC) }
         });
     case d of Inl e \<Rightarrow> return (server_error (''agent dial failed: '' @ Error e)) | Inr ac \<Rightarrow> do {
     r \<leftarrow> onhost (Call E ac (exec_request cfg req useShell) (AgentCallTimeout cfg));
     case r of
       Inr resp \<Rightarrow> return (exec_reply resp)
     | Inl err \<Rightarrow> do {
         _ \<leftarrow> onhost (agent_Close E (Some ac));
         sb_modify a (\<lambda>s. s\<lparr>sb_Agent := None\<rparr>);
         d2 \<leftarrow> onhost (dialAgent E (sb_VsockPath sb) (AgentPort cfg) (AgentDialTimeout cfg));
         case d2 of
           Inl derr \<Rightarrow> return (server_error (''agent dial failed: '' @ Error derr @ '' (original error: '' @ Error err @ '')''))
         | Inr newAC \<Rightarrow> do {
             sb_modify a (\<lambda>s. s\<lparr>sb_Agent := Some newAC\<rparr>);
             r2 \<leftarrow> onhost (Call E newAC (exec_request cfg req useShell) (AgentCallTimeout cfg));
             case r2 of
               Inl e2 \<Rightarrow> return (server_error (''agent exec failed: '' @ Error e2))
             | Inr resp \<Rightarrow> return (exec_reply resp)
           }
       }}
   }"

definition exec_transport :: "'x env \<Rightarrow> config \<Rightarrow> nat \<Rightarrow> execRequest \<Rightarrow> bool \<Rightarrow> ('x world, reply) state" where
  "exec_transport E cfg a req useShell =
    (if ExecTransport cfg = ''ssh'' then
       (if \<not> useShell then return (bad_request ''ssh transport only supports cmd (shell mode)'')
        else do { sb \<leftarrow> sb_at a; onhost (exec_ssh E cfg sb req) })
     else if ExecTransport cfg = ''agent'' \<or> ExecTransport cfg = [] then exec_agent E cfg a req useShell
     else return (bad_request (''unknown exec transport '' @ Quote (ExecTransport cfg))))"

definition handleExec :: "'x env \<Rightarrow> config \<Rightarrow> string \<Rightarrow> ('x world, reply) state" where
  "handleExec E cfg body =
    (case decodeJSON dec_execRequest zero_execRequest body of
       None \<Rightarrow> return (bad_request ''invalid request body'')
     | Some req \<Rightarrow>
       if TrimSpace (xq_SandboxID req) = [] then return (bad_request ''sandbox_id is required'')
       else do {
         sbp \<leftarrow> lookup_sandbox (xq_SandboxID req);
         case sbp of None \<Rightarrow> return (not_found ''sandbox not found'') | Some a \<Rightarrow> do {
         sb \<leftarrow> sb_at a;
         sb_modify a (\<lambda>s. snd (tryStartExec s));
         case fst (tryStartExec sb) of
           Some e \<Rightarrow> return (conflict (Error e))
         | None \<Rightarrow> do {
             r \<leftarrow> (case exec_mode req of
                 Inl m \<Rightarrow> return (bad_request m)
               | Inr useShell \<Rightarrow> exec_transport E cfg a req useShell);
             sb_modify a finishExec;
             return r
           }}
       })"


section \<open>Destroy\<close>

definition handleDestroy :: "'x env \<Rightarrow> string \<Rightarrow> ('x world, reply) state" where
  "handleDestroy E body =
    (case decodeJSON (dec_single ''sandbox_id'') [] body of
       None \<Rightarrow> return (bad_request ''invalid request body'')
     | Some sid \<Rightarrow>
       if TrimSpace sid = [] then return (bad_request ''sandbox_id is required'')
       else do {
         sbp \<leftarrow> lookup_sandbox sid;
         modify_srv (\<lambda>s. s\<lparr>sandboxes := AList.delete sid (sandboxes s)\<rparr>);
         case sbp of None \<Rightarrow> return (not_found ''sandbox not found'') | Some a \<Rightarrow> do {
         began \<leftarrow> begin_destroy a;
         if \<not> began then return (conflict ''sandbox is closing'')
         else do {
           _ \<leftarrow> wait_drain E a;
           r \<leftarrow> cleanupSandbox E a;
           sb_modify a finishDestroy;
           return (case r of Some e \<Rightarrow> server_error (Error e) | None \<Rightarrow> Reply 200 (id_body ''status'' ''ok''))
         }}
       })"


section \<open>Snapshots\<close>

definition handleSnapshotCreate :: "'x env \<Rightarrow> config \<Rightarrow> string \<Rightarrow> ('x world, reply) state" where
  "handleSnapshotCreate E cfg body =
    (case decodeJSON dec_snapshotCreateRequest \<lparr>sc_SandboxID = [], sc_Name = []\<rparr> body of
       None \<Rightarrow> return (bad_request ''invalid request body'')
     | Some req \<Rightarrow>
       if TrimSpace (sc_SandboxID req) = [] then return (bad_request ''sandbox_id is required'')
       else do {
         sbp \<leftarrow> lookup_sandbox (sc_SandboxID req);
         case sbp of None \<Rightarrow> return (not_found ''sandbox not found'') | Some a \<Rightarrow> do {
         snapshotID \<leftarrow> next_snapshot_id;
         r \<leftarrow> createUserSnapshotFromSandbox E cfg a snapshotID (sc_Name req);
         return (case r of
             Inl e \<Rightarrow> server_error (Error e)
           | Inr meta \<Rightarrow> Reply 200 (id_body ''snapshot_id'' (um_SnapshotID meta)))
         }
       })"

text \<open>The lineage check of a restore: the message of the 409.\<close>

definition lineage_conflict :: "config \<Rightarrow> userSnapshotMeta \<Rightarrow> string option" where
  "lineage_conflict cfg meta =
    (let currentLineage = TrimSpace (BaseRootfsLineageID cfg); metaLineage = TrimSpace (um_LineageID meta) in
     if currentLineage = [] then None
     else if metaLineage = [] then Some ''snapshot meta missing lineage id''
     else if metaLineage \<noteq> currentLineage
     then Some (''snapshot lineage mismatch (snapshot='' @ metaLineage @ '' current='' @ currentLineage @ '')'')
     else None)"

definition handleSnapshotRestore :: "'x env \<Rightarrow> config \<Rightarrow> string \<Rightarrow> ('x world, reply) state" where
  "handleSnapshotRestore E cfg body =
    (case decodeJSON (dec_single ''snapshot_id'') [] body of
       None \<Rightarrow> return (bad_request ''invalid request body'')
     | Some raw \<Rightarrow>
       (case normalizeSnapshotID raw of
          Inl e \<Rightarrow> return (bad_request (Error e))
        | Inr snapshotID \<Rightarrow> do {
            m \<leftarrow> onhost (loadUserSnapshotMeta E cfg snapshotID);
            case m of Inl e \<Rightarrow> return (not_found (Error e)) | Inr meta \<Rightarrow>
            (case lineage_conflict cfg meta of Some msg \<Rightarrow> return (conflict msg) | None \<Rightarrow> do {
              sid \<leftarrow> next_sandbox_id;
              r \<leftarrow> createSandboxFromUserSnapshot E cfg sid meta;
              case r of
                Inl e \<Rightarrow> return (server_error (Error e))
              | Inr a \<Rightarrow> register a
            })
          }))"

definition handleSnapshotList :: "'x env \<Rightarrow> config \<Rightarrow> ('x world, reply) state" where
  "handleSnapshotList E cfg = do {
     r \<leftarrow> onhost (listUserSnapshots E cfg);
     return (case r of
         Inl e \<Rightarrow> server_error (Error e)
       | Inr items \<Rightarrow> Reply 200 (JObj [(''snapshots'', JArr (map json_userSnapshotMeta items))]))
   }"

definition handleSnapshotDelete :: "'x env \<Rightarrow> config \<Rightarrow> string \<Rightarrow> ('x world, reply) state" where
  "handleSnapshotDelete E cfg body =
    (case decodeJSON (dec_single ''snapshot_id'') [] body of
       None \<Rightarrow> return (bad_request ''invalid request body'')
     | Some raw \<Rightarrow>
       (case normalizeSnapshotID raw of
          Inl e \<Rightarrow> return (bad_request (Error e))
        | Inr snapshotID \<Rightarrow> do {
            r \<leftarrow> onhost (os_RemoveAll E (userSnapshotRootDir (WorkDir cfg) snapshotID));
            return (case r of
                Some e \<Rightarrow> server_error (''delete snapshot: '' @ Error e)
              | None \<Rightarrow> Reply 200 (id_body ''status'' ''ok''))
          }))"


section \<open>The server's mux\<close>

text \<open>The requests the mux of \<open>main\<close> routes to a handler.\<close>

datatype request =
    Create | Exec string | Destroy string
  | SnapshotCreate string | SnapshotRestore string | SnapshotList | SnapshotDelete string | Healthz

fun serve :: "'x env \<Rightarrow> config \<Rightarrow> request \<Rightarrow> ('x world, reply) state" where
  "serve E cfg Create = handleCreate E cfg"
| "serve E cfg (Exec b) = handleExec E cfg b"
| "serve E cfg (Destroy b) = handleDestroy E b"
| "serve E cfg (SnapshotCreate b) = handleSnapshotCreate E cfg b"
| "serve E cfg (SnapshotRestore b) = handleSnapshotRestore E cfg b"
| "serve E cfg SnapshotList = handleSnapshotList E cfg"
| "serve E cfg (SnapshotDelete b) = handleSnapshotDelete E cfg b"
| "serve E cfg Healthz = return (Reply 200 (id_body ''status'' ''ok''))"

end
