(* ===== verification/Startup.thy ===== *)
theory Startup
  imports Handlers
begin

text \<open>
  \<open>cmd/server/config.go\<close>, \<open>preflight.go\<close>, \<open>diagnostics.go\<close> and \<open>main.go\<close>: reading the
  configuration from the environment variables, the checks and one-time set-up before serving,
  and what the server does at start and at shutdown.

  \<open>process\<close> collects what a process gets from outside: its environment variables, user and working
  directory, the search of \<open>PATH\<close>, and two library functions whose results the program only
  passes on, SHA-256 (as hexadecimal text) and \<open>time.ParseDuration\<close> (which computes with
  floating-point numbers).
\<close>

record process =
  Getenv :: "string \<Rightarrow> string"
  Geteuid :: int
  Getwd :: "string res"
  LookPath :: "string \<Rightarrow> goerr option"
  sha256_hex :: "string \<Rightarrow> string"
  ParseDuration :: "string \<Rightarrow> int option"


section \<open>Configuration\<close>

definition envOr :: "process \<Rightarrow> string \<Rightarrow> string \<Rightarrow> string" where
  "envOr P name fallback = (let v = TrimSpace (Getenv P name) in if v \<noteq> [] then v else fallback)"

definition intOr :: "process \<Rightarrow> string \<Rightarrow> int \<Rightarrow> int" where
  "intOr P name fallback =
    (let v = TrimSpace (Getenv P name) in
     if v \<noteq> [] then (case Atoi v of Some i \<Rightarrow> i | None \<Rightarrow> fallback) else fallback)"

definition durationOr :: "process \<Rightarrow> string \<Rightarrow> int \<Rightarrow> int" where
  "durationOr P name fallback =
    (let v = TrimSpace (Getenv P name) in
     if v \<noteq> [] then (case ParseDuration P v of Some d \<Rightarrow> d | None \<Rightarrow> fallback) else fallback)"

definition detectDefaultInterface :: "'x env \<Rightarrow> ('x host, string res) state" where
  "detectDefaultInterface E = do {
     (out, _, err) \<leftarrow> runCmd E ''sh'' [''-c'', ''ip route show default | awk '' @ [CHR 0x27] @ ''{print $5; exit}'' @ [CHR 0x27]];
     case err of
       Some e \<Rightarrow> return (Inl e)
     | None \<Rightarrow>
       (let iface = TrimSpace out in
        if iface = [] then return (Inl (ErrMsg ''no default route interface found'')) else return (Inr iface))
   }"

text \<open>Whether a file could be opened and reading it failed.\<close>

fun read_failed :: "goerr \<Rightarrow> bool" where
  "read_failed (PathError op _ _) \<longleftrightarrow> op = ''read''"
| "read_failed _ \<longleftrightarrow> False"

definition computeFileSHA256 :: "'x env \<Rightarrow> process \<Rightarrow> string \<Rightarrow> ('x host, string res) state" where
  "computeFileSHA256 E P path = do {
     r \<leftarrow> os_ReadFile E path;
     case r of
       Inl e \<Rightarrow>
         if read_failed e then return (Inl (wrap (''hash file '' @ Quote path @ '': '') e))
         else return (Inl (wrap (''open file for sha256 '' @ Quote path @ '': '') e))
     | Inr d \<Rightarrow> return (Inr (sha256_hex P d))
   }"

text \<open>The values read from the environment.\<close>

definition read_config :: "process \<Rightarrow> config" where
  "read_config P =
    \<lparr>ListenAddr = envOr P ''MANTA_LISTEN_ADDR'' '':8080'',
     KernelPath = envOr P ''MANTA_KERNEL_PATH'' ''./guest-artifacts/vmlinux'',
     BaseRootfsPath = envOr P ''MANTA_ROOTFS_PATH'' ''./guest-artifacts/rootfs.ext4'',
     BaseRootfsLineageID = [],
     RootfsCloneMode = ToLower (TrimSpace (envOr P ''MANTA_ROOTFS_CLONE_MODE'' ''auto'')),
     SSHPrivateKey = envOr P ''MANTA_SSH_KEY_PATH'' ''./guest-artifacts/sandbox_key'',
     FirecrackerBin = envOr P ''MANTA_FIRECRACKER_BIN'' ''firecracker'',
     HostNATIface = [],
     WorkDir = envOr P ''MANTA_WORK_DIR'' ''.manta-work'',
     CgroupRoot = envOr P ''MANTA_CGROUP_ROOT'' ''/sys/fs/cgroup/manta'',
     EnableCgroups = (intOr P ''MANTA_ENABLE_CGROUPS'' 1 \<noteq> 0),
     NetnsPoolSize = intOr P ''MANTA_NETNS_POOL_SIZE'' 64,
     EnableSnapshots = (intOr P ''MANTA_ENABLE_SNAPSHOTS'' 1 \<noteq> 0),
     KeepFailedSandboxes = (intOr P ''MANTA_DEBUG_KEEP_FAILED_SANDBOX'' 0 \<noteq> 0),
     EnableStageTimingLogs = (intOr P ''MANTA_ENABLE_STAGE_TIMINGS'' 0 \<noteq> 0),
     ExecTransport = ToLower (TrimSpace (envOr P ''MANTA_EXEC_TRANSPORT'' ''agent'')),
     AgentPort = intOr P ''MANTA_AGENT_PORT'' DefaultPort,
     AgentWaitTimeout = durationOr P ''MANTA_AGENT_WAIT_TIMEOUT'' (30 * Second),
     AgentDialTimeout = durationOr P ''MANTA_AGENT_DIAL_TIMEOUT'' (250 * Millisecond),
     AgentCallTimeout = durationOr P ''MANTA_AGENT_CALL_TIMEOUT'' (20 * Second),
     AgentMaxOutputB = intOr P ''MANTA_AGENT_MAX_OUTPUT_BYTES'' (2 ^ 20),
     SSHWaitTimeout = durationOr P ''MANTA_SSH_WAIT_TIMEOUT'' (30 * Second),
     SSHDialTimeout = durationOr P ''MANTA_SSH_DIAL_TIMEOUT'' (2 * Second),
     SSHExecWait = durationOr P ''MANTA_SSH_EXEC_WAIT_TIMEOUT'' (20 * Second),
     ExecTimeout = durationOr P ''MANTA_EXEC_TIMEOUT'' (20 * Second),
     BootArgs = envOr P ''MANTA_BOOT_ARGS'' ''console=ttyS0 reboot=k panic=1 pci=off root=/dev/vda rw init=/sbin/init'',
     DefaultMemMiB = intOr P ''MANTA_VM_MEM_MIB'' 512,
     DefaultVCPU = intOr P ''MANTA_VM_VCPU'' 1\<rparr>"

text \<open>
  \<open>filepath.Abs\<close> needs the working directory for a relative path only; the first path that cannot
  be resolved ends the loop.
\<close>

definition filepath_Abs :: "process \<Rightarrow> string \<Rightarrow> string res" where
  "filepath_Abs P p =
    (if p \<noteq> [] \<and> hd p = slash then Inr (Clean p)
     else case Getwd P of Inl e \<Rightarrow> Inl e | Inr cwd \<Rightarrow> Inr (Join [cwd, p]))"

fun resolve_each :: "process \<Rightarrow> string list \<Rightarrow> string list res" where
  "resolve_each P [] = Inr []"
| "resolve_each P (p # ps) =
    (case filepath_Abs P p of
       Inl e \<Rightarrow> Inl (wrap (''resolve path '' @ Quote p @ '': '') e)
     | Inr a \<Rightarrow> (case resolve_each P ps of Inl e \<Rightarrow> Inl e | Inr as \<Rightarrow> Inr (a # as)))"

definition resolve_paths :: "process \<Rightarrow> config \<Rightarrow> config res" where
  "resolve_paths P cfg =
    (case resolve_each P [KernelPath cfg, BaseRootfsPath cfg, SSHPrivateKey cfg, WorkDir cfg] of
       Inr [k, r, s, w] \<Rightarrow> Inr (cfg\<lparr>KernelPath := k, BaseRootfsPath := r, SSHPrivateKey := s, WorkDir := w\<rparr>)
     | Inr _ \<Rightarrow> Inr cfg
     | Inl e \<Rightarrow> Inl e)"

definition loadConfig :: "'x env \<Rightarrow> process \<Rightarrow> ('x host, config res) state" where
  "loadConfig E P =
    (case resolve_paths P (read_config P) of Inl e \<Rightarrow> return (Inl e) | Inr cfg \<Rightarrow> do {
     lin \<leftarrow> (if EnableSnapshots cfg then computeFileSHA256 E P (BaseRootfsPath cfg) else return (Inr []));
     case lin of Inl e \<Rightarrow> return (Inl (wrap ''compute base rootfs lineage: '' e)) | Inr lineage \<Rightarrow>
     if RootfsCloneMode cfg \<noteq> ''auto'' \<and> RootfsCloneMode cfg \<noteq> ''reflink-required''
     then return (Inl (ErrMsg (''invalid MANTA_ROOTFS_CLONE_MODE '' @ Quote (RootfsCloneMode cfg) @ '' (expected auto or reflink-required)'')))
     else let iface = TrimSpace (Getenv P ''MANTA_HOST_IFACE'') in
       if iface \<noteq> [] then return (Inr (cfg\<lparr>BaseRootfsLineageID := lineage, HostNATIface := iface\<rparr>))
       else do {
         d \<leftarrow> detectDefaultInterface E;
         case d of
           Inl e \<Rightarrow> return (Inl (wrap ''detect default host interface: '' e))
         | Inr detected \<Rightarrow> return (Inr (cfg\<lparr>BaseRootfsLineageID := lineage, HostNATIface := detected\<rparr>))
       }
   })"


section \<open>Preflight and diagnostics\<close>

fun stat_required :: "'x env \<Rightarrow> string list \<Rightarrow> ('x host, goerr option) state" where
  "stat_required E [] = return None"
| "stat_required E (p # ps) = do {
     s \<leftarrow> os_Stat E p;
     case s of
       Some e \<Rightarrow> return (Some (wrap (''required file '' @ Quote p @ '' missing: '') e))
     | None \<Rightarrow> stat_required E ps
   }"

definition ensurePreflight :: "'x env \<Rightarrow> process \<Rightarrow> config \<Rightarrow> ('x host, goerr option) state" where
  "ensurePreflight E P cfg =
    (case LookPath P (FirecrackerBin cfg) of
       Some e \<Rightarrow> return (Some (wrap ''firecracker binary not found: '' e))
     | None \<Rightarrow> do {
     f \<leftarrow> stat_required E [KernelPath cfg, BaseRootfsPath cfg, SSHPrivateKey cfg];
     case f of Some e \<Rightarrow> return (Some e) | None \<Rightarrow> do {
     k \<leftarrow> os_Stat E ''/dev/kvm'';
     case k of Some e \<Rightarrow> return (Some (wrap ''/dev/kvm unavailable: '' e)) | None \<Rightarrow> do {
     m \<leftarrow> os_MkdirAll E (Join [WorkDir cfg, ''sandboxes'']);
     case m of Some e \<Rightarrow> return (Some (wrap ''create work dir: '' e)) | None \<Rightarrow> do {
     (_, _, s) \<leftarrow> runCmd E ''sysctl'' [''-w'', ''net.ipv4.ip_forward=1''];
     case s of Some e \<Rightarrow> return (Some (wrap ''enable ip_forward: '' e)) | None \<Rightarrow> do {
     n \<leftarrow> ensureGlobalMasquerade E (HostNATIface cfg);
     case n of Some e \<Rightarrow> return (Some (wrap ''ensure global MASQUERADE: '' e)) | None \<Rightarrow> do {
     (if EnableCgroups cfg then do {
        c \<leftarrow> ensureCgroupRoot E (CgroupRoot cfg);
        case c of Some _ \<Rightarrow> return () | None \<Rightarrow> scavengeCgroups E (CgroupRoot cfg)
      } else return ());
     if EnableSnapshots cfg then do {
       r \<leftarrow> ensureSnapshot E cfg;
       case r of Inl e \<Rightarrow> return (Some (wrap ''ensure snapshot: '' e)) | Inr _ \<Rightarrow> return None
     } else return None
     }}}}}
   })"

definition probeReflinkSupport :: "'x env \<Rightarrow> string \<Rightarrow> ('x host, bool res) state" where
  "probeReflinkSupport E workDir =
    (let probeDir = Join [workDir, ''.reflink-probe'']; src = Join [probeDir, ''src'']; dst = Join [probeDir, ''dst''] in do {
     m \<leftarrow> os_MkdirAll E probeDir;
     case m of Some e \<Rightarrow> return (Inl (wrap ''create probe dir: '' e)) | None \<Rightarrow> do {
     w \<leftarrow> os_WriteFile E src (''probe'' @ [CHR 0x0A]);
     r \<leftarrow> (case w of
         Some e \<Rightarrow> return (Inl (wrap ''write probe src: '' e))
       | None \<Rightarrow> do {
           (_, _, err) \<leftarrow> runCmd E ''cp'' [''--reflink=always'', src, dst];
           return (Inr (err = None))
         });
     _ \<leftarrow> os_RemoveAll E probeDir;
     return r
     }
   })"

text \<open>\<open>logStartupDiagnostics\<close> only logs, apart from the probe.\<close>

definition logStartupDiagnostics :: "'x env \<Rightarrow> config \<Rightarrow> ('x host, unit) state" where
  "logStartupDiagnostics E cfg = do { _ \<leftarrow> probeReflinkSupport E (WorkDir cfg); return () }"


section \<open>Start and shutdown\<close>

definition new_server :: server where
  "new_server = \<lparr>nextSandboxID = 0, nextSnapshotID = 0, nextSubnet = 0, sandboxes = [], heap = [], pool = None\<rparr>"

text \<open>\<open>main\<close> up to listening: a configuration, or the message it exits with.\<close>

definition start :: "'x env \<Rightarrow> process \<Rightarrow> ('x world, config res) state" where
  "start E P =
    (if Geteuid P \<noteq> 0 then return (Inl (ErrMsg ''this server must run as root (try: sudo go run ./cmd/server)''))
     else do {
     c \<leftarrow> onhost (loadConfig E P);
     case c of Inl e \<Rightarrow> return (Inl (wrap ''load config: '' e)) | Inr cfg \<Rightarrow> do {
     p \<leftarrow> onhost (ensurePreflight E P cfg);
     case p of Some e \<Rightarrow> return (Inl (wrap ''preflight failed: '' e)) | None \<Rightarrow> do {
     onhost (logStartupDiagnostics E cfg);
     modify_srv (\<lambda>_. new_server);
     n \<leftarrow> onhost (ensureGlobalMasquerade E (HostNATIface cfg));
     case n of Some e \<Rightarrow> return (Inl (wrap ''ensure global MASQUERADE: '' e)) | None \<Rightarrow>
     if NetnsPoolSize cfg > 0 then do {
       modify_srv (\<lambda>s. s\<lparr>pool := Some (newNetnsPool (NetnsPoolSize cfg))\<rparr>);
       i \<leftarrow> pool_Init E;
       case i of Some e \<Rightarrow> return (Inl (wrap ''init netns pool: '' e)) | None \<Rightarrow> return (Inr cfg)
     } else return (Inr cfg)
     }}
   })"

text \<open>
  What \<open>main\<close> does after \<open>httpServer.Shutdown\<close> has returned. Here all requests have been answered by
  then, so there is nothing for it to wait for.
\<close>

definition shutdown :: "'x env \<Rightarrow> ('x world, unit) state" where
  "shutdown E = do {
     po \<leftarrow> gets_srv pool;
     (if po \<noteq> None then pool_Destroy E else return ());
     destroyAll E
   }"

text \<open>\<open>main\<close> up to its shutdown: it starts and serves requests, one after the other.\<close>

fun serve_requests :: "'x env \<Rightarrow> config \<Rightarrow> request list \<Rightarrow> ('x world, reply list) state" where
  "serve_requests E cfg [] = return []"
| "serve_requests E cfg (r # rs) = do {
     a \<leftarrow> serve E cfg r;
     as \<leftarrow> serve_requests E cfg rs;
     return (a # as)
   }"

definition run_server :: "'x env \<Rightarrow> process \<Rightarrow> request list \<Rightarrow> ('x world, (config \<times> reply list) res) state" where
  "run_server E P reqs = do {
     c \<leftarrow> start E P;
     case c of
       Inl e \<Rightarrow> return (Inl e)
     | Inr cfg \<Rightarrow> do { rs \<leftarrow> serve_requests E cfg reqs; return (Inr (cfg, rs)) }
   }"

text \<open>\<open>main\<close> to its end: the signal arrives when these requests have been served.\<close>

definition server_main :: "'x env \<Rightarrow> process \<Rightarrow> request list \<Rightarrow> ('x world, (config \<times> reply list) res) state" where
  "server_main E P reqs = do {
     r \<leftarrow> run_server E P reqs;
     case r of
       Inl e \<Rightarrow> return (Inl e)
     | Inr x \<Rightarrow> do { shutdown E; return (Inr x) }
   }"


section \<open>A concrete server\<close>

text \<open>
  The calm environment with agents that answer every request with the same response, a process
  environment with snapshots switched off and a pool of two namespaces, and a host with the files
  the server needs.
\<close>

definition demo_response :: string where
  "demo_response = Marshal (json_Response (zero_Response\<lparr>rs_OK := True,
     rs_Exec := Some \<lparr>xr_ExitCode = 0, xr_Stdout = ''hi'', xr_Stderr = [], xr_TimedOut = False\<rparr>\<rparr>))"

definition demo_env :: "unit env" where
  "demo_env = calm_env\<lparr>e_ReadFull := \<lambda>c n x.
     (Inr (if n = 4 then PutUint32 (word_of_nat (length demo_response)) else demo_response), 0, x)\<rparr>"

definition demo_process :: process where
  "demo_process =
    \<lparr>Getenv = (\<lambda>k. case map_of [(''MANTA_ENABLE_SNAPSHOTS'', ''0''), (''MANTA_HOST_IFACE'', ''eth0''),
       (''MANTA_NETNS_POOL_SIZE'', ''2''), (''MANTA_WORK_DIR'', ''/w'')] k of Some v \<Rightarrow> v | None \<Rightarrow> []),
     Geteuid = 0, Getwd = Inr ''/m'', LookPath = (\<lambda>_. None), sha256_hex = (\<lambda>_. []), ParseDuration = (\<lambda>_. None)\<rparr>"

definition demo_config :: config where
  "demo_config = (case resolve_paths demo_process (read_config demo_process) of
     Inr cfg \<Rightarrow> cfg\<lparr>HostNATIface := ''eth0''\<rparr> | Inl _ \<Rightarrow> read_config demo_process)"

definition demo_host :: "unit host" where
  "demo_host = (blank_host ())\<lparr>fs := map (\<lambda>p. (p, File [])) [''/m/guest-artifacts/vmlinux'',
     ''/m/guest-artifacts/rootfs.ext4'', ''/m/guest-artifacts/sandbox_key'', ''/dev/kvm'']\<rparr>"

definition demo_start :: "unit world" where
  "demo_start = \<lparr>host = demo_host, srv = new_server\<rparr>"

lemma demo_loadConfig: "run_state (loadConfig demo_env demo_process) demo_host = (Inr demo_config, demo_host)"
  by code_simp

lemma demo_preflight: "fst (run_state (ensurePreflight demo_env demo_process demo_config) demo_host) = None"
  by code_simp

lemma demo_facts: "NetnsPoolSize demo_config = 2" "HostNATIface demo_config = ''eth0''" "TrimSpace ''eth0'' = ''eth0''" "Geteuid demo_process = 0"
  by (code_simp, code_simp, code_simp, code_simp)

lemma demo_nat_rule: "fst (run_state (ensureGlobalMasquerade demo_env (HostNATIface demo_config)) h) = None"
  unfolding demo_facts ensureGlobalMasquerade_def
  by (simp add: demo_facts(3) [simplified] runCmd_def run_defs demo_env_def calm_env_def)

lemma demo_starts:
  "\<exists>w p. run_state (start demo_env demo_process) demo_start = (Inr demo_config, w) \<and> pool (srv w) = Some p"
proof -
  obtain h1 where h1: "run_state (ensurePreflight demo_env demo_process demo_config) demo_host = (None, h1)"
    using demo_preflight by (metis prod.collapse)
  obtain h2 where h2: "run_state (logStartupDiagnostics demo_env demo_config) h1 = ((), h2)"
    by (metis prod.collapse unit.exhaust)
  obtain h3 where h3: "run_state (ensureGlobalMasquerade demo_env (HostNATIface demo_config)) h2 = (None, h3)"
    using demo_nat_rule by (metis prod.collapse)
  obtain w p where w: "run_state (pool_Init demo_env) \<lparr>host = h3, srv = new_server\<lparr>pool := Some (newNetnsPool 2)\<rparr>\<rparr> = (None, w)"
    "pool (srv w) = Some p"
    using calm_pool_Init [of "\<lparr>host = h3, srv = new_server\<lparr>pool := Some (newNetnsPool 2)\<rparr>\<rparr>" 2] unfolding demo_env_def
    by force
  show ?thesis
    using h1 h2 h3 w
    by (simp add: start_def onhost_def demo_start_def demo_loadConfig demo_facts(1,4))
qed

lemma demo_runs: "\<exists>rs w. run_state (run_server demo_env demo_process reqs) demo_start = (Inr (demo_config, rs), w)"
proof -
  obtain w where w: "run_state (start demo_env demo_process) demo_start = (Inr demo_config, w)"
    using demo_starts by blast
  obtain rs w' where "run_state (serve_requests demo_env demo_config reqs) w = (rs, w')" by fastforce
  with w show ?thesis by (simp add: run_server_def)
qed


section \<open>Properties of the configuration\<close>

definition absolute :: "string \<Rightarrow> bool" where
  "absolute p \<longleftrightarrow> p \<noteq> [] \<and> hd p = slash"

lemma Clean_absolute: "absolute p \<Longrightarrow> absolute (Clean p)"
  by (simp add: absolute_def Clean_def Let_def)

lemma resolve_paths_Inr:
  assumes "resolve_paths P cfg = Inr c" "\<And>cwd. Getwd P = Inr cwd \<Longrightarrow> absolute cwd"
  shows "list_all absolute [KernelPath c, BaseRootfsPath c, SSHPrivateKey c, WorkDir c]"
    "RootfsCloneMode c = RootfsCloneMode cfg" "EnableSnapshots c = EnableSnapshots cfg"
proof -
  have abs: "absolute a" if "filepath_Abs P p = Inr a" for p a
    using that assms(2) Clean_absolute [of p] Clean_absolute [of "cwd @ slash # p" for cwd]
    by (auto simp: filepath_Abs_def Join_def absolute_def split: if_splits sum.splits)
  have each: "resolve_each P ps = Inr as \<Longrightarrow> list_all absolute as \<and> length as = length ps" for ps as
    by (induction ps arbitrary: as) (auto dest: abs split: sum.splits)
  obtain as where as: "resolve_each P [KernelPath cfg, BaseRootfsPath cfg, SSHPrivateKey cfg, WorkDir cfg] = Inr as"
    using assms(1) by (auto simp: resolve_paths_def split: sum.splits)
  obtain k r s w where krsw: "as = [k, r, s, w]"
    using each [OF as] by (auto simp: length_Suc_conv)
  with assms(1) as have "c = cfg\<lparr>KernelPath := k, BaseRootfsPath := r, SSHPrivateKey := s, WorkDir := w\<rparr>"
    by (simp add: resolve_paths_def del: resolve_each.simps)
  with each [OF as] krsw show "list_all absolute [KernelPath c, BaseRootfsPath c, SSHPrivateKey c, WorkDir c]"
    "RootfsCloneMode c = RootfsCloneMode cfg" "EnableSnapshots c = EnableSnapshots cfg" by simp_all
qed

text \<open>
  C36: A configuration that was loaded is usable: the clone mode is one of the two the server knows,
  the interface for address translation has a name, the files and the work directory are given by
  absolute paths, and with snapshots enabled the lineage is the hash of the base image.
\<close>

theorem loadConfig_valid:
  assumes "run_state (loadConfig E P) h = (Inr cfg, h')" "\<And>cwd. Getwd P = Inr cwd \<Longrightarrow> absolute cwd"
  shows "RootfsCloneMode cfg \<in> {''auto'', ''reflink-required''} \<and> HostNATIface cfg \<noteq> [] \<and>
    list_all absolute [KernelPath cfg, BaseRootfsPath cfg, SSHPrivateKey cfg, WorkDir cfg] \<and>
    (if EnableSnapshots cfg then \<exists>d h0. run_state (os_ReadFile E (BaseRootfsPath cfg)) h = (Inr d, h0) \<and> BaseRootfsLineageID cfg = sha256_hex P d
     else BaseRootfsLineageID cfg = [])"
proof -
  obtain c where c: "resolve_paths P (read_config P) = Inr c"
    using assms(1) by (cases "resolve_paths P (read_config P)") (auto simp: loadConfig_def)
  note abs = resolve_paths_Inr [OF c assms(2)]
  have det: "returns (detectDefaultInterface E) (\<lambda>r. \<forall>i. r = Inr i \<longrightarrow> i \<noteq> [])"
    unfolding detectDefaultInterface_def by (intro returns_rules) (simp_all add: Let_def split: option.splits)
  obtain lin h1 where lin: "run_state (if EnableSnapshots c then computeFileSHA256 E P (BaseRootfsPath c) else return (Inr [])) h = (lin, h1)"
    by (rule prod.exhaust)
  obtain l where l: "lin = Inr l" using assms(1) lin c by (cases lin) (auto simp: loadConfig_def Let_def)
  obtain d h2 where d: "run_state (detectDefaultInterface E) h1 = (d, h2)" by (rule prod.exhaust)
  have lineage: "if EnableSnapshots c then \<exists>d h0. run_state (os_ReadFile E (BaseRootfsPath c)) h = (Inr d, h0) \<and> l = sha256_hex P d else l = []"
    using lin l by (auto simp: computeFileSHA256_def split: if_splits sum.splits prod.splits)
  have mode: "RootfsCloneMode c = ''auto'' \<or> RootfsCloneMode c = ''reflink-required''"
    using assms(1) lin l c by (auto simp: loadConfig_def Let_def split: if_splits)
  obtain i where i: "cfg = c\<lparr>BaseRootfsLineageID := l, HostNATIface := i\<rparr>" "i \<noteq> []"
    using assms(1) lin l d mode c returnsD [OF det d] that
    by (auto simp: loadConfig_def Let_def split: if_splits sum.splits)
  show ?thesis using abs(1) lineage mode i by (auto split: if_splits)
qed

theorem loadConfig_valid_witness:
  "HostNATIface demo_config \<noteq> [] \<and> list_all absolute [KernelPath demo_config, WorkDir demo_config]"
proof -
  have "absolute cwd" if "Getwd demo_process = Inr cwd" for cwd using that by (auto simp: absolute_def demo_process_def)
  from loadConfig_valid [OF demo_loadConfig this] show ?thesis by simp
qed

end
