(* ===== verification/Server_Invariant.thy ===== *)
theory Server_Invariant
  imports Startup
begin

text \<open>
  The invariant of the server over all its handlers, one running at a time: which sandboxes the
  map holds and in which state they are, what the heap holds besides, and where each namespace of
  the pool is. Every handler keeps the first part and settles the account of the pool, for every
  behaviour of the host.
\<close>

section \<open>The invariant\<close>

definition sb_live :: "string \<Rightarrow> sandbox \<Rightarrow> bool" where
  "sb_live k sb \<longleftrightarrow> sb_ID sb = k \<and> sb_state sb = sandboxStateRunning \<and> sb_inFlightExec sb = 0"

definition sb_dead :: "sandbox \<Rightarrow> bool" where
  "sb_dead sb \<longleftrightarrow> sb_state sb = sandboxStateClosed \<and> sb_Netns sb = None \<and> sb_Agent sb = None"

definition issued :: "server \<Rightarrow> string \<Rightarrow> bool" where
  "issued s k \<longleftrightarrow> (\<exists>n. k = ''sb-'' @ utoa n \<and> 0 < n \<and> n \<le> unat (nextSandboxID s))"

text \<open>The sandbox map and what it points to; every other sandbox ever made is closed.\<close>

definition sandboxes_ok :: "server \<Rightarrow> bool" where
  "sandboxes_ok s \<longleftrightarrow> distinct (map fst (sandboxes s)) \<and>
     (\<forall>k a. map_of (sandboxes s) k = Some a \<longrightarrow> a < length (heap s) \<and> sb_live k (heap s ! a) \<and> issued s k) \<and>
     (\<forall>a < length (heap s). (\<forall>k. map_of (sandboxes s) k \<noteq> Some a) \<longrightarrow> sb_dead (heap s ! a))"

text \<open>With the account of the pool: besides the free namespaces and the held ones, some may be lost.\<close>

definition server_ok :: "server \<Rightarrow> bool" where
  "server_ok s \<longleftrightarrow> (\<exists>L. pool_ok L s) \<and> sandboxes_ok s"


section \<open>Creating a sandbox\<close>

definition fresh_sandbox :: "string \<Rightarrow> netnsConfig \<Rightarrow> sandbox \<Rightarrow> bool" where
  "fresh_sandbox sid nc sb \<longleftrightarrow> sb_live sid sb \<and> sb_Netns sb = Some nc"

text \<open>A failure leaves the namespace to be released, unless it was \<open>lossy\<close> and deleted it.\<close>

definition vm_result :: "bool \<Rightarrow> string \<Rightarrow> netnsConfig \<Rightarrow> sandbox res \<times> bool \<Rightarrow> bool" where
  "vm_result lossy sid nc r \<longleftrightarrow> (case fst r of Inr sb \<Rightarrow> fresh_sandbox sid nc sb \<and> \<not> snd r | Inl _ \<Rightarrow> snd r \<or> lossy)"

lemma boot_vm_result: "returns (boot_vm E cfg sid d f nc) (vm_result True sid nc)"
  unfolding boot_vm_def
  by (intro returns_rules) (simp_all add: vm_result_def fresh_sandbox_def sb_live_def new_sandbox_def split: prod.split)

lemma restore_vm_result: "returns (restore_vm E cfg sid st mem d f nc) (vm_result False sid nc)"
  unfolding restore_vm_def abort_vm_def
  by (intro returns_rules) (simp_all add: vm_result_def fresh_sandbox_def sb_live_def new_sandbox_def split: prod.split)

text \<open>What creating a sandbox does to the server: nothing but for the pool, or one more sandbox on the heap.\<close>

definition created :: "bool \<Rightarrow> string \<Rightarrow> server \<Rightarrow> nat res \<Rightarrow> server \<Rightarrow> bool" where
  "created lossy sid s r s' \<longleftrightarrow> settles (lossy \<and> isl r) s s' \<and>
     (case r of
        Inl _ \<Rightarrow> net_only s s'
      | Inr a \<Rightarrow> \<exists>t sb. net_only s t \<and> s' = t\<lparr>heap := heap s @ [sb]\<rparr> \<and> a = length (heap s) \<and> sb_live sid sb)"

lemma created_Inl [simp]: "created lossy sid s (Inl e) s"
  by (simp add: created_def)

lemma net_only_held: "net_only s s' \<Longrightarrow> held s' = held s"
  using net_onlyD [of s s'] by (simp add: held_def)

text \<open>Between acquiring the namespace, which makes \<open>X\<close> one of those that are out, and the end.\<close>

definition vm_made :: "bool \<Rightarrow> string \<Rightarrow> netnsConfig multiset \<Rightarrow> server \<Rightarrow> sandbox res \<Rightarrow> server \<Rightarrow> bool" where
  "vm_made lossy sid X s r s' \<longleftrightarrow> net_only s s' \<and>
     (case r of
        Inl _ \<Rightarrow> moves X {#} s s' \<or> lossy \<and> (\<exists>nc. moves X (pooled nc) s s')
      | Inr sb \<Rightarrow> \<exists>nc. fresh_sandbox sid nc sb \<and> moves X (pooled nc) s s')"

lemma vm_made_after: "vm_made lossy sid X t r u \<Longrightarrow> net_only s t \<Longrightarrow> moves {#} X s t \<Longrightarrow> vm_made lossy sid {#} s r u"
  unfolding vm_made_def by (auto split: sum.splits intro: net_only_trans moves_trans)

lemma wp_clone_and_acquire:
  "wp (clone_and_acquire E cfg sid src dst label) (\<lambda>(c, n) w'.
      moves {#} (case n of Inr nc \<Rightarrow> pooled nc | Inl _ \<Rightarrow> {#}) (srv w) (srv w') \<and> net_only (srv w) (srv w')) w"
proof -
  have acq: "wp (acquireNetns E sid) (\<lambda>r w'. moves {#} (case r of Inr nc \<Rightarrow> pooled nc | Inl _ \<Rightarrow> {#}) (srv w) (srv w') \<and>
      net_only (srv w) (srv w')) w1" if "srv w1 = srv w" for w1
    using wp_acquireNetns [of E sid w1] that by simp
  show ?thesis
    unfolding clone_and_acquire_def
    by (auto simp: wp_simps wp_all [of "materializeSandboxRootfs _ _ _ _"] intro!: acq wp_mono [OF acq])
qed

lemma wp_with_netns_and_disk:
  assumes rest: "\<And>nc. returns (rest nc) (vm_result lossy sid nc)"
  shows "wp (with_netns_and_disk E rest (c, n))
    (\<lambda>r w'. vm_made lossy sid (case n of Inr nc \<Rightarrow> pooled nc | Inl _ \<Rightarrow> {#}) (srv w) r (srv w')) w"
proof -
  have rel: "wp (releaseNetns E (Some nc)) (\<lambda>_ w'. vm_made lossy sid (pooled nc) (srv w) r (srv w')) w1"
    if "srv w1 = srv w" "isl r" for w1 nc r
    by (rule wp_mono [OF wp_releaseNetns])
       (use that given_back_moves [of "Some nc" "srv w"] in \<open>auto simp: vm_made_def drawn_def isl_def\<close>)
  have res: "vm_result lossy sid nc (r, b)" if "run_state (rest nc) h = ((r, b), h')" for nc h r b h'
    using returnsD [OF rest that] .
  have stop: "vm_made lossy sid (pooled nc) (srv w) r (srv w)" if "vm_result lossy sid nc (r, False)" for nc r
    using that by (auto simp: vm_result_def vm_made_def split: sum.splits intro: exI [of _ nc])
  have fails: "isl r" if "vm_result lossy sid nc (r, True)" for nc and r :: "sandbox res"
    using that by (auto simp: vm_result_def split: sum.splits)
  show ?thesis
    unfolding with_netns_and_disk_def
    by (auto simp: wp_simps wp_all [of "rest _"] vm_made_def [of _ _ "{#}"] split: sum.splits
        intro!: rel wp_mono [OF rel] stop dest!: res dest: fails)
qed

lemma wp_keep_or_remove:
  assumes "vm_made lossy sid {#} (srv w) r (srv w1)"
  shows "wp (keep_or_remove E d b r) (\<lambda>r w'. created lossy sid (srv w) r (srv w')) w1"
proof (cases r)
  case (Inl e)
  have "settles lossy (srv w) (srv w1)"
    using assms Inl settles_lost [of _ "srv w" "srv w1"] settles_moves [of "{#}" "{#}" "srv w" "srv w1"]
    by (auto simp: vm_made_def net_only_held)
  then show ?thesis
    using assms Inl by (simp add: keep_or_remove_def wp_simps created_def vm_made_def wp_all [of "os_RemoveAll _ _"])
next
  case (Inr sb)
  then obtain nc where nc: "net_only (srv w) (srv w1)" "fresh_sandbox sid nc sb" "moves {#} (pooled nc) (srv w) (srv w1)"
    using assms by (auto simp: vm_made_def)
  let ?t = "(srv w1)\<lparr>heap := heap (srv w) @ [sb]\<rparr>"
  have "moves {#} (pooled nc) (srv w) ?t"
    using nc(3) moves_same [of ?t "srv w1"] by (auto intro: moves_trans)
  moreover have "held ?t = held (srv w) + pooled nc"
    using nc(2) by (simp add: held_def pooled_def nets_def fresh_sandbox_def)
  ultimately have "settles False (srv w) ?t"
    by (intro settles_moves [of "{#}" "pooled nc" _ _ "held (srv w)"]) simp_all
  then show ?thesis
    using Inr nc net_onlyD [OF nc(1)] by (auto simp: keep_or_remove_def wp_simps created_def fresh_sandbox_def)
qed

lemma wp_create_in_dir:
  assumes rest: "\<And>d f nc. returns (rest d f nc) (vm_result lossy sid nc)"
  shows "wp (create_in_dir E cfg sid src label keep rest) (\<lambda>r w'. created lossy sid (srv w) r (srv w')) w"
proof -
  have body: "wp (do { prepared \<leftarrow> clone_and_acquire E cfg sid src f label;
      r \<leftarrow> with_netns_and_disk E (rest d f) prepared; keep_or_remove E d keep r })
      (\<lambda>r w'. created lossy sid (srv w) r (srv w')) w1" if w1: "srv w1 = srv w" for w1 d f
    unfolding wp_bind
  proof (rule wp_mono [OF wp_clone_and_acquire], goal_cases)
    case (1 prepared w2)
    obtain c n where p: "prepared = (c, n)" by (rule prod.exhaust)
    show ?case unfolding p
      by (rule wp_mono [OF wp_with_netns_and_disk [OF rest]], rule wp_keep_or_remove)
         (use 1 p w1 in \<open>auto elim: vm_made_after\<close>)
  qed
  show ?thesis
    unfolding create_in_dir_def Let_def wp_bind [of "onhost _"] wp_onhost wp_option
    by (auto simp: wp_return wp_all [of "os_MkdirAll _ _"] intro!: body)
qed

lemma wp_createSandbox:
  "wp (createSandbox E cfg sid) (\<lambda>r w'. created (\<not> EnableSnapshots cfg) sid (srv w) r (srv w')) w"
  "wp (createSandboxFromUserSnapshot E cfg sid meta) (\<lambda>r w'. created False sid (srv w) r (srv w')) w"
proof -
  have restore: "wp (restoreSandboxFromArtifacts E cfg sid disk st mem label keep) (\<lambda>r w'. created False sid (srv w) r (srv w')) w1"
    if "srv w1 = srv w" for w1 disk st mem label keep
    using wp_create_in_dir [of _ _ sid _ _ _ _ _ w1, OF restore_vm_result] that
    by (simp add: restoreSandboxFromArtifacts_def)
  show "wp (createSandbox E cfg sid) (\<lambda>r w'. created (\<not> EnableSnapshots cfg) sid (srv w) r (srv w')) w"
    unfolding createSandbox_def createSandboxFromSnapshot_def wp_bind wp_sum wp_if
    by (auto simp: wp_return intro!: wp_onhost_any restore wp_create_in_dir boot_vm_result)
  show "wp (createSandboxFromUserSnapshot E cfg sid meta) (\<lambda>r w'. created False sid (srv w) r (srv w')) w"
    unfolding createSandboxFromUserSnapshot_def wp_bind wp_option
    by (auto simp: wp_return intro!: wp_onhost_any restore)
qed



section \<open>Registering it\<close>

lemma unat_next: "(n::64 word) \<noteq> - 1 \<Longrightarrow> unat (n + 1) = unat n + 1"
proof -
  assume "n \<noteq> - 1"
  moreover have "unat (- 1 :: 64 word) = 2 ^ 64 - 1" by (simp add: unsigned_minus_1_eq_mask mask_eq_exp_minus_1)
  ultimately have "unat n \<noteq> 2 ^ 64 - 1" by (metis word_unat_eq_iff)
  moreover have "unat n < 2 ^ 64" using unsigned_less [of n] by simp
  ultimately show ?thesis by (simp add: unat_word_ariths)
qed

lemma sandboxes_okD:
  assumes "sandboxes_ok s" "map_of (sandboxes s) k = Some a"
  shows "a < length (heap s)" "sb_live k (heap s ! a)" "issued s k"
  using assms by (auto simp: sandboxes_ok_def)

lemma sandboxes_ok_same_address:
  assumes "sandboxes_ok s" "map_of (sandboxes s) k = Some a" "map_of (sandboxes s) l = Some a"
  shows "k = l"
  using sandboxes_okD(2) [OF assms(1,2)] sandboxes_okD(2) [OF assms(1,3)] by (simp add: sb_live_def)

text \<open>Counters and the pool do not matter to this part of the invariant.\<close>

lemma sandboxes_ok_cong:
  assumes "sandboxes_ok s" "heap s' = heap s" "sandboxes s' = sandboxes s"
    "unat (nextSandboxID s) \<le> unat (nextSandboxID s')"
  shows "sandboxes_ok s'"
  using assms by (fastforce simp: sandboxes_ok_def issued_def)

lemma sandboxes_ok_register:
  assumes ok: "sandboxes_ok s" and n: "nextSandboxID s \<noteq> - 1"
    and sid: "sid = ''sb-'' @ utoa (unat (nextSandboxID s + 1))"
    and made: "created lossy sid (s\<lparr>nextSandboxID := nextSandboxID s + 1\<rparr>) (Inr a) t"
  shows "sandboxes_ok (t\<lparr>sandboxes := AList.update sid a (sandboxes t)\<rparr>) \<and> sb_ID (heap t ! a) = sid"
proof -
  obtain t0 sb where net: "net_only (s\<lparr>nextSandboxID := nextSandboxID s + 1\<rparr>) t0"
    and t: "t = t0\<lparr>heap := heap s @ [sb]\<rparr>" "a = length (heap s)" "sb_live sid sb"
    using made by (auto simp: created_def)
  have map: "sandboxes t = sandboxes s" "heap t = heap s @ [sb]" "nextSandboxID t = nextSandboxID s + 1"
    using net_onlyD [OF net] t by simp_all
  have fresh: "map_of (sandboxes s) sid = None"
    using ok unat_next [OF n] unfolding sid
    by (cases "map_of (sandboxes s) sid") (auto simp: sid dest!: sandboxes_okD(3) simp: issued_def)
  let ?t = "t\<lparr>sandboxes := AList.update sid a (sandboxes t)\<rparr>"
  have iss: "issued ?t k" if "k = sid \<or> issued s k" for k
    using that unat_next [OF n] by (auto simp: issued_def map sid intro: le_SucI)
  have "b < length (heap ?t) \<and> sb_live k (heap ?t ! b) \<and> issued ?t k" if "map_of (sandboxes ?t) k = Some b" for k b
  proof (cases "k = sid")
    case True
    with that t(2,3) iss show ?thesis by (auto simp: update_conv' map nth_append)
  next
    case False
    with that have "map_of (sandboxes s) k = Some b" by (simp add: update_conv' map)
    from sandboxes_okD [OF ok this] iss show ?thesis by (simp add: map nth_append)
  qed
  moreover have "sb_dead (heap ?t ! b)" if "b < length (heap ?t)" "\<forall>k. map_of (sandboxes ?t) k \<noteq> Some b" for b
  proof -
    have "b \<noteq> a"
      using that(2) [rule_format, of sid] by (simp add: update_conv' map)
    moreover have "map_of (sandboxes s) k \<noteq> Some b" for k
      using that(2) [rule_format, of k] fresh by (cases "k = sid") (simp_all add: update_conv' map)
    ultimately show ?thesis
      using that(1) t(2) ok by (simp add: map nth_append sandboxes_ok_def)
  qed
  moreover have "distinct (map fst (sandboxes ?t))"
    using ok by (simp add: map distinct_update sandboxes_ok_def)
  moreover have "sb_ID (heap t ! a) = sid"
    using t(2,3) by (simp add: map sb_live_def)
  ultimately show ?thesis by (simp add: sandboxes_ok_def)
qed


section \<open>Using it\<close>

text \<open>An exec and a snapshot change nothing of the server but the agent connection of their sandbox.\<close>

definition agent_only :: "nat \<Rightarrow> 'x world \<Rightarrow> 'x world \<Rightarrow> bool" where
  "agent_only a w w' \<longleftrightarrow> (\<exists>x. srv w' = (srv w)\<lparr>heap := (heap (srv w))[a := (heap (srv w) ! a)\<lparr>sb_Agent := x\<rparr>]\<rparr>)"

interpretation agent_only: preorder_rel "agent_only a" for a
proof
  show "agent_only a w w" for a and w :: "'a world"
    unfolding agent_only_def by (rule exI [of _ "sb_Agent (heap (srv w) ! a)"]) simp
  show "agent_only a u w" if "agent_only a u v" "agent_only a v w" for a and u v w :: "'a world"
    using that unfolding agent_only_def by (cases "a < length (heap (srv u))") (auto simp: list_update_beyond)
qed

lemma agent_only_steps [frames]:
  "keeps (agent_only a) (onhost m)" "keeps (agent_only a) (sb_at b)"
  "keeps (agent_only a) (sb_modify a (\<lambda>s. s\<lparr>sb_Agent := x\<rparr>))"
  using agent_only.refl_R [of a]
  by (auto intro!: keepsI simp: onhost_def sb_at_def sb_modify_def split: prod.splits)
     (auto simp: agent_only_def)

lemma agent_only_exec: "keeps (agent_only a) (exec_transport E cfg a req useShell)"
  unfolding exec_transport_def exec_agent_def by (intro agent_only.keeps_rules frames)

lemma agent_only_snapshot: "keeps (agent_only a) (createUserSnapshotFromSandbox E cfg a snapshotID name)"
  unfolding createUserSnapshotFromSandbox_def by (intro agent_only.keeps_rules frames)


text \<open>Replacing a live sandbox by one that differs in its agent connection only.\<close>

lemma held_update:
  assumes "sb_Netns sb = sb_Netns (heap s ! a)"
  shows "held (s\<lparr>heap := (heap s)[a := sb]\<rparr>) = held s"
proof (cases "a < length (heap s)")
  case True
  have "map nets ((heap s)[a := sb]) = (map nets (heap s))[a := map nets (heap s) ! a]"
    using assms True by (simp add: map_update nets_def)
  then show ?thesis by (simp add: held_def)
qed (simp add: list_update_beyond)

lemma sandboxes_ok_update:
  assumes ok: "sandboxes_ok s" and k: "map_of (sandboxes s) k = Some a" and sb: "sb_live k sb"
  shows "sandboxes_ok (s\<lparr>heap := (heap s)[a := sb]\<rparr>)"
proof -
  let ?t = "s\<lparr>heap := (heap s)[a := sb]\<rparr>"
  have a: "a < length (heap s)" by (rule sandboxes_okD [OF ok k])
  have "distinct (map fst (sandboxes ?t))"
    using ok by (simp add: sandboxes_ok_def)
  moreover have "b < length (heap ?t) \<and> sb_live l (heap ?t ! b) \<and> issued ?t l" if "map_of (sandboxes ?t) l = Some b" for l b
  proof -
    have l: "map_of (sandboxes s) l = Some b" using that by simp
    have "l = k" if "b = a" using sandboxes_ok_same_address [OF ok l] k that by simp
    then show ?thesis using sandboxes_okD [OF ok l] sb a by (simp add: nth_list_update issued_def)
  qed
  moreover have "sb_dead (heap ?t ! b)" if "b < length (heap ?t)" "\<forall>l. map_of (sandboxes ?t) l \<noteq> Some b" for b
  proof -
    have "b \<noteq> a" using that(2) k by auto
    with that ok show ?thesis by (simp add: sandboxes_ok_def)
  qed
  ultimately show ?thesis unfolding sandboxes_ok_def by blast
qed

lemma agent_only_ok:
  assumes "sandboxes_ok (srv w)" "map_of (sandboxes (srv w)) k = Some a" "agent_only a w w'"
  shows "sandboxes_ok (srv w')"
  using assms sandboxes_okD [OF assms(1,2)]
  by (auto simp: agent_only_def sb_live_def intro!: sandboxes_ok_update)


definition benign :: "'x world \<Rightarrow> 'x world \<Rightarrow> bool" where
  "benign w w' \<longleftrightarrow> srv w' = srv w \<or> (\<exists>k a. map_of (sandboxes (srv w)) k = Some a \<and> agent_only a w w')"

lemma benign_ok: "sandboxes_ok (srv w) \<Longrightarrow> benign w w' \<Longrightarrow> sandboxes_ok (srv w')"
  by (auto simp: benign_def intro: agent_only_ok)

text \<open>An exec on a live sandbox counts itself, runs, and stops counting.\<close>

lemma exec_count:
  "sb_live k sb \<Longrightarrow> finishExec ((snd (tryStartExec sb))\<lparr>sb_Agent := x\<rparr>) = sb\<lparr>sb_Agent := x\<rparr>"
  "sb_live k sb \<Longrightarrow> finishExec (snd (tryStartExec sb)) = sb"
  by (cases sb; simp add: tryStartExec_def finishExec_def sb_live_def)+

lemma exec_counted:
  assumes "a < length (heap (srv w))" "sb_live k (heap (srv w) ! a)"
    and "agent_only a (w\<lparr>srv := (srv w)\<lparr>heap := (heap (srv w))[a := snd (tryStartExec (heap (srv w) ! a))]\<rparr>\<rparr>) w1"
  shows "agent_only a w (w1\<lparr>srv := (srv w1)\<lparr>heap := (heap (srv w1))[a := finishExec (heap (srv w1) ! a)]\<rparr>\<rparr>)"
proof -
  obtain x where "srv w1 = (srv w)\<lparr>heap := (heap (srv w))[a := (snd (tryStartExec (heap (srv w) ! a)))\<lparr>sb_Agent := x\<rparr>]\<rparr>"
    using assms(1,3) by (auto simp: agent_only_def)
  with assms(1) exec_count(1) [OF assms(2), of x] show ?thesis
    by (auto simp: agent_only_def)
qed

lemma wp_handleExec:
  assumes ok: "sandboxes_ok (srv w)"
  shows "wp (handleExec E cfg body) (\<lambda>_. benign w) w"
proof -
  have live: "a < length (heap (srv w))" "sb_live k (heap (srv w) ! a)" "fst (tryStartExec (heap (srv w) ! a)) = None"
    if "map_of (sandboxes (srv w)) k = Some a" for k a
    using sandboxes_okD [OF ok that] by (simp_all add: tryStartExec_def sb_live_def)
  have none: "benign w (w\<lparr>srv := (srv w)\<lparr>heap := (heap (srv w))[a := finishExec (snd (tryStartExec (heap (srv w) ! a)))]\<rparr>\<rparr>)"
    if "map_of (sandboxes (srv w)) k = Some a" for k a
    using exec_count(2) [OF live(2) [OF that]] by (simp add: benign_def)
  have fin: "benign w (w1\<lparr>srv := (srv w1)\<lparr>heap := (heap (srv w1))[a := finishExec (heap (srv w1) ! a)]\<rparr>\<rparr>)"
    if "map_of (sandboxes (srv w)) k = Some a"
      "agent_only a (w\<lparr>srv := (srv w)\<lparr>heap := (heap (srv w))[a := snd (tryStartExec (heap (srv w) ! a))]\<rparr>\<rparr>) w1" for k a w1
    using exec_counted [OF live(1,2) [OF that(1)] that(2)] that(1) by (auto simp: benign_def)
  show ?thesis
    unfolding handleExec_def
    by (auto simp: wp_simps lookup_sandbox_def live none wp_all [of "exec_transport _ _ _ _ _"] benign_def [of w w]
        intro!: fin [OF _ keepsD [OF agent_only_exec]])
qed

lemma wp_handleSnapshotCreate:
  "wp (handleSnapshotCreate E cfg body) (\<lambda>_ w'. \<exists>n. benign (w\<lparr>srv := (srv w)\<lparr>nextSnapshotID := n\<rparr>\<rparr>) w') w"
proof -
  have snap: "\<exists>n. benign (w\<lparr>srv := (srv w)\<lparr>nextSnapshotID := n\<rparr>\<rparr>) w'"
    if "map_of (sandboxes (srv w)) k = Some a"
      "run_state (createUserSnapshotFromSandbox E cfg a i name) (w\<lparr>srv := (srv w)\<lparr>nextSnapshotID := m\<rparr>\<rparr>) = (r, w')" for k a i name m r w'
    using keepsD [OF agent_only_snapshot that(2)] that(1) by (auto simp: benign_def intro!: exI [of _ m])
  have same: "\<exists>n. benign (w\<lparr>srv := (srv w)\<lparr>nextSnapshotID := n\<rparr>\<rparr>) w"
    by (rule exI [of _ "nextSnapshotID (srv w)"]) (simp add: benign_def)
  show ?thesis
    unfolding handleSnapshotCreate_def
    by (auto simp: wp_simps lookup_sandbox_def next_snapshot_id_def same wp_all [of "createUserSnapshotFromSandbox _ _ _ _ _"]
        dest: snap)
qed



section \<open>Tearing it down\<close>

lemma held_drop:
  assumes "a < length (heap s)" "sb_Netns sb = None"
  shows "held s = held (s\<lparr>heap := (heap s)[a := sb]\<rparr>) + drawn (sb_Netns (heap s ! a))"
proof -
  let ?A = "concat (map nets (take a (heap s)))" and ?B = "concat (map nets (drop (Suc a) (heap s)))"
  have "concat (map nets (heap s)) = ?A @ nets (heap s ! a) @ ?B"
    using arg_cong [OF id_take_nth_drop [OF assms(1)], of "\<lambda>sbs. concat (map nets sbs)"] by simp
  moreover have "concat (map nets ((heap s)[a := sb])) = ?A @ ?B"
    using assms(2) by (simp add: upd_conv_take_nth_drop [OF assms(1)] nets_def)
  moreover have "mset (filter Pooled (nets (heap s ! a))) = drawn (sb_Netns (heap s ! a))"
    by (simp add: nets_def drawn_def pooled_def split: option.split)
  ultimately show ?thesis by (simp add: held_def ac_simps flip: mset_filter)
qed

text \<open>The namespace of the sandbox is given back, and it holds neither namespace nor connection afterwards.\<close>

definition cleaned :: "nat \<Rightarrow> server \<Rightarrow> server \<Rightarrow> bool" where
  "cleaned a s s' \<longleftrightarrow> given_back (sb_Netns (heap s ! a)) s s' \<and> (\<exists>t. net_only s t \<and>
     s' = t\<lparr>heap := (heap s)[a := (heap s ! a)\<lparr>sb_Agent := None, sb_Netns := None\<rparr>]\<rparr>)"

lemma wp_cleanupSandbox:
  assumes a: "a < length (heap (srv w))"
  shows "wp (cleanupSandbox E a) (\<lambda>_ w'. cleaned a (srv w) (srv w')) w"
proof -
  let ?sb = "heap (srv w) ! a" and ?H = "heap (srv w)"
  let ?t = "(srv w)\<lparr>heap := ?H[a := ?sb\<lparr>sb_Agent := None\<rparr>]\<rparr>"
  have fin: "cleaned a (srv w) ((srv w2)\<lparr>heap := (heap (srv w2))[a := (heap (srv w2) ! a)\<lparr>sb_Netns := None\<rparr>]\<rparr>)"
    if give: "given_back (sb_Netns ?sb) ?t (srv w2)" and net: "net_only ?t (srv w2)" for w2
  proof -
    obtain p n where w2: "srv w2 = (srv w)\<lparr>heap := ?H[a := ?sb\<lparr>sb_Agent := None\<rparr>], pool := p, nextSubnet := n\<rparr>"
      using net by (auto simp: net_only_def)
    have "net_only (srv w) ((srv w)\<lparr>pool := p, nextSubnet := n\<rparr>)" by (auto simp: net_only_def)
    moreover have "given_back (sb_Netns ?sb) (srv w) ((srv w)\<lparr>pool := p\<rparr>)"
      using give by (simp add: given_back_def w2 split: option.splits)
    ultimately show ?thesis
      using a unfolding cleaned_def w2
      by (intro conjI exI [of _ "(srv w)\<lparr>pool := p, nextSubnet := n\<rparr>"]) (simp_all add: given_back_def split: option.splits)
  qed
  show ?thesis
    unfolding cleanupSandbox_def wp_bind wp_sb wp_Let wp_return wp_option
    by (auto simp: wp_return intro!: wp_onhost_any wp_mono [OF wp_releaseNetns] fin)
qed


text \<open>Removing a sandbox from the map after it has been cleaned and closed.\<close>

definition destroyed :: "string \<Rightarrow> nat \<Rightarrow> server \<Rightarrow> server \<Rightarrow> bool" where
  "destroyed k a s s' \<longleftrightarrow> given_back (sb_Netns (heap s ! a)) s s' \<and> sandboxes s' = AList.delete k (sandboxes s) \<and>
     (\<exists>sb. sb_dead sb \<and> heap s' = (heap s)[a := sb]) \<and> nextSandboxID s' = nextSandboxID s"

lemma sandboxes_ok_destroyed:
  assumes ok: "sandboxes_ok s" and k: "map_of (sandboxes s) k = Some a" and d: "destroyed k a s s'"
  shows "sandboxes_ok s'"
proof -
  obtain sb where sb: "sb_dead sb" "heap s' = (heap s)[a := sb]" and maps: "sandboxes s' = AList.delete k (sandboxes s)"
    and nxt: "nextSandboxID s' = nextSandboxID s"
    using d by (auto simp: destroyed_def)
  have a: "a < length (heap s)" by (rule sandboxes_okD [OF ok k])
  have "b < length (heap s') \<and> sb_live l (heap s' ! b) \<and> issued s' l" if "map_of (sandboxes s') l = Some b" for l b
  proof -
    have l: "map_of (sandboxes s) l = Some b" "l \<noteq> k"
      using that by (auto simp: maps delete_conv' split: if_splits)
    then have "b \<noteq> a" using sandboxes_ok_same_address [OF ok k] by blast
    then show ?thesis using sandboxes_okD [OF ok l(1)] by (simp add: sb issued_def nxt)
  qed
  moreover have "sb_dead (heap s' ! b)" if "b < length (heap s')" "\<forall>l. map_of (sandboxes s') l \<noteq> Some b" for b
  proof (cases "b = a")
    case False
    have "map_of (sandboxes s) l \<noteq> Some b" for l
      using that(2) [rule_format, of l] k False by (auto simp: maps delete_conv' split: if_splits)
    with that ok False show ?thesis by (simp add: sb sandboxes_ok_def)
  qed (use sb a in simp)
  moreover have "distinct (map fst (sandboxes s'))"
    using ok by (simp add: maps distinct_delete sandboxes_ok_def)
  ultimately show ?thesis unfolding sandboxes_ok_def by blast
qed

text \<open>The account of the pool is settled: what the sandbox held is free again.\<close>

lemma settles_destroyed:
  assumes a: "a < length (heap s)" and d: "destroyed k a s s'"
  shows "settles b s s'"
proof -
  obtain sb where sb: "sb_dead sb" "heap s' = (heap s)[a := sb]"
    using d by (auto simp: destroyed_def)
  have "held s = held s' + drawn (sb_Netns (heap s ! a))"
    using held_drop [OF a, of sb] sb by (simp add: sb_dead_def held_def)
  moreover have "moves (drawn (sb_Netns (heap s ! a))) {#} s s'"
    using d by (simp add: destroyed_def given_back_moves)
  ultimately show ?thesis by (auto intro: settles_moves)
qed

lemma wp_wait_drain: "(\<And>b h. Q b (w\<lparr>host := h\<rparr>)) \<Longrightarrow> wp (wait_drain E a) Q w"
  unfolding wait_drain_def wp_bind wp_sb by (intro wp_onhost_any)

lemma cleaned_closed:
  assumes "cleaned a s t" "a < length (heap s)"
  shows "\<exists>sb. let u = t\<lparr>heap := (heap t)[a := finishDestroy (heap t ! a)]\<rparr> in given_back (sb_Netns (heap s ! a)) s u \<and>
    sandboxes u = sandboxes s \<and> sb_dead sb \<and> heap u = (heap s)[a := sb] \<and> nextSandboxID u = nextSandboxID s"
proof -
  obtain t0 where net: "net_only s t0" and t: "t = t0\<lparr>heap := (heap s)[a := (heap s ! a)\<lparr>sb_Agent := None, sb_Netns := None\<rparr>]\<rparr>"
    and give: "given_back (sb_Netns (heap s ! a)) s t"
    using assms(1) by (auto simp: cleaned_def)
  let ?u = "t\<lparr>heap := (heap t)[a := finishDestroy (heap t ! a)]\<rparr>"
  have "given_back (sb_Netns (heap s ! a)) s ?u"
    using give by (simp add: given_back_def split: option.splits)
  moreover have "sb_dead (finishDestroy (heap t ! a))"
    using assms(2) by (simp add: t sb_dead_def finishDestroy_def)
  moreover have "heap ?u = (heap s)[a := finishDestroy (heap t ! a)]"
    by (simp add: t)
  ultimately show ?thesis
    using net_onlyD [OF net] by (auto simp: Let_def t)
qed

definition torn :: "'x world \<Rightarrow> 'x world \<Rightarrow> bool" where
  "torn w w' \<longleftrightarrow> srv w' = srv w \<or> (\<exists>k a. map_of (sandboxes (srv w)) k = Some a \<and> destroyed k a (srv w) (srv w'))"

lemma torn_ok: "sandboxes_ok (srv w) \<Longrightarrow> torn w w' \<Longrightarrow> sandboxes_ok (srv w')"
  by (auto simp: torn_def intro: sandboxes_ok_destroyed)

lemma wp_handleDestroy_found:
  assumes ok: "sandboxes_ok (srv w)" and k: "map_of (sandboxes (srv w)) k = Some a"
    and body: "decodeJSON (dec_single ''sandbox_id'') [] body = Some k" "TrimSpace k \<noteq> []"
  shows "wp (handleDestroy E body) (\<lambda>r w'. (r = Reply 200 (id_body ''status'' ''ok'') \<or> (\<exists>m. r = server_error m)) \<and>
      destroyed k a (srv w) (srv w')) w"
proof -
  have live: "fst (beginDestroy (heap (srv w) ! a))" "a < length (heap (srv w))"
    using sandboxes_okD [OF ok k] by (simp_all add: beginDestroy_def sb_live_def)
  have tear: "wp (cleanupSandbox E a) (\<lambda>r w2. destroyed k a (srv w) ((srv w2)\<lparr>heap := (heap (srv w2))[a := finishDestroy (heap (srv w2) ! a)]\<rparr>)) w1"
    if w1: "srv w1 = (srv w)\<lparr>sandboxes := AList.delete k (sandboxes (srv w)),
      heap := (heap (srv w))[a := snd (beginDestroy (heap (srv w) ! a))]\<rparr>" for w1
  proof (rule wp_mono [OF wp_cleanupSandbox])
    show "a < length (heap (srv w1))" using live w1 by simp
    fix r and w2 :: "'a world"
    assume "cleaned a (srv w1) (srv w2)"
    moreover have "sb_Netns (heap (srv w1) ! a) = sb_Netns (heap (srv w) ! a)" "pool (srv w1) = pool (srv w)"
      using live(2) w1 by (simp_all add: beginDestroy_def)
    ultimately show "destroyed k a (srv w) ((srv w2)\<lparr>heap := (heap (srv w2))[a := finishDestroy (heap (srv w2) ! a)]\<rparr>)"
      using cleaned_closed [of a "srv w1" "srv w2"] live(2) w1 by (auto simp: destroyed_def Let_def given_back_def split: option.splits)
  qed
  show ?thesis
    unfolding handleDestroy_def begin_destroy_def lookup_sandbox_def wp_return wp_bind wp_sb wp_if wp_option wp_modify_srv wp_gets_srv
    by (auto simp: live k body intro!: wp_wait_drain wp_mono [OF tear] split: option.splits)
qed

lemma handleDestroy_unknown:
  assumes "decodeJSON (dec_single ''sandbox_id'') [] body = Some k" "TrimSpace k \<noteq> []" "map_of (sandboxes (srv w)) k = None"
  shows "run_state (handleDestroy E body) w = (not_found ''sandbox not found'', w)"
proof -
  have "AList.delete k (sandboxes (srv w)) = sandboxes (srv w)"
    using assms(3) by (simp add: map_of_eq_None_iff AList.delete_id)
  with assms show ?thesis by (simp add: handleDestroy_def lookup_sandbox_def)
qed

lemma wp_handleDestroy:
  assumes ok: "sandboxes_ok (srv w)"
  shows "wp (handleDestroy E body) (\<lambda>_. torn w) w"
proof (cases "decodeJSON (dec_single ''sandbox_id'') [] body")
  case None
  then show ?thesis by (simp add: handleDestroy_def wp_return torn_def)
next
  case (Some k)
  consider "TrimSpace k = []" | "TrimSpace k \<noteq> []" "map_of (sandboxes (srv w)) k = None"
    | a where "TrimSpace k \<noteq> []" "map_of (sandboxes (srv w)) k = Some a" by fastforce
  then show ?thesis
  proof cases
    case 1
    with Some show ?thesis by (simp add: handleDestroy_def wp_return torn_def)
  next
    case 2
    with handleDestroy_unknown [OF Some 2] show ?thesis by (simp add: wp_def torn_def)
  next
    case 3
    show ?thesis by (rule wp_mono [OF wp_handleDestroy_found [OF ok 3(2) Some 3(1)]]) (use 3(2) in \<open>auto simp: torn_def\<close>)
  qed
qed


section \<open>Every handler keeps the invariant\<close>

text \<open>What a request may do to the sandboxes and to their counter.\<close>

definition kept :: "server \<Rightarrow> server \<Rightarrow> bool" where
  "kept s s' \<longleftrightarrow> sandboxes_ok s' \<and> unat (nextSandboxID s') \<le> unat (nextSandboxID s) + 1"

lemma kept_refl: "sandboxes_ok s \<Longrightarrow> kept s s"
  by (simp add: kept_def)

lemma created_next: "created lossy sid s r t \<Longrightarrow> nextSandboxID t = nextSandboxID s"
  by (auto simp: created_def dest!: net_onlyD split: sum.splits)

lemma kept_failed:
  assumes "sandboxes_ok s" "nextSandboxID s \<noteq> - 1" "created lossy sid (s\<lparr>nextSandboxID := nextSandboxID s + 1\<rparr>) (Inl e) t"
  shows "kept s t"
proof -
  have "net_only (s\<lparr>nextSandboxID := nextSandboxID s + 1\<rparr>) t"
    using assms(3) by (simp add: created_def)
  with net_onlyD [OF this] unat_next [OF assms(2)] show ?thesis
    by (auto simp: kept_def intro: sandboxes_ok_cong [OF assms(1)])
qed

lemma kept_registered:
  assumes ok: "sandboxes_ok s" and n: "nextSandboxID s \<noteq> - 1"
    and made: "created lossy (''sb-'' @ utoa (unat (nextSandboxID s + 1))) (s\<lparr>nextSandboxID := nextSandboxID s + 1\<rparr>) (Inr a) t"
  shows "kept s (t\<lparr>sandboxes := AList.update (sb_ID (heap t ! a)) a (sandboxes t)\<rparr>)"
  using sandboxes_ok_register [OF ok n refl made] created_next [OF made] unat_next [OF n]
  by (simp add: kept_def)

text \<open>Both handlers that create a sandbox end the same way.\<close>

definition enrol :: "nat res \<Rightarrow> ('x world, reply) state" where
  "enrol r = (case r of Inl e \<Rightarrow> return (server_error (Error e)) | Inr a \<Rightarrow> register a)"

fun status :: "reply \<Rightarrow> int option" where
  "status (Reply c _) = Some c"
| "status Panic = None"

lemma wp_enrol:
  assumes ok: "sandboxes_ok (srv w)" and n: "nextSandboxID (srv w) \<noteq> - 1"
    and made: "created lossy (''sb-'' @ utoa (unat (nextSandboxID (srv w) + 1))) ((srv w)\<lparr>nextSandboxID := nextSandboxID (srv w) + 1\<rparr>) r (srv w1)"
  shows "wp (enrol r) (\<lambda>_ w'. kept (srv w) (srv w')) w1"
  using made kept_failed [OF ok n] kept_registered [OF ok n]
  by (auto simp: enrol_def register_def wp_simps split: sum.split)

lemma wp_next_sandbox_id:
  "wp next_sandbox_id Q w = Q (''sb-'' @ utoa (unat (nextSandboxID (srv w) + 1)))
     (w\<lparr>srv := (srv w)\<lparr>nextSandboxID := nextSandboxID (srv w) + 1\<rparr>\<rparr>)"
  by (simp add: next_sandbox_id_def wp_simps)

lemma wp_create:
  assumes ok: "sandboxes_ok (srv w)" and n: "nextSandboxID (srv w) \<noteq> - 1" and w1: "srv w1 = srv w"
    and c: "\<And>sid w. wp (create sid) (\<lambda>r w'. created lossy sid (srv w) r (srv w')) w"
  shows "wp (do { sid \<leftarrow> next_sandbox_id; r \<leftarrow> create sid; enrol r }) (\<lambda>_ w'. kept (srv w) (srv w')) w1"
  unfolding wp_bind wp_next_sandbox_id w1
  by (rule wp_mono [OF c]) (use ok in \<open>auto intro!: wp_enrol [OF ok n]\<close>)

text \<open>What a client sees of it: the reply, the map and the counter. The account of the pool is settled.\<close>

definition registered :: "server \<Rightarrow> reply \<Rightarrow> server \<Rightarrow> bool" where
  "registered s r s' \<longleftrightarrow> nextSandboxID s' = nextSandboxID s + 1 \<and>
    ((\<exists>m. r = server_error m) \<and> sandboxes s' = sandboxes s \<or>
     (\<exists>sid a. sid = ''sb-'' @ utoa (unat (nextSandboxID s + 1)) \<and> r = Reply 200 (id_body ''sandbox_id'' sid) \<and>
       sandboxes s' = AList.update sid a (sandboxes s) \<and> sb_live sid (heap s' ! a)))"

lemma wp_create_reply:
  assumes w1: "srv w1 = srv w"
    and c: "\<And>sid w. wp (create sid) (\<lambda>r w'. created lossy sid (srv w) r (srv w')) w"
  shows "wp (do { sid \<leftarrow> next_sandbox_id; r \<leftarrow> create sid; enrol r }) (\<lambda>r w'. registered (srv w) r (srv w')) w1"
  unfolding wp_bind wp_next_sandbox_id w1
  by (rule wp_mono [OF c])
     (auto simp: enrol_def register_def wp_simps created_def registered_def nth_append sb_live_def
       dest!: net_onlyD split: sum.splits)

lemma wp_create_settles:
  assumes w1: "srv w1 = srv w"
    and c: "\<And>sid w. wp (create sid) (\<lambda>r w'. created lossy sid (srv w) r (srv w')) w"
  shows "wp (do { sid \<leftarrow> next_sandbox_id; r \<leftarrow> create sid; enrol r })
    (\<lambda>r w'. settles (lossy \<and> status r = Some 500) (srv w) (srv w')) w1"
proof -
  have same: "settles b ((srv w)\<lparr>nextSandboxID := n\<rparr>) t \<Longrightarrow> settles b (srv w) (t\<lparr>sandboxes := m\<rparr>)"
    "settles b ((srv w)\<lparr>nextSandboxID := n\<rparr>) t \<Longrightarrow> settles b (srv w) t" for b n t m
    using settles_cong [of "(srv w)\<lparr>nextSandboxID := n\<rparr>" "srv w" t "t\<lparr>sandboxes := m\<rparr>" b]
      settles_cong [of "(srv w)\<lparr>nextSandboxID := n\<rparr>" "srv w" t t b] by (simp_all add: held_def)
  have weak: "settles False s t \<Longrightarrow> settles b s t" for s t b by (simp add: settles_def)
  show ?thesis
    unfolding wp_bind wp_next_sandbox_id w1
    by (rule wp_mono [OF c])
       (auto simp: enrol_def register_def wp_simps created_def split: sum.splits intro: same weak [OF same(1)])
qed

lemma wp_handleCreate_reply: "wp (handleCreate E cfg) (\<lambda>r w'. registered (srv w) r (srv w')) w"
  using wp_create_reply [OF refl wp_createSandbox(1) [of E cfg]]
  by (simp add: handleCreate_def enrol_def)

lemma wp_handleCreate_settles:
  "wp (handleCreate E cfg) (\<lambda>r w'. settles (\<not> EnableSnapshots cfg \<and> status r = Some 500) (srv w) (srv w')) w"
  using wp_create_settles [OF refl wp_createSandbox(1) [of E cfg]]
  by (simp add: handleCreate_def enrol_def)

lemma wp_handleCreate:
  assumes "sandboxes_ok (srv w)" "nextSandboxID (srv w) \<noteq> - 1"
  shows "wp (handleCreate E cfg) (\<lambda>_ w'. kept (srv w) (srv w')) w"
  using wp_create [OF assms refl wp_createSandbox(1) [of E cfg]]
  by (simp add: handleCreate_def enrol_def)

text \<open>A restore ends in one of the refusals, with the server unchanged, or goes on as a create does.\<close>

lemma wp_restore:
  assumes refuse: "\<And>w' r. srv w' = srv w \<Longrightarrow> status r \<noteq> Some 200 \<Longrightarrow> Q r w'"
    and mk: "\<And>w1 meta. srv w1 = srv w \<Longrightarrow>
      wp (do { sid \<leftarrow> next_sandbox_id; r \<leftarrow> createSandboxFromUserSnapshot E cfg sid meta; enrol r }) Q w1"
  shows "wp (handleSnapshotRestore E cfg body) Q w"
  using mk unfolding handleSnapshotRestore_def wp_option wp_sum wp_return wp_bind [of "onhost _"] enrol_def
  by (auto intro!: wp_onhost_any refuse)

lemma wp_handleSnapshotRestore:
  assumes "sandboxes_ok (srv w)" "nextSandboxID (srv w) \<noteq> - 1"
  shows "wp (handleSnapshotRestore E cfg body) (\<lambda>_ w'. kept (srv w) (srv w')) w"
  by (rule wp_restore) (simp_all add: kept_refl assms wp_create [OF assms _ wp_createSandbox(2)])

lemma wp_handleSnapshotRestore_reply:
  "wp (handleSnapshotRestore E cfg body) (\<lambda>r w'. registered (srv w) r (srv w') \<or>
      status r \<noteq> Some 200 \<and> srv w' = srv w) w"
  by (rule wp_restore) (auto intro: wp_mono [OF wp_create_reply [OF _ wp_createSandbox(2)]])

lemma wp_handleSnapshotRestore_settles:
  "wp (handleSnapshotRestore E cfg body) (\<lambda>r w'. settles False (srv w) (srv w')) w"
  by (rule wp_restore) (auto intro: wp_mono [OF wp_create_settles [OF _ wp_createSandbox(2)]])

lemma sandboxes_ok_snapshot [simp]: "sandboxes_ok (s\<lparr>nextSnapshotID := n\<rparr>) = sandboxes_ok s"
  by (simp add: sandboxes_ok_def issued_def)

lemma benign_next: "benign w w' \<Longrightarrow> nextSandboxID (srv w') = nextSandboxID (srv w)"
  by (auto simp: benign_def agent_only_def)

lemma torn_next: "torn w w' \<Longrightarrow> nextSandboxID (srv w') = nextSandboxID (srv w)"
  by (auto simp: torn_def destroyed_def)

lemma wp_serve:
  assumes ok: "sandboxes_ok (srv w)" and n: "nextSandboxID (srv w) \<noteq> - 1"
  shows "wp (serve E cfg q) (\<lambda>_ w'. kept (srv w) (srv w')) w"
proof (cases q)
  case (Exec b)
  then show ?thesis using wp_mono [OF wp_handleExec [OF ok]] by (simp add: kept_def benign_next benign_ok [OF ok])
next
  case (Destroy b)
  then show ?thesis using wp_mono [OF wp_handleDestroy [OF ok]] by (simp add: kept_def torn_next torn_ok [OF ok])
next
  case (SnapshotCreate b)
  have "kept (srv w) (srv w')" if "benign (w\<lparr>srv := (srv w)\<lparr>nextSnapshotID := m\<rparr>\<rparr>) w'" for m w'
    using benign_ok [OF _ that] benign_next [OF that] ok by (simp add: kept_def)
  then show ?thesis
    unfolding SnapshotCreate serve.simps by (intro wp_mono [OF wp_handleSnapshotCreate]) blast
qed (use ok in \<open>simp_all add: wp_handleCreate wp_handleSnapshotRestore n kept_refl handleSnapshotList_def handleSnapshotDelete_def
     wp_simps wp_all [of "listUserSnapshots _ _"] wp_all [of "os_RemoveAll _ _"]\<close>)


section \<open>Every handler settles the account of the pool\<close>

lemma settles_benign: "benign w w' \<Longrightarrow> settles b (srv w) (srv w')"
  by (auto simp: benign_def agent_only_def intro!: settles_same held_update)

lemma settles_torn: "sandboxes_ok (srv w) \<Longrightarrow> torn w w' \<Longrightarrow> settles b (srv w) (srv w')"
  by (auto simp: torn_def dest: sandboxes_okD(1) intro: settles_destroyed)

text \<open>Only a failed create can lose a namespace, and only one that boots its sandbox.\<close>

fun lost_by :: "request \<Rightarrow> reply \<Rightarrow> bool" where
  "lost_by Create r \<longleftrightarrow> status r = Some 500"
| "lost_by _ _ \<longleftrightarrow> False"

lemma wp_serve_settles:
  assumes ok: "sandboxes_ok (srv w)"
  shows "wp (serve E cfg q) (\<lambda>r w'. settles (\<not> EnableSnapshots cfg \<and> lost_by q r) (srv w) (srv w')) w"
proof (cases q)
  case (Exec b)
  then show ?thesis using wp_mono [OF wp_handleExec [OF ok]] by (simp add: settles_benign)
next
  case (Destroy b)
  then show ?thesis using wp_mono [OF wp_handleDestroy [OF ok]] by (simp add: settles_torn [OF ok])
next
  case (SnapshotCreate b)
  have "settles False (srv w) (srv w')" if "benign (w\<lparr>srv := (srv w)\<lparr>nextSnapshotID := m\<rparr>\<rparr>) w'" for m w'
    using settles_benign [OF that, of False] settles_cong [of "srv w" "(srv w)\<lparr>nextSnapshotID := m\<rparr>" "srv w'" "srv w'" False]
    by (simp add: held_def)
  then show ?thesis
    unfolding SnapshotCreate serve.simps lost_by.simps by (intro wp_mono [OF wp_handleSnapshotCreate]) auto
qed (simp_all add: wp_handleCreate_settles wp_handleSnapshotRestore_settles handleSnapshotList_def handleSnapshotDelete_def
     wp_simps wp_all [of "listUserSnapshots _ _"] wp_all [of "os_RemoveAll _ _"])

text \<open>The account over a run: what is missing was lost to failed creates, none of which restored a snapshot.\<close>

definition failed_creates :: "request list \<Rightarrow> reply list \<Rightarrow> nat" where
  "failed_creates qs rs = length (filter (\<lambda>(q, r). lost_by q r) (zip qs rs))"

definition accounted :: "config \<Rightarrow> nat \<Rightarrow> server \<Rightarrow> bool" where
  "accounted cfg n s \<longleftrightarrow> (\<exists>L. pool_ok L s \<and> size L \<le> (if EnableSnapshots cfg then 0 else n))"

lemma accounted_step:
  "accounted cfg n s \<Longrightarrow> settles (\<not> EnableSnapshots cfg \<and> b) s s' \<Longrightarrow> accounted cfg (n + of_bool b) s'"
  unfolding accounted_def settles_def by (cases "EnableSnapshots cfg"; cases b) fastforce+

lemma wp_serve_requests:
  assumes "sandboxes_ok (srv w)" "accounted cfg m (srv w)" "unat (nextSandboxID (srv w)) + length qs < 2 ^ 64"
  shows "wp (serve_requests E cfg qs) (\<lambda>rs w'. sandboxes_ok (srv w') \<and> accounted cfg (m + failed_creates qs rs) (srv w')) w"
  using assms
proof (induction qs arbitrary: w m)
  case (Cons q qs)
  have n: "nextSandboxID (srv w) \<noteq> - 1"
    using Cons.prems(3) by (auto simp: unsigned_minus_1_eq_mask mask_eq_exp_minus_1)
  have "wp (serve_requests E cfg qs) (\<lambda>rs w'. sandboxes_ok (srv w') \<and> accounted cfg (m + failed_creates (q # qs) (r # rs)) (srv w')) w1"
    if "kept (srv w) (srv w1)" "settles (\<not> EnableSnapshots cfg \<and> lost_by q r) (srv w) (srv w1)" for r w1
    by (rule wp_mono [OF Cons.IH [of w1 "m + of_bool (lost_by q r)"]])
       (use that Cons.prems accounted_step [OF Cons.prems(2) that(2)] in \<open>auto simp: kept_def failed_creates_def ac_simps\<close>)
  then show ?case
    unfolding serve_requests.simps wp_bind wp_return
    by (intro wp_mono [OF wp_conj [OF wp_serve [OF Cons.prems(1) n] wp_serve_settles [OF Cons.prems(1)]]]) blast
qed (simp add: wp_return failed_creates_def)


section \<open>Start-up establishes it\<close>

lemma filled_ok:
  assumes "filling (new_server\<lparr>pool := Some p0\<rparr>) p k r s" "int k \<le> p_size p"
  shows "sandboxes_ok s \<and> pool_ok {#} s"
proof -
  obtain q k' where s: "s = new_server\<lparr>pool := Some q\<rparr>" and q: "filled k' q"
    using assms(1) by (auto simp: filling_def)
  have "distinct (map Subnet (p_all q))" using q by (simp add: filled_def distinct_map)
  then have "distinct (p_all q)" by (rule distinct_map [THEN iffD1, THEN conjunct1])
  then show ?thesis
    using q filled_length [OF q]
    by (simp add: s sandboxes_ok_def pool_ok_def pool_room_def held_def new_server_def filled_def)
qed

lemma new_server_ok: "sandboxes_ok new_server" "pool_ok {#} new_server"
  by (simp_all add: sandboxes_ok_def pool_ok_def pool_room_def new_server_def)

lemma wp_start:
  "wp (start E P) (\<lambda>r w'. case r of Inl _ \<Rightarrow> True
     | Inr cfg \<Rightarrow> sandboxes_ok (srv w') \<and> pool_ok {#} (srv w') \<and> nextSandboxID (srv w') = 0) w"
proof -
  have init: "wp (pool_Init E) (\<lambda>r w'. sandboxes_ok (srv w') \<and> pool_ok {#} (srv w') \<and> nextSandboxID (srv w') = 0) w1"
    if w1: "srv w1 = new_server\<lparr>pool := Some (newNetnsPool n)\<rparr>" and n: "n > 0" for w1 n
  proof -
    let ?p = "(newNetnsPool n)\<lparr>p_once := True\<rparr>"
    let ?w = "w1\<lparr>srv := new_server\<lparr>pool := Some ?p\<rparr>\<rparr>"
    have "wp (init_entries E (Suc 0) (nat n)) (\<lambda>r w'. filling (srv ?w) ?p (0 + nat n) r (srv w')) ?w"
      using n by (intro wp_init_entries) (simp_all add: filled_def newNetnsPool_def)
    moreover have "sandboxes_ok s \<and> pool_ok {#} s \<and> nextSandboxID s = 0" if "filling (srv ?w) ?p (0 + nat n) r s" for r s
      using that filled_ok [of ?p ?p "0 + nat n" r s] n
      by (auto simp: newNetnsPool_def) (auto simp: filling_def new_server_def)
    ultimately have "wp (init_entries E (Suc 0) (nat n)) (\<lambda>r w'. sandboxes_ok (srv w') \<and> pool_ok {#} (srv w') \<and> nextSandboxID (srv w') = 0) ?w"
      by (rule wp_mono)
    then show ?thesis
      by (simp add: pool_Init_def wp_simps update_pool_def w1 newNetnsPool_def)
  qed
  show ?thesis
    unfolding start_def wp_if wp_bind wp_return wp_sum wp_option wp_modify_srv
    by (auto simp: wp_return new_server_def [THEN arg_cong [where f = nextSandboxID]] new_server_ok intro!: wp_onhost_any wp_mono [OF init])
qed


section \<open>Properties of a run\<close>

lemma wp_run_server:
  assumes "length reqs < 2 ^ 64"
  shows "wp (run_server E P reqs) (\<lambda>r w'. case r of Inl _ \<Rightarrow> True
    | Inr (cfg, replies) \<Rightarrow> sandboxes_ok (srv w') \<and> accounted cfg (failed_creates reqs replies) (srv w')) w"
proof -
  have "wp (serve_requests E cfg reqs) (\<lambda>rs w'. sandboxes_ok (srv w') \<and> accounted cfg (failed_creates reqs rs) (srv w')) w1"
    if "sandboxes_ok (srv w1)" "pool_ok {#} (srv w1)" "nextSandboxID (srv w1) = 0" for cfg w1
    using wp_serve_requests [OF that(1), of cfg 0] that(2,3) assms by (auto simp: accounted_def)
  then show ?thesis
    unfolding run_server_def wp_bind wp_return wp_sum
    by (intro wp_mono [OF wp_start]) (auto simp: wp_return split: sum.splits)
qed

lemma run_server_ok:
  assumes "run_state (run_server E P reqs) w = (Inr (cfg, replies), w')" "length reqs < 2 ^ 64"
  shows "sandboxes_ok (srv w')" "accounted cfg (failed_creates reqs replies) (srv w')" "server_ok (srv w')"
  using wp_run [OF wp_run_server [OF assms(2)] assms(1)] by (auto simp: server_ok_def accounted_def)

text \<open>
  C1: However the host behaves, after the server has started and served any sequence of
  requests, its data structures are consistent. Every entry of the sandbox map points to a
  sandbox of that name which is running, has no exec in flight and was named by the counter; every
  other sandbox ever created is closed and holds neither connection nor namespace. And no
  namespace of the pool has got lost on the way: each is either free, in the channel, or held by a
  sandbox, exactly once, but for \<open>L\<close>: at most one for each create that was answered with 500, and
  none at all if sandboxes are made from snapshots. A sandbox that was destroyed has therefore
  given back its namespace.
\<close>

theorem server_invariant:
  assumes "run_state (run_server E P reqs) w = (Inr (cfg, replies), w')" "length reqs < 2 ^ 64"
  shows "server_ok (srv w') \<and>
    (\<forall>p. pool (srv w') = Some p \<longrightarrow> (\<exists>L. mset (p_all p) = mset (p_ch p) + held (srv w') + L \<and>
       size L \<le> length (filter (\<lambda>(q, r). q = Create \<and> status r = Some 500) (zip reqs replies)) \<and>
       (EnableSnapshots cfg \<longrightarrow> L = {#})))"
proof -
  obtain L where L: "pool_ok L (srv w')" "size L \<le> (if EnableSnapshots cfg then 0 else failed_creates reqs replies)"
    using run_server_ok(2) [OF assms] by (auto simp: accounted_def)
  have "lost_by q r \<longleftrightarrow> q = Create \<and> status r = Some 500" for q r by (cases q) simp_all
  with L(2) have "size L \<le> length (filter (\<lambda>(q, r). q = Create \<and> status r = Some 500) (zip reqs replies))"
    "EnableSnapshots cfg \<longrightarrow> L = {#}"
    by (auto simp: failed_creates_def split: if_splits)
  moreover have "mset (p_all p) = mset (p_ch p) + held (srv w') + L" if "pool (srv w') = Some p" for p
    using L(1) that by (simp add: pool_ok_def pool_room_def ac_simps)
  ultimately show ?thesis using run_server_ok(3) [OF assms] by blast
qed

theorem server_invariant_witness:
  "\<exists>replies w'. run_state (run_server demo_env demo_process [Create, Create, Destroy (Marshal (id_body ''sandbox_id'' ''sb-1''))]) demo_start =
     (Inr (demo_config, replies), w') \<and> server_ok (srv w')"
proof -
  obtain replies w' where w': "run_state (run_server demo_env demo_process [Create, Create, Destroy (Marshal (id_body ''sandbox_id'' ''sb-1''))])
      demo_start = (Inr (demo_config, replies), w')"
    using demo_runs by blast
  from server_invariant [OF w'] w' show ?thesis by simp
qed

lemma count_held:
  assumes "Pooled nc"
  shows "count (held s) nc = card {a. a < length (heap s) \<and> sb_Netns (heap s ! a) = Some nc}"
proof -
  have "count (mset (filter Pooled (concat (map nets sbs)))) nc = length (filter (\<lambda>sb. sb_Netns sb = Some nc) sbs)" for sbs
    using assms by (induction sbs) (auto simp: nets_def split: option.split)
  then show ?thesis by (simp add: held_def length_filter_conv_card)
qed

lemma held_once:
  assumes "server_ok s" "pool s = Some p" "Pooled nc"
  shows "count (mset (p_ch p)) nc + card {a. a < length (heap s) \<and> sb_Netns (heap s ! a) = Some nc} \<le> 1"
proof -
  obtain L where "mset (p_ch p) + (L + held s) = mset (p_all p)" "distinct (p_all p)"
    using assms(1,2) by (auto simp: server_ok_def pool_ok_def pool_room_def)
  then have "mset (p_ch p) + held s \<subseteq># mset (p_all p)" "distinct (p_all p)"
    by (metis add.assoc add.commute mset_subset_eq_add_left, simp)
  then have "count (mset (p_ch p) + held s) nc \<le> 1"
    by (metis distinct_count_atmost_1 le_numeral_extra(4) mset_subset_eq_count order_trans zero_le_one)
  then show ?thesis by (simp only: count_union count_held [OF assms(3)])
qed

text \<open>
  C3: After any sequence of requests, no send to the pool's channel has ever blocked, and a
  pooled namespace is in one place only: no two sandboxes hold it, and none holds one that is free.
\<close>

theorem pooled_namespaces_exclusive:
  assumes "run_state (run_server E P reqs) w = (Inr (cfg, replies), w')" "length reqs < 2 ^ 64"
    and "pool (srv w') = Some p"
  shows "\<not> p_stuck p \<and> (\<forall>a nc. a < length (heap (srv w')) \<and> sb_Netns (heap (srv w') ! a) = Some nc \<and> Pooled nc \<longrightarrow>
    nc \<notin> set (p_ch p) \<and> (\<forall>b < length (heap (srv w')). sb_Netns (heap (srv w') ! b) = Some nc \<longrightarrow> b = a))"
proof -
  have ok: "server_ok (srv w')" by (rule run_server_ok [OF assms(1,2)])
  have "nc \<notin> set (p_ch p) \<and> (\<forall>b < length (heap (srv w')). sb_Netns (heap (srv w') ! b) = Some nc \<longrightarrow> b = a)"
    if a: "a < length (heap (srv w'))" "sb_Netns (heap (srv w') ! a) = Some nc" "Pooled nc" for a nc
  proof -
    let ?H = "{b. b < length (heap (srv w')) \<and> sb_Netns (heap (srv w') ! b) = Some nc}"
    have "a \<in> ?H" "finite ?H" using a by simp_all
    then have "0 < card ?H" by (auto simp: card_gt_0_iff)
    with held_once [OF ok assms(3) a(3)] have one: "card ?H = 1" and "count (mset (p_ch p)) nc = 0" by linarith+
    then have "nc \<notin> set (p_ch p)" by simp
    moreover obtain x where x: "?H = {x}" using one by (rule card_1_singletonE)
    have "b = a" if "b \<in> ?H" for b using that \<open>a \<in> ?H\<close> unfolding x by simp
    ultimately show ?thesis by simp
  qed
  moreover have "\<not> p_stuck p"
    using ok assms(3) by (auto simp: server_ok_def pool_ok_def pool_room_def)
  ultimately show ?thesis by blast
qed

text \<open>
  C14: Creating a sandbox either fails with a 500 and leaves the sandbox map as it was, or
  answers 200 with a new identifier, made from the counter, that no sandbox has had since the
  server started, and registers under it a running sandbox with no exec in flight.
\<close>

theorem handleCreate_registers:
  assumes "nextSandboxID (srv w) \<noteq> - 1" "run_state (handleCreate E cfg) w = (r, w')"
    and "sid = ''sb-'' @ utoa (unat (nextSandboxID (srv w) + 1))"
  shows "(\<exists>m. r = server_error m) \<and> sandboxes (srv w') = sandboxes (srv w) \<or>
    r = Reply 200 (id_body ''sandbox_id'' sid) \<and> \<not> issued (srv w) sid \<and>
    (\<exists>a. sandboxes (srv w') = AList.update sid a (sandboxes (srv w)) \<and> sb_live sid (heap (srv w') ! a))"
proof -
  have "registered (srv w) r (srv w')"
    by (rule wp_run [OF wp_handleCreate_reply assms(2)])
  moreover have "\<not> issued (srv w) sid"
    using unat_next [OF assms(1)] by (auto simp: issued_def assms(3))
  ultimately show ?thesis by (auto simp: registered_def assms(3))
qed

text \<open>
  A namespace that is not the pool's was built for its sandbox: tearing it down and removing the
  sandbox's directory are then the last things that happen on the host.
\<close>

definition dismantle :: "'x env \<Rightarrow> netnsConfig \<Rightarrow> string \<Rightarrow> ('x host, unit) state" where
  "dismantle E nc dir = do { _ \<leftarrow> cleanupSandboxNetnsAndRouting E (Some nc); _ \<leftarrow> os_RemoveAll E dir; return () }"

lemma wp_cleanupSandbox_dismantles:
  assumes "sb_Netns (heap (srv w) ! a) = Some nc" "Pooled nc \<longrightarrow> pool (srv w) = None"
  shows "wp (cleanupSandbox E a) (\<lambda>_ w'. \<exists>h. host w' = snd (run_state (dismantle E nc (sb_Dir (heap (srv w) ! a))) h)) w"
proof -
  let ?dir = "sb_Dir (heap (srv w) ! a)"
  have rel: "wp (releaseNetns E (Some nc)) (\<lambda>_ w2. \<exists>h. host w2 = snd (run_state (cleanupSandboxNetnsAndRouting E (Some nc)) h)) w1"
    if "pool (srv w1) = pool (srv w)" for w1
    using assms(2) that
    by (auto simp: releaseNetns_def wp_simps wp_def onhost_def split: prod.splits intro!: exI [of _ "host w1"])
  have fin: "\<exists>h. snd (run_state (os_RemoveAll E ?dir) h2) = snd (run_state (dismantle E nc ?dir) h)"
    if "\<exists>h. h2 = snd (run_state (cleanupSandboxNetnsAndRouting E (Some nc)) h)" for h2
    using that by (auto simp: dismantle_def case_prod_beta)
  have step: "wp (onhost m) Q w1" if "Q (fst (run_state m (host w1))) (w1\<lparr>host := snd (run_state m (host w1))\<rparr>)"
    for m and Q :: "'b \<Rightarrow> 'a world \<Rightarrow> bool" and w1
    using that by (simp add: wp_def onhost_def case_prod_beta)
  show ?thesis
    unfolding cleanupSandbox_def wp_bind wp_sb wp_Let wp_return wp_option assms(1)
    by (auto simp: wp_return intro!: step wp_mono [OF rel] fin)
qed

lemma wp_handleDestroy_dismantles:
  assumes ok: "sandboxes_ok (srv w)" and k: "map_of (sandboxes (srv w)) k = Some a"
    and body: "decodeJSON (dec_single ''sandbox_id'') [] body = Some k" "TrimSpace k \<noteq> []"
    and nc: "sb_Netns (heap (srv w) ! a) = Some nc" "Pooled nc \<longrightarrow> pool (srv w) = None"
  shows "wp (handleDestroy E body) (\<lambda>_ w'. \<exists>h. host w' = snd (run_state (dismantle E nc (sb_Dir (heap (srv w) ! a))) h)) w"
proof -
  have live: "fst (beginDestroy (heap (srv w) ! a))" "a < length (heap (srv w))"
    using sandboxes_okD [OF ok k] by (simp_all add: beginDestroy_def sb_live_def)
  have tear: "wp (cleanupSandbox E a) (\<lambda>_ w'. \<exists>h. host w' = snd (run_state (dismantle E nc (sb_Dir (heap (srv w) ! a))) h)) w1"
    if w1: "srv w1 = (srv w)\<lparr>sandboxes := AList.delete k (sandboxes (srv w)),
      heap := (heap (srv w))[a := snd (beginDestroy (heap (srv w) ! a))]\<rparr>" for w1
  proof -
    have "sb_Netns (snd (beginDestroy sb)) = sb_Netns sb" "sb_Dir (snd (beginDestroy sb)) = sb_Dir sb" for sb
      by (simp_all add: beginDestroy_def)
    then show ?thesis using wp_cleanupSandbox_dismantles [of w1 a nc E] nc live(2) by (simp add: w1)
  qed
  show ?thesis
    unfolding handleDestroy_def begin_destroy_def lookup_sandbox_def wp_return wp_bind wp_sb wp_if wp_option wp_modify_srv wp_gets_srv
    by (auto simp: live k body intro!: wp_wait_drain wp_mono [OF tear] split: option.splits)
qed

lemma given_back_free:
  assumes "server_ok s'" "given_back (Some nc) s s'" "pool s = Some p" "Pooled nc"
  shows "pool s' = Some (p\<lparr>p_ch := p_ch p @ [nc]\<rparr>)"
  using assms by (auto simp: given_back_def ch_send_def server_ok_def pool_ok_def pool_room_def split: if_splits)

lemma server_ok_settles: "server_ok s \<Longrightarrow> sandboxes_ok s' \<Longrightarrow> settles b s s' \<Longrightarrow> server_ok s'"
  by (auto simp: server_ok_def settles_def)

text \<open>
  C15: Destroying a sandbox removes its name, and only that, from the sandbox map; the answer is
  200, or 500 if part of the clean-up failed. The sandbox is closed afterwards and holds neither
  namespace nor connection. Its namespace has been given back: one of the pool is in the pool's
  channel again, behind the others, and one that was built for the sandbox has been torn down on
  the host, just before the sandbox's directory was removed. A second request to destroy the
  sandbox is answered with 404 and changes nothing.
\<close>

theorem handleDestroy_removes:
  assumes "server_ok (srv w)" "map_of (sandboxes (srv w)) k = Some a"
    and "decodeJSON (dec_single ''sandbox_id'') [] body = Some k" "TrimSpace k \<noteq> []"
    and "run_state (handleDestroy E body) w = (r, w')"
  shows "(r = Reply 200 (id_body ''status'' ''ok'') \<or> (\<exists>m. r = server_error m)) \<and>
    map_of (sandboxes (srv w')) = (map_of (sandboxes (srv w)))(k := None) \<and> sb_dead (heap (srv w') ! a) \<and>
    (\<forall>nc p. sb_Netns (heap (srv w) ! a) = Some nc \<and> Pooled nc \<and> pool (srv w) = Some p \<longrightarrow>
       pool (srv w') = Some (p\<lparr>p_ch := p_ch p @ [nc]\<rparr>)) \<and>
    (\<forall>nc. sb_Netns (heap (srv w) ! a) = Some nc \<and> (\<not> Pooled nc \<or> pool (srv w) = None) \<longrightarrow>
       pool (srv w') = pool (srv w) \<and>
       (\<exists>h. host w' = snd (run_state (dismantle E nc (sb_Dir (heap (srv w) ! a))) h))) \<and>
    run_state (handleDestroy E body) w' = (not_found ''sandbox not found'', w')"
proof -
  have ok: "sandboxes_ok (srv w)" using assms(1) by (simp add: server_ok_def)
  have d: "destroyed k a (srv w) (srv w')" "r = Reply 200 (id_body ''status'' ''ok'') \<or> (\<exists>m. r = server_error m)"
    using wp_run [OF wp_handleDestroy_found [OF ok assms(2-4)] assms(5)] by auto
  have gone: "map_of (sandboxes (srv w')) = (map_of (sandboxes (srv w)))(k := None)"
    using d(1) by (auto simp: destroyed_def delete_conv')
  have a: "a < length (heap (srv w))" by (rule sandboxes_okD [OF ok assms(2)])
  have "server_ok (srv w')"
    using server_ok_settles [OF assms(1) sandboxes_ok_destroyed [OF ok assms(2) d(1)] settles_destroyed [OF a d(1)]] .
  then have "pool (srv w') = Some (p\<lparr>p_ch := p_ch p @ [nc]\<rparr>)"
    if "sb_Netns (heap (srv w) ! a) = Some nc" "Pooled nc" "pool (srv w) = Some p" for nc p
    using given_back_free [of "srv w'" nc "srv w" p] d(1) that by (simp add: destroyed_def)
  moreover have "pool (srv w') = pool (srv w) \<and> (\<exists>h. host w' = snd (run_state (dismantle E nc (sb_Dir (heap (srv w) ! a))) h))"
    if "sb_Netns (heap (srv w) ! a) = Some nc" "\<not> Pooled nc \<or> pool (srv w) = None" for nc
    using wp_run [OF wp_handleDestroy_dismantles [OF ok assms(2-4) that(1)] assms(5)] d(1) that
    by (auto simp: destroyed_def given_back_def)
  moreover have "run_state (handleDestroy E body) w' = (not_found ''sandbox not found'', w')"
    using gone by (intro handleDestroy_unknown [OF assms(3,4)]) simp
  moreover have "sb_dead (heap (srv w') ! a)"
    using d(1) a by (auto simp: destroyed_def)
  ultimately show ?thesis using d(2) gone by blast
qed


definition demo_sandbox :: sandbox where
  "demo_sandbox = new_sandbox ''sb-1'' (stale_entry 1) 1001 ''/w/sandboxes/sb-1'' ([], [], []) [] [] [] 100 7"

definition demo_running :: "unit world" where
  "demo_running = \<lparr>host = demo_host, srv = new_server\<lparr>nextSandboxID := 1, sandboxes := [(''sb-1'', 0)], heap := [demo_sandbox]\<rparr>\<rparr>"

lemma utoa_1: "utoa 1 = ''1''"
  by code_simp

lemma demo_running_ok: "sandboxes_ok (srv demo_running)"
proof -
  have "issued (srv demo_running) ''sb-1''"
    unfolding issued_def demo_running_def by (rule exI [of _ 1]) (simp add: utoa_1 [simplified])
  then show ?thesis
    by (auto simp: sandboxes_ok_def demo_running_def new_server_def demo_sandbox_def
        new_sandbox_def sb_live_def sb_dead_def split: if_splits)
qed

lemma demo_running_server_ok: "server_ok (srv demo_running)"
  using demo_running_ok by (simp add: server_ok_def pool_ok_def pool_room_def demo_running_def new_server_def)

text \<open>The same with a pool of two namespaces, one of which the sandbox holds.\<close>

definition second_entry :: netnsConfig where
  "second_entry = (netns_plan (pool_entry_id 2) 2)\<lparr>Pooled := True, Subnet := 2\<rparr>"

definition demo_pooled :: "unit world" where
  "demo_pooled = demo_running\<lparr>srv := (srv demo_running)\<lparr>heap := [demo_sandbox\<lparr>sb_Netns := Some first_entry\<rparr>],
     pool := Some ((newNetnsPool 2)\<lparr>p_all := [first_entry, second_entry], p_ch := [second_entry], p_once := True\<rparr>)\<rparr>\<rparr>"

lemma demo_pooled_ok: "server_ok (srv demo_pooled)"
proof -
  have "sandboxes_ok (srv demo_pooled)"
    using demo_running_ok
    by (auto simp: sandboxes_ok_def issued_def demo_pooled_def demo_running_def new_server_def demo_sandbox_def
        new_sandbox_def sb_live_def sb_dead_def split: if_splits)
  moreover have "Subnet first_entry \<noteq> Subnet second_entry" "Pooled first_entry" "Pooled second_entry"
    by (simp_all add: first_entry_def second_entry_def)
  then have "pool_ok {#} (srv demo_pooled)"
    by (auto simp: pool_ok_def pool_room_def held_def nets_def demo_pooled_def newNetnsPool_def)
  ultimately show ?thesis by (auto simp: server_ok_def)
qed

theorem pooled_namespaces_exclusive_witness:
  "\<exists>replies w' p. run_state (run_server demo_env demo_process [Healthz]) demo_start = (Inr (demo_config, replies), w') \<and>
     pool (srv w') = Some p \<and> \<not> p_stuck p"
proof -
  obtain w p where w: "run_state (start demo_env demo_process) demo_start = (Inr demo_config, w)" "pool (srv w) = Some p"
    using demo_starts by blast
  then have run: "run_state (run_server demo_env demo_process [Healthz]) demo_start =
      (Inr (demo_config, [Reply 200 (id_body ''status'' ''ok'')]), w)"
    by (simp add: run_server_def)
  from pooled_namespaces_exclusive [OF this _ w(2)] w(2) run show ?thesis by auto
qed

theorem handleCreate_registers_witness:
  "\<exists>r w'. run_state (handleCreate demo_env demo_config) demo_start = (r, w') \<and>
    ((\<exists>m. r = server_error m) \<and> sandboxes (srv w') = [] \<or> r = Reply 200 (id_body ''sandbox_id'' ''sb-1''))"
proof -
  obtain r w' where w': "run_state (handleCreate demo_env demo_config) demo_start = (r, w')" by fastforce
  have "nextSandboxID (srv demo_start) \<noteq> - 1" "sandboxes (srv demo_start) = []"
    "''sb-1'' = ''sb-'' @ utoa (unat (nextSandboxID (srv demo_start) + 1))"
    by (simp_all add: demo_start_def new_server_def utoa_1 [simplified])
  from handleCreate_registers [OF this(1) w' this(3)] this(2) w' show ?thesis by auto
qed

theorem handleDestroy_removes_witness:
  "\<exists>r w' p. run_state (handleDestroy demo_env (Marshal (id_body ''sandbox_id'' ''sb-1''))) demo_pooled = (r, w') \<and>
    map_of (sandboxes (srv w')) ''sb-1'' = None \<and> sb_dead (heap (srv w') ! 0) \<and>
    pool (srv w') = Some p \<and> p_ch p = [second_entry, first_entry]"
proof -
  have body: "decodeJSON (dec_single ''sandbox_id'') [] (Marshal (id_body ''sandbox_id'' ''sb-1'')) = Some ''sb-1''" "TrimSpace ''sb-1'' \<noteq> []"
    by (code_simp, code_simp)
  obtain r w' where w': "run_state (handleDestroy demo_env (Marshal (id_body ''sandbox_id'' ''sb-1''))) demo_pooled = (r, w')" by fastforce
  have "map_of (sandboxes (srv demo_pooled)) ''sb-1'' = Some 0" by (simp add: demo_pooled_def demo_running_def)
  from handleDestroy_removes [OF demo_pooled_ok this body w'] w' show ?thesis
    by (simp add: demo_pooled_def demo_sandbox_def new_sandbox_def first_entry_def)
qed

definition exec_effect :: "execRequest \<Rightarrow> 'x world \<Rightarrow> reply \<Rightarrow> 'x world \<Rightarrow> bool" where
  "exec_effect req w r w' \<longleftrightarrow>
    (if TrimSpace (xq_SandboxID req) = [] then r = bad_request ''sandbox_id is required'' \<and> w' = w
     else case map_of (sandboxes (srv w)) (xq_SandboxID req) of
       None \<Rightarrow> r = not_found ''sandbox not found'' \<and> w' = w
     | Some a \<Rightarrow>
       (case exec_mode req of
          Inl m \<Rightarrow> r = bad_request m \<and> w' = w
        | Inr _ \<Rightarrow> \<exists>x. srv w' = (srv w)\<lparr>heap := (heap (srv w))[a := (heap (srv w) ! a)\<lparr>sb_Agent := x\<rparr>]\<rparr>))"

text \<open>
  C16: An exec request is refused without any effect if it does not parse, names no sandbox or an
  unknown one, or asks for an invalid combination of \<open>cmd\<close>, \<open>argv\<close> and \<open>use_shell\<close>. Otherwise,
  whatever happens on the host, the server changes in the agent connection of that sandbox only;
  in particular its count of running execs is what it was before.
\<close>

theorem handleExec_effect:
  assumes ok: "sandboxes_ok (srv w)" and run: "run_state (handleExec E cfg body) w = (r, w')"
  shows "case decodeJSON dec_execRequest zero_execRequest body of
      None \<Rightarrow> r = bad_request ''invalid request body'' \<and> w' = w
    | Some req \<Rightarrow> exec_effect req w r w'"
proof (cases "decodeJSON dec_execRequest zero_execRequest body")
  case None
  with run show ?thesis by (simp add: handleExec_def)
next
  case (Some req)
  have "exec_effect req w r w'" if k: "map_of (sandboxes (srv w)) (xq_SandboxID req) = Some a" "TrimSpace (xq_SandboxID req) \<noteq> []" for a
  proof -
    have live: "a < length (heap (srv w))" "sb_live (xq_SandboxID req) (heap (srv w) ! a)" "fst (tryStartExec (heap (srv w) ! a)) = None"
      using sandboxes_okD [OF ok k(1)] by (simp_all add: tryStartExec_def sb_live_def)
    let ?w = "w\<lparr>srv := (srv w)\<lparr>heap := (heap (srv w))[a := snd (tryStartExec (heap (srv w) ! a))]\<rparr>\<rparr>"
    show ?thesis
    proof (cases "exec_mode req")
      case (Inl m)
      with run Some k live exec_count(2) [OF live(2)] show ?thesis
        by (simp add: handleExec_def lookup_sandbox_def exec_effect_def sb_at_def sb_modify_def)
    next
      case (Inr useShell)
      obtain w1 where w1: "run_state (exec_transport E cfg a req useShell) ?w = (r, w1)"
        "w' = w1\<lparr>srv := (srv w1)\<lparr>heap := (heap (srv w1))[a := finishExec (heap (srv w1) ! a)]\<rparr>\<rparr>"
        using run Some k live Inr by (auto simp: handleExec_def lookup_sandbox_def sb_at_def sb_modify_def split: prod.splits)
      show ?thesis
        using exec_counted [OF live(1,2) keepsD [OF agent_only_exec w1(1)]] k Inr
        by (simp add: exec_effect_def w1(2) agent_only_def)
    qed
  qed
  moreover have "exec_effect req w r w'" if "TrimSpace (xq_SandboxID req) = []"
    using run Some that by (simp add: handleExec_def exec_effect_def)
  moreover have "exec_effect req w r w'" if "map_of (sandboxes (srv w)) (xq_SandboxID req) = None" "TrimSpace (xq_SandboxID req) \<noteq> []"
    using run Some that by (simp add: handleExec_def exec_effect_def lookup_sandbox_def)
  ultimately show ?thesis using Some by fastforce
qed

theorem handleExec_effect_witness:
  "run_state (handleExec demo_env demo_config (Marshal (id_body ''sandbox_id'' ''sb-1''))) demo_running =
     (bad_request ''cmd or argv is required'', demo_running)"
proof -
  obtain r w' where w': "run_state (handleExec demo_env demo_config (Marshal (id_body ''sandbox_id'' ''sb-1''))) demo_running = (r, w')" by fastforce
  have req: "decodeJSON dec_execRequest zero_execRequest (Marshal (id_body ''sandbox_id'' ''sb-1'')) = Some (zero_execRequest\<lparr>xq_SandboxID := ''sb-1''\<rparr>)"
    "TrimSpace ''sb-1'' \<noteq> []" "exec_mode (zero_execRequest\<lparr>xq_SandboxID := ''sb-1''\<rparr>) = Inl ''cmd or argv is required''"
    by (code_simp, code_simp, code_simp)
  have "map_of (sandboxes (srv demo_running)) ''sb-1'' = Some 0" by (simp add: demo_running_def)
  with handleExec_effect [OF demo_running_ok w'] req w' show ?thesis by (simp add: exec_effect_def)
qed
end
