(* ===== verification/Server_Spec.thy ===== *)
theory Server_Spec
  imports Server_Invariant
begin

text \<open>
  The abstract specification of the server as its clients see it, and the proof that the handlers
  refine it. The specification knows the set of live sandboxes and how many identifiers have been
  handed out, and nothing of processes, namespaces, files or pools.
\<close>

section \<open>The specification\<close>

type_synonym spec = "string set \<times> nat"

definition sandbox_name :: "nat \<Rightarrow> string" where
  "sandbox_name n = ''sb-'' @ utoa n"

fun creates :: "request \<Rightarrow> bool" where
  "creates Create = True"
| "creates (SnapshotRestore _) = True"
| "creates _ = False"

text \<open>The sandbox a request to destroy names.\<close>

fun destroys :: "request \<Rightarrow> string option" where
  "destroys (Destroy body) = decodeJSON (dec_single ''sandbox_id'') [] body"
| "destroys _ = None"

inductive spec_step :: "spec \<Rightarrow> request \<Rightarrow> reply \<Rightarrow> spec \<Rightarrow> bool" where
  created: "creates q \<Longrightarrow> r = Reply 200 (id_body ''sandbox_id'' (sandbox_name (n + 1))) \<Longrightarrow>
    spec_step (L, n) q r (insert (sandbox_name (n + 1)) L, n + 1)"
| not_created: "creates q \<Longrightarrow> status r \<noteq> Some 200 \<Longrightarrow> n' = n \<or> n' = n + 1 \<Longrightarrow> spec_step (L, n) q r (L, n')"
| destroyed: "destroys q = Some k \<Longrightarrow> k \<in> L \<Longrightarrow> status r = Some 200 \<or> status r = Some 500 \<Longrightarrow> spec_step (L, n) q r (L - {k}, n)"
| not_destroyed: "(\<And>k. destroys q = Some k \<Longrightarrow> k \<notin> L \<and> status r = Some 404 \<or> TrimSpace k = [] \<and> status r = Some 400) \<Longrightarrow> \<not> creates q \<Longrightarrow>
    spec_step (L, n) q r (L, n)"

inductive_cases spec_stepE: "spec_step (L, n) q r (L', n')"

inductive spec_run :: "spec \<Rightarrow> request list \<Rightarrow> reply list \<Rightarrow> spec \<Rightarrow> bool" where
  stop: "spec_run s [] [] s"
| step: "spec_step s q r t \<Longrightarrow> spec_run t qs rs u \<Longrightarrow> spec_run s (q # qs) (r # rs) u"


section \<open>The refinement\<close>

definition spec_of :: "server \<Rightarrow> spec" where
  "spec_of s = (dom (map_of (sandboxes s)), unat (nextSandboxID s))"

lemma spec_of_registered:
  assumes "registered s r s'" "nextSandboxID s \<noteq> - 1" "creates q"
  shows "spec_step (spec_of s) q r (spec_of s')"
  using assms unat_next [OF assms(2)] spec_step.created [of q r "unat (nextSandboxID s)" "dom (map_of (sandboxes s))"]
  by (auto simp: registered_def spec_of_def sandbox_name_def update_conv' dom_fun_upd intro!: spec_step.not_created)

lemma spec_of_same: "sandboxes s' = sandboxes s \<Longrightarrow> nextSandboxID s' = nextSandboxID s \<Longrightarrow> spec_of s' = spec_of s"
  by (simp add: spec_of_def)

lemma refines_serve:
  assumes ok: "sandboxes_ok (srv w)" and n: "nextSandboxID (srv w) \<noteq> - 1" and run: "run_state (serve E cfg q) w = (r, w')"
  shows "spec_step (spec_of (srv w)) q r (spec_of (srv w'))"
proof (cases q)
  case Create
  with wp_run [OF wp_handleCreate_reply] run n show ?thesis by (intro spec_of_registered) simp_all
next
  case (SnapshotRestore b)
  have "registered (srv w) r (srv w') \<or> status r \<noteq> Some 200 \<and> srv w' = srv w"
    using wp_run [OF wp_handleSnapshotRestore_reply] run SnapshotRestore by simp
  then show ?thesis
  proof
    assume "registered (srv w) r (srv w')"
    then show ?thesis using spec_of_registered [OF _ n] SnapshotRestore by simp
  next
    assume "status r \<noteq> Some 200 \<and> srv w' = srv w"
    then show ?thesis using SnapshotRestore by (simp add: spec_of_def spec_step.not_created)
  qed
next
  case (Destroy b)
  then show ?thesis
  proof (cases "destroys q")
    case None
    with Destroy run show ?thesis by (auto simp: handleDestroy_def spec_of_def intro: spec_step.not_destroyed)
  next
    case (Some k)
    then have body: "decodeJSON (dec_single ''sandbox_id'') [] b = Some k" using Destroy by simp
    consider "TrimSpace k = []" | "TrimSpace k \<noteq> []" "map_of (sandboxes (srv w)) k = None"
      | a where "TrimSpace k \<noteq> []" "map_of (sandboxes (srv w)) k = Some a" by fastforce
    then show ?thesis
    proof cases
      case 1
      with body Destroy run show ?thesis
        by (auto simp: handleDestroy_def spec_of_def intro: spec_step.not_destroyed)
    next
      case 2
      with handleDestroy_unknown [OF body 2] Destroy run body show ?thesis
        by (auto simp: spec_of_def intro!: spec_step.not_destroyed)
    next
      case 3
      have d: "r = Reply 200 (id_body ''status'' ''ok'') \<or> (\<exists>m. r = server_error m)" "destroyed k a (srv w) (srv w')"
        using wp_run [OF wp_handleDestroy_found [OF ok 3(2) body 3(1)]] run Destroy by auto
      then have "spec_of (srv w') = (fst (spec_of (srv w)) - {k}, snd (spec_of (srv w)))"
        by (auto simp: spec_of_def destroyed_def delete_conv')
      with d(1) Some 3(2) show ?thesis by (auto simp: spec_of_def intro!: spec_step.destroyed)
    qed
  qed
next
  case (Exec b)
  then have "benign w w'" using wp_run [OF wp_handleExec [OF ok]] run by simp
  then have "spec_of (srv w') = spec_of (srv w)" by (auto simp: benign_def agent_only_def spec_of_def)
  with Exec show ?thesis by (auto simp: spec_of_def intro: spec_step.not_destroyed)
next
  case (SnapshotCreate b)
  then obtain m where "benign (w\<lparr>srv := (srv w)\<lparr>nextSnapshotID := m\<rparr>\<rparr>) w'" using wp_run [OF wp_handleSnapshotCreate] run by fastforce
  then have "spec_of (srv w') = spec_of (srv w)" by (auto simp: benign_def agent_only_def spec_of_def)
  with SnapshotCreate show ?thesis by (auto simp: spec_of_def intro: spec_step.not_destroyed)
qed (use run in \<open>auto simp: handleSnapshotList_def handleSnapshotDelete_def onhost_def spec_of_def intro!: spec_step.not_destroyed
     split: option.splits sum.splits prod.splits\<close>)

lemma refines_serve_requests:
  assumes "sandboxes_ok (srv w)" "unat (nextSandboxID (srv w)) + length qs < 2 ^ 64" "run_state (serve_requests E cfg qs) w = (rs, w')"
  shows "spec_run (spec_of (srv w)) qs rs (spec_of (srv w'))"
  using assms
proof (induction qs arbitrary: w rs w')
  case (Cons q qs)
  have n: "nextSandboxID (srv w) \<noteq> - 1"
    using Cons.prems(2) by (auto simp: unsigned_minus_1_eq_mask mask_eq_exp_minus_1)
  obtain r w1 where r: "run_state (serve E cfg q) w = (r, w1)" by (rule prod.exhaust)
  obtain rs2 w2 where rs2: "run_state (serve_requests E cfg qs) w1 = (rs2, w2)" by (rule prod.exhaust)
  have "kept (srv w) (srv w1)" by (rule wp_run [OF wp_serve [OF Cons.prems(1) n] r])
  with Cons.prems(2) have "spec_run (spec_of (srv w1)) qs rs2 (spec_of (srv w2))"
    by (intro Cons.IH [OF _ _ rs2]) (simp_all add: kept_def)
  with refines_serve [OF Cons.prems(1) n r] Cons.prems(3) r rs2 show ?case
    by (auto intro: spec_run.step)
qed (simp add: spec_run.stop)

lemma refines_run:
  assumes "run_state (run_server E P reqs) w = (Inr (cfg, replies), w')" "length reqs < 2 ^ 64"
  shows "spec_run ({}, 0) reqs replies (dom (map_of (sandboxes (srv w'))), unat (nextSandboxID (srv w')))"
proof -
  obtain w1 where w1: "run_state (start E P) w = (Inr cfg, w1)" "run_state (serve_requests E cfg reqs) w1 = (replies, w')"
    using assms(1) by (auto simp: run_server_def split: prod.splits sum.splits)
  have ok: "sandboxes_ok (srv w1)" "nextSandboxID (srv w1) = 0"
    using wp_run [OF wp_start w1(1)] by simp_all
  have "map_of (sandboxes (srv w1)) k = None" for k
    using sandboxes_okD(3) [OF ok(1), of k] ok(2) by (cases "map_of (sandboxes (srv w1)) k") (auto simp: issued_def)
  then have "map_of (sandboxes (srv w1)) = Map.empty" by (intro ext)
  then have "sandboxes (srv w1) = []" by simp
  with ok refines_serve_requests [OF _ _ w1(2)] assms(2) show ?thesis by (simp add: spec_of_def)
qed

text \<open>
  C2: The server refines its specification: however the host behaves, the replies of a run that
  started are replies the specification gives to the same requests, starting with no sandbox,
  and the server's sandbox map at the end holds exactly the specification's live sandboxes.
\<close>

theorem server_refines_spec:
  assumes "run_state (run_server E P reqs) w = (Inr (cfg, replies), w')" "length reqs < 2 ^ 64"
  shows "spec_run ({}, 0) reqs replies (dom (map_of (sandboxes (srv w'))), unat (nextSandboxID (srv w')))"
  by (rule refines_run [OF assms])

theorem server_refines_spec_witness:
  "\<exists>replies w'. run_state (run_server demo_env demo_process [Create, Healthz]) demo_start = (Inr (demo_config, replies), w') \<and>
     spec_run ({}, 0) [Create, Healthz] replies (dom (map_of (sandboxes (srv w'))), unat (nextSandboxID (srv w')))"
proof -
  obtain replies w' where w': "run_state (run_server demo_env demo_process [Create, Healthz]) demo_start = (Inr (demo_config, replies), w')"
    using demo_runs by blast
  from server_refines_spec [OF w'] w' show ?thesis by auto
qed


section \<open>What the specification gives\<close>

text \<open>The identifier a reply hands out, and those of a run.\<close>

fun new_id :: "request \<Rightarrow> reply \<Rightarrow> string option" where
  "new_id q (Reply c (JObj [(k, JStr sid)])) = (if creates q \<and> c = 200 then Some sid else None)"
| "new_id _ _ = None"

fun handed_out :: "request list \<Rightarrow> reply list \<Rightarrow> string list" where
  "handed_out (q # qs) (r # rs) = (case new_id q r of None \<Rightarrow> [] | Some i \<Rightarrow> [i]) @ handed_out qs rs"
| "handed_out _ _ = []"

lemma sandbox_name_inj [simp]: "sandbox_name m = sandbox_name n \<longleftrightarrow> m = n"
  by (simp add: sandbox_name_def)

lemma new_id_200: "status r \<noteq> Some 200 \<Longrightarrow> new_id q r = None"
  by (cases "(q, r)" rule: new_id.cases) auto

lemma new_id_step:
  assumes "spec_step (L, n) q r (L', n')"
  shows "new_id q r = None \<and> n \<le> n' \<or> new_id q r = Some (sandbox_name (n + 1)) \<and> n' = n + 1"
  using assms
proof (cases rule: spec_step.cases)
  case (destroyed k)
  then have "\<not> creates q" by (cases q) auto
  then show ?thesis using destroyed by (cases "(q, r)" rule: new_id.cases) auto
next
  case not_destroyed
  then show ?thesis by (cases "(q, r)" rule: new_id.cases) auto
qed (auto simp: new_id_200 id_body_def)

lemma spec_run_names:
  "spec_run s qs rs t \<Longrightarrow> \<exists>ns. handed_out qs rs = map sandbox_name ns \<and> distinct ns \<and> (\<forall>m \<in> set ns. snd s < m)"
proof (induction rule: spec_run.induct)
  case (step s q r t qs rs u)
  then obtain ns where ns: "handed_out qs rs = map sandbox_name ns" "distinct ns" "\<forall>m \<in> set ns. snd t < m" by blast
  obtain L n L' n' where s: "s = (L, n)" "t = (L', n')" by fastforce
  have "new_id q r = None \<and> n \<le> n' \<or> new_id q r = Some (sandbox_name (n + 1)) \<and> n' = n + 1"
    using step.hyps(1) unfolding s by (rule new_id_step)
  then show ?case
  proof
    assume "new_id q r = None \<and> n \<le> n'"
    with ns s show ?thesis by (auto intro!: exI [of _ ns])
  next
    assume "new_id q r = Some (sandbox_name (n + 1)) \<and> n' = n + 1"
    with ns s show ?thesis by (auto intro!: exI [of _ "(n + 1) # ns"] dest: Suc_lessD)
  qed
qed simp

text \<open>
  C13: In a run of the server no sandbox identifier is handed out twice, whether by creating or by
  restoring, even after sandboxes have been destroyed.
\<close>

theorem identifiers_unique:
  assumes "run_state (run_server E P reqs) w = (Inr (cfg, replies), w')" "length reqs < 2 ^ 64"
  shows "distinct (handed_out reqs replies)"
  using spec_run_names [OF refines_run [OF assms]] by (auto simp: distinct_map inj_on_def)

theorem identifiers_unique_witness:
  "\<exists>replies w'. run_state (run_server demo_env demo_process [Create, Create]) demo_start = (Inr (demo_config, replies), w') \<and>
     distinct (handed_out [Create, Create] replies)"
proof -
  obtain replies w' where w': "run_state (run_server demo_env demo_process [Create, Create]) demo_start = (Inr (demo_config, replies), w')"
    using demo_runs by blast
  from identifiers_unique [OF w'] w' show ?thesis by auto
qed

end
