(* ===== verification/Snapshot_Store.thy ===== *)
theory Snapshot_Store
  imports Startup
begin

text \<open>
  What the files of snapshots promise: replacing metadata is atomic, the golden snapshot is
  reused once it is complete, and user snapshots can be stored, loaded, listed and deleted under
  their identifiers. The file system is the one of theory Host.
\<close>

section \<open>Snapshot: metadata\<close>

text \<open>Paths on which the calls act on the modelled file system, and no call fails by itself.\<close>

definition ordinary :: "'x env \<Rightarrow> string \<Rightarrow> bool" where
  "ordinary E p \<longleftrightarrow> \<not> e_pseudo E p"

definition reliable :: "'x env \<Rightarrow> fsop list \<Rightarrow> bool" where
  "reliable E ops \<longleftrightarrow> (\<forall>n op p. op \<in> set ops \<longrightarrow> e_fault E n op p = None)"

lemma write_file_effect:
  assumes "run_state (os_WriteFile E p d) h = (r, h')" "ordinary E p"
  shows "(\<forall>q. q \<noteq> p \<longrightarrow> fs_get (fs h') q = fs_get (fs h) q) \<and> (r = None \<longrightarrow> p \<noteq> [slash] \<and> fs_get (fs h') p = Some (File d))"
proof -
  have "keeps (untouched (\<lambda>q. q \<noteq> p)) (os_WriteFile E p d)" by (intro untouched_writes) simp
  from keepsD [OF this assms(1)] have "\<forall>q. q \<noteq> p \<longrightarrow> fs_get (fs h') q = fs_get (fs h) q" by (simp add: untouched_def)
  moreover have "p \<noteq> [slash] \<and> fs_get (fs h') p = Some (File d)" if "r = None"
    using assms that
    by (auto simp: os_WriteFile_def sys_fs_def tick_def ordinary_def err_of_def fs_get_put split: option.splits sum.splits prod.splits
        dest!: fs_create_cases)
  ultimately show ?thesis by blast
qed

lemma rename_effect:
  assumes "run_state (os_Rename E p q) h = (r, h')" "ordinary E p" "p \<noteq> q"
  shows "case r of None \<Rightarrow> fs_get (fs h') q = fs_get (fs h) p | Some _ \<Rightarrow> fs_get (fs h') q = fs_get (fs h) q"
  using assms
  by (auto simp: os_Rename_def sys_fs_def tick_def ordinary_def err_of_def fs_get_put fs_get_del fs_residue_def fail_def
      split: option.splits sum.splits prod.splits if_splits)

lemma tmp_differs [simp]: "p @ ''.tmp'' \<noteq> p" "p \<noteq> p @ ''.tmp''"
  by simp_all

lemma write_meta_frame: "keeps (untouched (\<lambda>q. q \<noteq> p \<and> q \<noteq> p @ ''.tmp'')) (write_meta E p j)"
  unfolding write_meta_def Let_def by (intro untouched.keeps_rules untouched_writes) simp_all

lemma write_meta_result:
  assumes "run_state (write_meta E p j) h = (r, h')" "ordinary E (p @ ''.tmp'')"
  shows "fs_get (fs h') p = (case r of None \<Rightarrow> Some (File (MarshalIndent j @ [CHR 0x0A])) | Some _ \<Rightarrow> fs_get (fs h) p)"
proof -
  obtain a h1 where a: "run_state (os_WriteFile E (p @ ''.tmp'') (MarshalIndent j @ [CHR 0x0A])) h = (a, h1)" by (rule prod.exhaust)
  obtain b h2 where b: "run_state (os_Rename E (p @ ''.tmp'') p) h1 = (b, h2)" by (rule prod.exhaust)
  show ?thesis
    using assms(1) a b write_file_effect [OF a assms(2)] rename_effect [OF b assms(2)]
    by (cases a; cases b) (auto simp: write_meta_def Let_def)
qed

text \<open>
  C21: Replacing a metadata file is atomic: if it succeeds the file holds the new text, if it
  fails, at whatever point, the file is as it was; no other file but the temporary one is touched.
\<close>

theorem write_meta_atomic:
  assumes "run_state (write_meta E p j) h = (r, h')" "ordinary E (p @ ''.tmp'')"
  shows "fs_get (fs h') p = (case r of None \<Rightarrow> Some (File (MarshalIndent j @ [CHR 0x0A])) | Some _ \<Rightarrow> fs_get (fs h) p) \<and>
    (\<forall>q. q \<noteq> p \<and> q \<noteq> p @ ''.tmp'' \<longrightarrow> fs_get (fs h') q = fs_get (fs h) q)"
  using write_meta_result [OF assms] keepsD [OF write_meta_frame assms(1)] by (simp add: untouched_def)

theorem write_meta_atomic_witness:
  "\<exists>h'. run_state (write_meta calm_env ''/w/meta.json'' (JObj [])) (blank_host ()) = (Some (wrap ''write snapshot meta: ''
      (PathError ''open'' ''/w/meta.json.tmp'' ENOENT)), h') \<and> fs_get (fs h') ''/w/meta.json'' = None"
proof -
  let ?r = "Some (wrap ''write snapshot meta: '' (PathError ''open'' ''/w/meta.json.tmp'' ENOENT))"
  have run: "fst (run_state (write_meta calm_env ''/w/meta.json'' (JObj [])) (blank_host ())) = ?r"
    by code_simp
  then obtain h' where h': "run_state (write_meta calm_env ''/w/meta.json'' (JObj [])) (blank_host ()) = (?r, h')"
    by (metis prod.collapse)
  have "ordinary calm_env (''/w/meta.json'' @ ''.tmp'')" by code_simp
  from write_meta_atomic [OF h' this] have "fs_get (fs h') ''/w/meta.json'' = fs_get (fs (blank_host ())) ''/w/meta.json''" by simp
  with h' show ?thesis by (auto simp: blank_host_def fs_get_def)
qed

lemma read_file_result:
  assumes "fs_get (fs h) p = Some (File d)" "ordinary E p" "reliable E [OpReadFile]"
  shows "run_state (os_ReadFile E p) h = (Inr d, snd (run_state (tick E) h))"
  using assms by (simp add: os_ReadFile_def sys_fs_def tick_def ordinary_def reliable_def)

lemma stat_result:
  assumes "fs_get (fs h) p \<noteq> None" "ordinary E p" "reliable E [OpStat]"
  shows "run_state (fileExists E p) h = (True, snd (run_state (tick E) h))"
  using assms by (auto simp: fileExists_def os_Stat_def sys_fs_def tick_def ordinary_def reliable_def err_of_def)

lemma fs_tick [simp]: "fs (snd (run_state (tick E) h)) = fs h"
  by (simp add: tick_def)

lemma reliable_mono: "reliable E ops \<Longrightarrow> set ops' \<subseteq> set ops \<Longrightarrow> reliable E ops'"
  by (auto simp: reliable_def)

lemma utf8_ascii: "ascii s \<Longrightarrow> valid_utf8 s"
  by (rule valid_utf8_ascii) (simp add: ascii_def)

lemma snapshotMeta_trip:
  assumes "valid_utf8 (sm_LineageID m)" "valid_utf8 (sm_BaseRootfsPath m)" "valid_utf8 (sm_CreatedAt m)" "int64 (sm_Version m)"
  shows "Unmarshal dec_snapshotMeta zero_snapshotMeta (MarshalIndent (json_snapshotMeta m) @ [CHR 0x0A]) = Some m"
proof -
  have "wf_json max_depth (json_snapshotMeta m)"
    using assms by (simp add: json_snapshotMeta_def max_depth_def)
  then have "Unmarshal dec_snapshotMeta zero_snapshotMeta (MarshalIndent (json_snapshotMeta m) @ [CHR 0x0A]) = 
    dec_snapshotMeta (json_snapshotMeta m) zero_snapshotMeta" by (rule Unmarshal_MarshalIndent)
  then show ?thesis
    by (simp add: dec_snapshotMeta_def json_snapshotMeta_def zero_snapshotMeta_def find_field_exact field_def dec_int_itoa [OF assms(4)] del: dec_int.simps)
qed


lemma layout_paths:
  assumes w: "work_path wd"
  shows "sp_StateFile (snapshotLayout wd) = wd @ ''/snapshot/state.snap''" "sp_MemFile (snapshotLayout wd) = wd @ ''/snapshot/mem.snap''"
    "sp_BaseDisk (snapshotLayout wd) = wd @ ''/snapshot/base/rootfs.ext4''" "sp_MetaFile (snapshotLayout wd) = wd @ ''/snapshot/meta.json''"
proof -
  have "work_path ((wd @ slash # ''snapshot'') @ slash # ''base'')"
    by (intro work_path_append) (simp_all add: plain_elem_def w)
  from Join_append [OF this, of "''rootfs.ext4''"] w
  show "sp_StateFile (snapshotLayout wd) = wd @ ''/snapshot/state.snap''" "sp_MemFile (snapshotLayout wd) = wd @ ''/snapshot/mem.snap''"
    "sp_BaseDisk (snapshotLayout wd) = wd @ ''/snapshot/base/rootfs.ext4''" "sp_MetaFile (snapshotLayout wd) = wd @ ''/snapshot/meta.json''"
    by (simp_all add: snapshotLayout_def Let_def Join_append work_path_append plain_elem_def)
qed

text \<open>
  C26: Once the files of the golden snapshot are there and its metadata has been written, the next
  \<open>ensureSnapshot\<close> with the same configuration reuses them: it returns their paths and changes no file. (The
  paths are ordinary files, and reading them does not fail.)
\<close>

theorem ensureSnapshot_reuses:
  assumes written: "run_state (writeSnapshotMeta E (snapshotLayout (WorkDir cfg)) cfg) h = (None, h')"
    and files: "\<forall>p \<in> {sp_StateFile (snapshotLayout (WorkDir cfg)), sp_MemFile (snapshotLayout (WorkDir cfg)),
      sp_BaseDisk (snapshotLayout (WorkDir cfg))}. fs_get (fs h') p \<noteq> None"
    and wd: "work_path (WorkDir cfg)" "\<forall>p. below (WorkDir cfg) p \<longrightarrow> ordinary E p" and rel: "reliable E [OpStat, OpReadFile]"
    and utf8: "valid_utf8 (BaseRootfsLineageID cfg)" "valid_utf8 (BaseRootfsPath cfg)"
  shows "\<exists>h''. run_state (ensureSnapshot E cfg) h' = (Inr (snapshotLayout (WorkDir cfg)), h'') \<and> fs h'' = fs h'"
proof -
  let ?sp = "snapshotLayout (WorkDir cfg)"
  obtain now h0 where h0: "run_state (time_Now E) h = (now, h0)" by (rule prod.exhaust)
  let ?m = "\<lparr>sm_Version = 1, sm_LineageID = BaseRootfsLineageID cfg, sm_BaseRootfsPath = BaseRootfsPath cfg, sm_CreatedAt = RFC3339Nano now\<rparr>"
  have ord: "ordinary E (sp_StateFile ?sp)" "ordinary E (sp_MemFile ?sp)" "ordinary E (sp_BaseDisk ?sp)" "ordinary E (sp_MetaFile ?sp)"
    "ordinary E (sp_MetaFile ?sp @ ''.tmp'')"
    using layout_paths [OF wd(1)] wd(2) by simp_all
  have meta: "fs_get (fs h') (sp_MetaFile ?sp) = Some (File (MarshalIndent (json_snapshotMeta ?m) @ [CHR 0x0A]))"
    using write_meta_result [OF _ ord(5), of "json_snapshotMeta ?m" h0 None h'] written h0 by (simp add: writeSnapshotMeta_def)
  have "Unmarshal dec_snapshotMeta zero_snapshotMeta (MarshalIndent (json_snapshotMeta ?m) @ [CHR 0x0A]) = Some ?m"
    using utf8 by (intro snapshotMeta_trip) (simp_all add: int64_def utf8_ascii ascii_RFC3339Nano)
  then have check: "check_snapshotMeta cfg (MarshalIndent (json_snapshotMeta ?m) @ [CHR 0x0A]) = None"
    by (simp add: check_snapshotMeta_def)
  have st: "run_state (fileExists E p) g = (True, snd (run_state (tick E) g))"
    if "fs g = fs h'" "p \<in> {sp_StateFile ?sp, sp_MemFile ?sp, sp_BaseDisk ?sp}" for p g
    using files that ord reliable_mono [OF rel, of "[OpStat]"] by (intro stat_result) auto
  have rd: "run_state (os_ReadFile E (sp_MetaFile ?sp)) g = (Inr (MarshalIndent (json_snapshotMeta ?m) @ [CHR 0x0A]), snd (run_state (tick E) g))"
    if "fs g = fs h'" for g
    using meta that ord(4) reliable_mono [OF rel, of "[OpReadFile]"] by (intro read_file_result) auto
  show ?thesis
    by (simp add: ensureSnapshot_def snapshot_files_exist_def validateSnapshotMeta_def Let_def st rd check)
qed


definition golden_host :: "unit host" where
  "golden_host = (blank_host ())\<lparr>fs := [(''/w/snapshot'', Dir), (''/w/snapshot/state.snap'', File []), (''/w/snapshot/mem.snap'', File []),
     (''/w/snapshot/base/rootfs.ext4'', File [])]\<rparr>"

lemma golden_work: "work_path ''/w''"
  unfolding work_path_def by (rule exI [of _ "[''w'']"]) (simp add: abs_path_def plain_elem_def)

lemma golden_write: "fst (run_state (write_meta calm_env (''/w'' @ ''/snapshot/meta.json'') j) (golden_host\<lparr>ticks := n\<rparr>)) = None"
  by (simp add: write_meta_def Let_def os_WriteFile_def os_Rename_def sys_fs_def tick_def calm_env_def below_def golden_host_def
      blank_host_def fs_create_def fs_get_put fs_get_del err_of_def parent_def fs_get_def [of "_ # _"])

lemma golden_writes: "fst (run_state (writeSnapshotMeta calm_env (snapshotLayout ''/w'') cfg) golden_host) = None"
  unfolding writeSnapshotMeta_def layout_paths [OF golden_work] using golden_write [of _ 1]
  by (simp add: time_Now_def tick_def calm_env_def [THEN arg_cong [where f = e_lag]] golden_host_def blank_host_def del: append.simps)

theorem ensureSnapshot_reuses_witness:
  "\<exists>h' h''. run_state (writeSnapshotMeta calm_env (snapshotLayout ''/w'') demo_config) golden_host = (None, h') \<and>
     run_state (ensureSnapshot calm_env demo_config) h' = (Inr (snapshotLayout ''/w''), h'') \<and> fs h'' = fs h'"
proof -
  have wd: "WorkDir demo_config = ''/w''" by code_simp
  obtain h' where h': "run_state (writeSnapshotMeta calm_env (snapshotLayout ''/w'') demo_config) golden_host = (None, h')"
    using golden_writes by (metis prod.collapse)
  have keep: "keeps (untouched (\<lambda>q. q \<noteq> sp_MetaFile (snapshotLayout ''/w'') \<and> q \<noteq> sp_MetaFile (snapshotLayout ''/w'') @ ''.tmp''))
      (writeSnapshotMeta calm_env (snapshotLayout ''/w'') demo_config)"
    unfolding writeSnapshotMeta_def by (intro untouched.keeps_rules frames write_meta_frame)
  have files: "\<forall>p \<in> {sp_StateFile (snapshotLayout ''/w''), sp_MemFile (snapshotLayout ''/w''), sp_BaseDisk (snapshotLayout ''/w'')}.
      fs_get (fs h') p \<noteq> None"
    using keepsD [OF keep h'] unfolding untouched_def layout_paths [OF golden_work]
    by (simp add: golden_host_def fs_get_def [of "_ # _"])
  have o: "\<forall>p. below ''/w'' p \<longrightarrow> ordinary calm_env p"
    by (auto simp: below_iff ordinary_def calm_env_def)
  have r: "reliable calm_env [OpStat, OpReadFile]" by (simp add: reliable_def calm_env_def)
  have "valid_utf8 (BaseRootfsLineageID demo_config)" "valid_utf8 (BaseRootfsPath demo_config)" by (code_simp, code_simp)
  with ensureSnapshot_reuses [where cfg = demo_config, unfolded wd, OF h' files golden_work o r] h' show ?thesis by blast
qed


section \<open>User snapshots: identifiers and paths\<close>

lemma alnum_printable: "alnum c \<or> c \<in> set ''._-'' \<Longrightarrow> printable c"
  by (auto simp: alnum_def printable_def less_eq_char_def less_char_def)

lemma alnum_ascii: "alnum c \<or> c \<in> set ''._-'' \<Longrightarrow> (of_char c :: nat) < 0x80"
  by (auto simp: alnum_def less_eq_char_def)

lemma alnum_not_special: "\<not> alnum (CHR ''.'')" "\<not> alnum slash"
  by (simp_all add: alnum_def less_eq_char_def)

lemma snapshotIDPattern_chars:
  assumes "snapshotIDPattern s"
  shows "s \<noteq> []" "alnum (hd s)" "length s \<le> 128" "list_all (\<lambda>c. alnum c \<or> c \<in> set ''._-'') s"
  using assms by (auto simp: snapshotIDPattern_def split: list.splits)

lemma snapshotIDPattern_plain:
  assumes "snapshotIDPattern s"
  shows "plain_elem s" "TrimSpace s = s" "ascii s"
proof -
  note c = snapshotIDPattern_chars [OF assms]
  have "slash \<notin> set s" using c(4) alnum_not_special by (auto simp: list_all_iff)
  then show "plain_elem s" using c(1,2) alnum_not_special by (auto simp: plain_elem_def)
  show "TrimSpace s = s"
    using c by (intro TrimSpace_printable alnum_printable) (auto simp: list_all_iff)
  show "ascii s" using c(4) alnum_ascii by (auto simp: ascii_def list_all_iff)
qed

lemma normalizeSnapshotID_Inr: "normalizeSnapshotID raw = Inr sid \<longleftrightarrow> sid = TrimSpace raw \<and> snapshotIDPattern sid"
  using snapshotIDPattern_chars(1) by (auto simp: normalizeSnapshotID_def Let_def)

lemma normalizeSnapshotID_fix: "snapshotIDPattern sid \<Longrightarrow> normalizeSnapshotID sid = Inr sid"
  by (simp add: normalizeSnapshotID_Inr snapshotIDPattern_plain)

lemma user_paths:
  assumes "work_path wd" "snapshotIDPattern sid"
  shows "userSnapshotsDir wd = wd @ ''/user-snapshots''" "userSnapshotRootDir wd sid = wd @ ''/user-snapshots/'' @ sid"
    "userSnapshotMetaPath wd sid = wd @ ''/user-snapshots/'' @ sid @ ''/meta.json''"
proof -
  have u: "Join [wd, ''user-snapshots''] = wd @ slash # ''user-snapshots''" "work_path (wd @ slash # ''user-snapshots'')"
    using assms(1) by (simp_all add: Join_append Join_append_right [unfolded Join_append] work_path_append plain_elem_def)
  note sid = snapshotIDPattern_plain(1) [OF assms(2)]
  have r: "Join [wd @ slash # ''user-snapshots'', sid] = (wd @ slash # ''user-snapshots'') @ slash # sid" "work_path ((wd @ slash # ''user-snapshots'') @ slash # sid)"
    by (rule Join_append [OF u(2) sid], rule work_path_append [OF u(2) sid])
  have m: "Join [(wd @ slash # ''user-snapshots'') @ slash # sid, ''meta.json''] = ((wd @ slash # ''user-snapshots'') @ slash # sid) @ slash # ''meta.json''"
    by (rule Join_append [OF r(2)]) (simp add: plain_elem_def)
  show "userSnapshotsDir wd = wd @ ''/user-snapshots''" using u(1) by (simp add: userSnapshotsDir_def)
  show "userSnapshotRootDir wd sid = wd @ ''/user-snapshots/'' @ sid"
    unfolding userSnapshotRootDir_def userSnapshotsDir_def u(1) r(1) by simp
  show "userSnapshotMetaPath wd sid = wd @ ''/user-snapshots/'' @ sid @ ''/meta.json''"
    unfolding userSnapshotMetaPath_def userSnapshotRootDir_def userSnapshotsDir_def u(1) r(1) m by simp
qed

text \<open>
  An identifier is accepted for a snapshot exactly if, without the white space around it, it
  has 1 to 128 characters, all of them letters, digits, dots, underscores and hyphens and the first
  one a letter or digit; that text is then the identifier.
\<close>

theorem normalizeSnapshotID_grammar:
  "normalizeSnapshotID raw = Inr sid \<longleftrightarrow>
     sid = TrimSpace raw \<and> 0 < length sid \<and> length sid \<le> 128 \<and> alnum (hd sid) \<and> list_all (\<lambda>c. alnum c \<or> c \<in> set ''._-'') sid"
  unfolding normalizeSnapshotID_Inr snapshotIDPattern_def by (cases sid) auto

section \<open>User snapshots: metadata\<close>

definition ok_meta :: "userSnapshotMeta \<Rightarrow> bool" where
  "ok_meta m \<longleftrightarrow> snapshotIDPattern (um_SnapshotID m) \<and> list_all valid_utf8
     [um_Name m, um_CreatedAt m, um_StateFile m, um_MemFile m, um_DiskFile m, um_LineageID m, um_SourceSandboxID m, um_SourceRootfsPath m]"

lemma userSnapshotMeta_trip:
  assumes "ok_meta m"
  shows "parse_userSnapshotMeta sid (MarshalIndent (json_userSnapshotMeta m) @ [CHR 0x0A]) = Inr m"
proof -
  have p: "snapshotIDPattern (um_SnapshotID m)" using assms by (simp add: ok_meta_def)
  have "wf_json max_depth (json_userSnapshotMeta m)"
    using assms utf8_ascii [OF snapshotIDPattern_plain(3) [OF p]] by (simp add: ok_meta_def json_userSnapshotMeta_def max_depth_def omit_str_def)
  from Unmarshal_MarshalIndent [OF this, of dec_userSnapshotMeta zero_userSnapshotMeta]
  have "Unmarshal dec_userSnapshotMeta zero_userSnapshotMeta (MarshalIndent (json_userSnapshotMeta m) @ [CHR 0x0A]) = Some m"
    by (simp add: dec_userSnapshotMeta_def json_userSnapshotMeta_def zero_userSnapshotMeta_def find_field_exact field_def omit_str_def)
  then show ?thesis
    using snapshotIDPattern_chars(1) [OF p] snapshotIDPattern_plain(2) [OF p] by (simp add: parse_userSnapshotMeta_def)
qed

text \<open>
  C24: The metadata of a user snapshot that was written successfully is what is loaded under its
  identifier afterwards, as long as its texts are valid UTF-8 and the file can be read.
\<close>

theorem user_meta_roundtrip:
  assumes "run_state (writeUserSnapshotMeta E cfg m) h = (None, h')" "ok_meta m" "work_path (WorkDir cfg)"
    and "\<forall>p. below (WorkDir cfg) p \<longrightarrow> ordinary E p" "reliable E [OpReadFile]"
  shows "fst (run_state (loadUserSnapshotMeta E cfg (um_SnapshotID m)) h') = Inr m"
proof -
  let ?p = "userSnapshotMetaPath (WorkDir cfg) (um_SnapshotID m)"
  have sid: "snapshotIDPattern (um_SnapshotID m)" using assms(2) by (simp add: ok_meta_def)
  have ord: "ordinary E ?p" "ordinary E (?p @ ''.tmp'')"
    using assms(4) user_paths(3) [OF assms(3) sid] by simp_all
  have "fs_get (fs h') ?p = Some (File (MarshalIndent (json_userSnapshotMeta m) @ [CHR 0x0A]))"
    using write_meta_result [OF _ ord(2), of "json_userSnapshotMeta m" h None h'] assms(1) by (simp add: writeUserSnapshotMeta_def)
  from read_file_result [OF this ord(1) assms(5)] show ?thesis
    by (simp add: loadUserSnapshotMeta_def normalizeSnapshotID_fix [OF sid] userSnapshotMeta_trip [OF assms(2)])
qed


definition demo_meta :: userSnapshotMeta where
  "demo_meta = \<lparr>um_SnapshotID = ''us-1'', um_Name = ''first'', um_CreatedAt = ''2025-01-01T00:00:00Z'', um_StateFile = ''/w/s'', um_MemFile = ''/w/m'',
     um_DiskFile = ''/w/d'', um_LineageID = ''l1'', um_SourceSandboxID = ''sb-1'', um_SourceRootfsPath = ''/w/r''\<rparr>"

definition user_host :: "unit host" where
  "user_host = (blank_host ())\<lparr>fs := [(''/w/user-snapshots'', Dir), (''/w/user-snapshots/us-1'', Dir), (''/w/user-snapshots/us-2'', Dir)]\<rparr>"

lemma calm_facts: "\<forall>p. below ''/w'' p \<longrightarrow> ordinary calm_env p" "reliable calm_env ops"
  by (auto simp: below_iff ordinary_def calm_env_def reliable_def)

lemma demo_work: "WorkDir demo_config = ''/w''"
  by code_simp

theorem user_meta_roundtrip_witness:
  "\<exists>h'. run_state (writeUserSnapshotMeta calm_env demo_config demo_meta) user_host = (None, h') \<and>
     fst (run_state (loadUserSnapshotMeta calm_env demo_config ''us-1'') h') = Inr demo_meta"
proof -
  have "fst (run_state (writeUserSnapshotMeta calm_env demo_config demo_meta) user_host) = None" by code_simp
  then obtain h' where h': "run_state (writeUserSnapshotMeta calm_env demo_config demo_meta) user_host = (None, h')"
    by (metis prod.collapse)
  have "ok_meta demo_meta" "um_SnapshotID demo_meta = ''us-1''" by (code_simp, code_simp)
  with user_meta_roundtrip [OF h' _ _ _ calm_facts(2)] golden_work calm_facts(1) h' show ?thesis by (simp add: demo_work)
qed


section \<open>User snapshots: listing\<close>

lemma sort_desc_sorted: "sorted_wrt (\<lambda>a b. key b \<le> key a) (sort_desc key xs)"
  unfolding sort_desc_def sorted_wrt_rev using sorted_sort_key [of key "rev xs"] by (simp add: sorted_wrt_map)

lemma mset_sort_desc [simp]: "mset (sort_desc key xs) = mset xs"
  by (simp add: sort_desc_def)

text \<open>What is stored under an entry of the directory, if it is a snapshot.\<close>

definition stored :: "config \<Rightarrow> filesys \<Rightarrow> string \<times> fnode \<Rightarrow> userSnapshotMeta option" where
  "stored cfg f e = (case e of
     (name, Dir) \<Rightarrow>
       if snapshotIDPattern (TrimSpace name) then
         (case fs_get f (userSnapshotMetaPath (WorkDir cfg) (TrimSpace name)) of
            Some (File raw) \<Rightarrow> (case parse_userSnapshotMeta (TrimSpace name) raw of Inr m \<Rightarrow> Some m | Inl _ \<Rightarrow> None)
          | _ \<Rightarrow> None)
       else None
   | _ \<Rightarrow> None)"

lemma read_file_cases:
  assumes "ordinary E p" "reliable E [OpReadFile]"
  shows "fst (run_state (os_ReadFile E p) h) = (case fs_get (fs h) p of Some (File d) \<Rightarrow> Inr d
      | Some Dir \<Rightarrow> Inl (PathError ''read'' p EISDIR) | None \<Rightarrow> Inl (PathError ''open'' p ENOENT))"
    "fs (snd (run_state (os_ReadFile E p) h)) = fs h"
  using assms by (auto simp: os_ReadFile_def sys_fs_def tick_def ordinary_def reliable_def fail_def split: option.split fnode.split)

lemma load_stored:
  assumes "work_path (WorkDir cfg)" "\<forall>p. below (WorkDir cfg) p \<longrightarrow> ordinary E p" "reliable E [OpReadFile]"
    "run_state (loadUserSnapshotMeta E cfg name) h = (r, h')"
  shows "fs h' = fs h" "(case r of Inr m \<Rightarrow> Some m | Inl _ \<Rightarrow> None) = stored cfg (fs h) (name, Dir)"
proof -
  have "ordinary E (userSnapshotMetaPath (WorkDir cfg) sid)" if "snapshotIDPattern sid" for sid
    using assms(2) user_paths(3) [OF assms(1) that] by simp
  note rd = read_file_cases [OF this assms(3), of "TrimSpace name" h]
  obtain x g where x: "run_state (os_ReadFile E (userSnapshotMetaPath (WorkDir cfg) (TrimSpace name))) h = (x, g)" by (rule prod.exhaust)
  show "fs h' = fs h" "(case r of Inr m \<Rightarrow> Some m | Inl _ \<Rightarrow> None) = stored cfg (fs h) (name, Dir)"
    using assms(4) x rd
    by (cases "snapshotIDPattern (TrimSpace name)"; auto simp: loadUserSnapshotMeta_def normalizeSnapshotID_def Let_def stored_def snapshotIDPattern_def
        split: option.splits fnode.splits sum.splits if_splits)+
qed


lemma load_each_stored:
  assumes "work_path (WorkDir cfg)" "\<forall>p. below (WorkDir cfg) p \<longrightarrow> ordinary E p" "reliable E [OpReadFile]"
  shows "run_state (load_each E cfg (map (\<lambda>(k, n). (k, n = Dir)) es)) h = (out, h') \<Longrightarrow>
    fs h' = fs h \<and> out = List.map_filter (stored cfg (fs h)) es"
proof (induction es arbitrary: h out h')
  case (Cons e es)
  obtain name n where e: "e = (name, n)" by (rule prod.exhaust)
  show ?case
  proof (cases n)
    case (File d)
    with Cons show ?thesis by (simp add: e stored_def List.map_filter_simps)
  next
    case Dir
    obtain r h1 where r: "run_state (loadUserSnapshotMeta E cfg name) h = (r, h1)" by (rule prod.exhaust)
    obtain out2 h2 where o: "run_state (load_each E cfg (map (\<lambda>(k, n). (k, n = Dir)) es)) h1 = (out2, h2)" by (rule prod.exhaust)
    note l = load_stored [OF assms r]
    have "fs h2 = fs h" "out2 = List.map_filter (stored cfg (fs h)) es" using Cons.IH [OF o] l(1) by simp_all
    with Cons.prems r o l(2) [symmetric] Dir show ?thesis
      by (auto simp: e List.map_filter_simps split: sum.splits)
  qed
qed (simp add: List.map_filter_simps)

lemma listUserSnapshots_stored:
  assumes "work_path (WorkDir cfg)" "\<forall>p. below (WorkDir cfg) p \<longrightarrow> ordinary E p" "reliable E [OpReadFile, OpReadDir]"
    and "fs_get (fs h) (userSnapshotsDir (WorkDir cfg)) = Some Dir"
  shows "\<exists>h'. run_state (listUserSnapshots E cfg) h = (Inr (sort_desc um_CreatedAt (List.map_filter (stored cfg (fs h))
      (sort_key fst (children (fs h) (userSnapshotsDir (WorkDir cfg)))))), h') \<and> fs h' = fs h"
proof -
  let ?d = "userSnapshotsDir (WorkDir cfg)"
  let ?es = "sort_key fst (children (fs h) ?d)"
  have "ordinary E ?d"
    using assms(1,2) by (simp add: userSnapshotsDir_def Join_append plain_elem_def)
  then obtain h1 where h1: "run_state (os_ReadDir E ?d) h = (Inr (map (\<lambda>(k, n). (k, n = Dir)) ?es), h1)" "fs h1 = fs h"
    using assms(3,4) by (simp add: os_ReadDir_def sys_fs_def tick_def ordinary_def reliable_def)
  obtain out h2 where o: "run_state (load_each E cfg (map (\<lambda>(k, n). (k, n = Dir)) ?es)) h1 = (out, h2)" by (rule prod.exhaust)
  have out: "fs h2 = fs h" "out = List.map_filter (stored cfg (fs h)) ?es"
    using load_each_stored [OF assms(1,2) _ o] reliable_mono [OF assms(3), of "[OpReadFile]"] h1(2) by simp_all
  with h1(1) o show ?thesis by (simp add: listUserSnapshots_def)
qed

text \<open>
  C25: Listing the snapshots changes nothing and returns, newest text of the creation time first, exactly the metadata of the
  directories under \<open>user-snapshots\<close> that have a valid name and readable metadata, each once;
  directories without are skipped and do not make the listing fail.
\<close>

theorem listUserSnapshots_exact:
  assumes "work_path (WorkDir cfg)" "\<forall>p. below (WorkDir cfg) p \<longrightarrow> ordinary E p" "reliable E [OpReadFile, OpReadDir]"
    and "fs_get (fs h) (userSnapshotsDir (WorkDir cfg)) = Some Dir"
  shows "\<exists>items h'. run_state (listUserSnapshots E cfg) h = (Inr items, h') \<and> fs h' = fs h \<and>
    sorted_wrt (\<lambda>a b. um_CreatedAt b \<le> um_CreatedAt a) items \<and>
    mset items = mset (List.map_filter (stored cfg (fs h)) (children (fs h) (userSnapshotsDir (WorkDir cfg))))"
proof -
  let ?d = "userSnapshotsDir (WorkDir cfg)"
  have "mset (List.map_filter (stored cfg (fs h)) (sort_key fst (children (fs h) ?d))) = mset (List.map_filter (stored cfg (fs h)) (children (fs h) ?d))"
    by (simp only: List.map_filter_def mset_map mset_filter mset_sort)
  with listUserSnapshots_stored [OF assms] show ?thesis
    by (auto simp: sort_desc_sorted)
qed

theorem listUserSnapshots_exact_witness:
  "\<exists>items h'. run_state (listUserSnapshots calm_env demo_config) user_host = (Inr items, h') \<and> fs h' = fs user_host"
proof -
  have "fs_get (fs user_host) (userSnapshotsDir (WorkDir demo_config)) = Some Dir" by code_simp
  from listUserSnapshots_exact [OF _ _ calm_facts(2) this] golden_work calm_facts(1) show ?thesis
    unfolding demo_work by blast
qed


section \<open>User snapshots: deleting\<close>

text \<open>
  C22: Deleting a snapshot removes the snapshot the request names and nothing else. A body that
  does not parse, or whose identifier is not one, is refused with 400 and changes nothing.
  Otherwise the identifier, without the white space around it, is a plain name, and only what is
  under \<open>user-snapshots/<identifier>\<close> of the work directory can change: with the answer 200
  nothing is left there, and any other answer is a 500. The server itself never changes.
\<close>

theorem handleSnapshotDelete_confined:
  assumes "run_state (handleSnapshotDelete E cfg body) w = (r, w')" "work_path (WorkDir cfg)"
    and "\<forall>p. below (WorkDir cfg) p \<longrightarrow> ordinary E p"
  shows "srv w' = srv w \<and>
    (case decodeJSON (dec_single ''snapshot_id'') [] body of
       None \<Rightarrow> r = bad_request ''invalid request body'' \<and> w' = w
     | Some raw \<Rightarrow>
       if snapshotIDPattern (TrimSpace raw) then
         slash \<notin> set (TrimSpace raw) \<and> TrimSpace raw \<notin> {[], ''.'', ''..''} \<and>
         (\<forall>q. \<not> below (WorkDir cfg @ ''/user-snapshots/'' @ TrimSpace raw) q \<longrightarrow> fs_get (fs (host w')) q = fs_get (fs (host w)) q) \<and>
         (r = Reply 200 (id_body ''status'' ''ok'') \<and>
            (\<forall>q. below (WorkDir cfg @ ''/user-snapshots/'' @ TrimSpace raw) q \<longrightarrow> fs_get (fs (host w')) q = None) \<or>
          (\<exists>m. r = server_error m))
       else (\<exists>m. r = bad_request m) \<and> w' = w)"
proof (cases "decodeJSON (dec_single ''snapshot_id'') [] body")
  case None
  with assms(1) show ?thesis by (auto simp: handleSnapshotDelete_def)
next
  case (Some raw)
  show ?thesis
  proof (cases "snapshotIDPattern (TrimSpace raw)")
    case False
    then have "normalizeSnapshotID raw \<noteq> Inr sid" for sid by (auto simp: normalizeSnapshotID_Inr)
    with Some assms(1) False show ?thesis by (cases "normalizeSnapshotID raw") (auto simp: handleSnapshotDelete_def)
  next
    case True
    let ?p = "WorkDir cfg @ ''/user-snapshots/'' @ TrimSpace raw"
    have sid: "normalizeSnapshotID raw = Inr (TrimSpace raw)" using True by (simp add: normalizeSnapshotID_Inr)
    have p: "userSnapshotRootDir (WorkDir cfg) (TrimSpace raw) = ?p" by (rule user_paths [OF assms(2) True])
    obtain x h' where x: "run_state (os_RemoveAll E ?p) (host w) = (x, h')" by (rule prod.exhaust)
    have run: "w' = w\<lparr>host := h'\<rparr>" "r = (case x of Some e \<Rightarrow> server_error (''delete snapshot: '' @ Error e) | None \<Rightarrow> Reply 200 (id_body ''status'' ''ok''))"
      using assms(1) Some sid x by (simp_all add: handleSnapshotDelete_def onhost_def p)
    have "keeps (untouched (\<lambda>q. \<not> below ?p q)) (os_RemoveAll E ?p)" by (intro untouched_writes) simp
    from keepsD [OF this x] have "\<forall>q. \<not> below ?p q \<longrightarrow> fs_get (fs h') q = fs_get (fs (host w)) q"
      by (simp add: untouched_def)
    moreover have "\<forall>q. below ?p q \<longrightarrow> fs_get (fs h') q = None" if "x = None"
      using x assms(3) that
      by (auto simp: os_RemoveAll_def sys_fs_def tick_def ordinary_def err_of_def fs_get_del below_iff split: option.splits)
    ultimately show ?thesis
      using snapshotIDPattern_plain(1) [OF True] Some True by (auto simp: run plain_elem_def split: option.split)
  qed
qed

definition stored_host :: "unit host" where
  "stored_host = user_host\<lparr>fs := (''/w/user-snapshots/us-1/meta.json'', File (MarshalIndent (json_userSnapshotMeta demo_meta))) # fs user_host\<rparr>"

theorem handleSnapshotDelete_confined_witness:
  "\<exists>w'. run_state (handleSnapshotDelete calm_env demo_config (Marshal (id_body ''snapshot_id'' '' us-1'')))
      \<lparr>host = stored_host, srv = new_server\<rparr> = (Reply 200 (id_body ''status'' ''ok''), w') \<and>
     fs_get (fs (host w')) ''/w/user-snapshots/us-1/meta.json'' = None \<and> fs_get (fs (host w')) ''/w/user-snapshots/us-2'' = Some Dir"
proof -
  obtain r w' where w': "run_state (handleSnapshotDelete calm_env demo_config (Marshal (id_body ''snapshot_id'' '' us-1'')))
      \<lparr>host = stored_host, srv = new_server\<rparr> = (r, w')" by (rule prod.exhaust)
  have req: "decodeJSON (dec_single ''snapshot_id'') [] (Marshal (id_body ''snapshot_id'' '' us-1'')) = Some '' us-1''"
    "TrimSpace '' us-1'' = ''us-1''" "snapshotIDPattern ''us-1''" "normalizeSnapshotID '' us-1'' = Inr ''us-1''"
    by (code_simp, code_simp, code_simp, code_simp)
  have "fst (run_state (os_RemoveAll calm_env (userSnapshotRootDir (WorkDir demo_config) ''us-1'')) stored_host) = None"
    by (simp add: os_RemoveAll_def sys_fs_def tick_def calm_env_def err_of_def run_defs user_paths(2) [OF golden_work req(3)] demo_work below_iff)
  then have ok: "r = Reply 200 (id_body ''status'' ''ok'')"
    using w' req(1,4) by (auto simp: handleSnapshotDelete_def onhost_def split: prod.splits option.splits)
  have "fs_get (fs stored_host) ''/w/user-snapshots/us-2'' = Some Dir" by (simp add: stored_host_def user_host_def fs_get_def)
  with handleSnapshotDelete_confined [OF w', unfolded demo_work, OF golden_work calm_facts(1)] req ok w' show ?thesis
    by (simp add: below_iff)
qed


section \<open>User snapshots: taking and restoring\<close>

text \<open>
  C23: Whenever taking a snapshot has paused the VM, the last thing it does, however it ends, is
  to ask Firecracker to resume it; if the snapshot succeeds, that request has succeeded.
\<close>

theorem take_snapshot_resumes:
  assumes "run_state (os_MkdirAll E (userSnapshotRootDir (WorkDir cfg) sid)) h = (None, h1)"
    and "run_state (pauseVM E (newFCClient (sb_SocketPath sb) (10 * Second))) h1 = (None, h2)"
    and "run_state (take_snapshot E cfg sb sid name) h = (r, h')"
  shows "\<exists>h3 x. run_state (resumeVM E (newFCClient (sb_SocketPath sb) (10 * Second))) h3 = (x, h') \<and>
    (case r of Inr _ \<Rightarrow> x = None | Inl _ \<Rightarrow> True)"
proof -
  let ?fc = "newFCClient (sb_SocketPath sb) (10 * Second)"
  obtain q resumeNeeded h3 where q: "run_state (snapshot_paused E cfg ?fc sb sid name) h2 = ((q, resumeNeeded), h3)"
    by (metis prod.collapse)
  have done_inside: "(\<exists>m. q = Inr m) \<and> (\<exists>g. run_state (resumeVM E ?fc) g = (None, h3))" if "\<not> resumeNeeded"
    using q that by (auto simp: snapshot_paused_def Let_def split: option.splits prod.splits)
  have failed: "\<exists>e. q = Inl e" if resumeNeeded
    using q that by (auto simp: snapshot_paused_def Let_def split: option.splits prod.splits)
  show ?thesis
  proof (cases resumeNeeded)
    case True
    then obtain e where "q = Inl e" using failed by blast
    with assms q True show ?thesis
      by (auto simp: take_snapshot_def Let_def split: prod.splits) blast
  next
    case False
    with assms q done_inside show ?thesis
      by (auto simp: take_snapshot_def Let_def)
  qed
qed

definition demo_vm :: sandbox where
  "demo_vm = new_sandbox ''sb-1'' (stale_entry 1) 1001 ''/w/sandboxes/sb-1'' (''/w/s.sock'', [], []) [] ''/w/r'' [] 100 7"

theorem take_snapshot_resumes_witness:
  "\<exists>r h' h3 x. run_state (take_snapshot calm_env demo_config demo_vm ''us-1'' []) user_host = (r, h') \<and>
     run_state (resumeVM calm_env (newFCClient ''/w/s.sock'' (10 * Second))) h3 = (x, h')"
proof -
  have "fst (run_state (os_MkdirAll calm_env (userSnapshotRootDir (WorkDir demo_config) ''us-1'')) user_host) = None" by code_simp
  then obtain h1 where h1: "run_state (os_MkdirAll calm_env (userSnapshotRootDir (WorkDir demo_config) ''us-1'')) user_host = (None, h1)"
    by (metis prod.collapse)
  have calm: "fst (run_state (doJSON calm_env c verb path payload) h) = None" for c verb path payload and h :: "unit host"
    by (simp add: doJSON_def calm_env_def run_defs)
  obtain h2 where h2: "run_state (pauseVM calm_env (newFCClient (sb_SocketPath demo_vm) (10 * Second))) h1 = (None, h2)"
    using calm unfolding pauseVM_def by (metis prod.collapse)
  obtain r h' where r: "run_state (take_snapshot calm_env demo_config demo_vm ''us-1'' []) user_host = (r, h')" by (rule prod.exhaust)
  have "sb_SocketPath demo_vm = ''/w/s.sock''" by code_simp
  with take_snapshot_resumes [OF h1 h2 r] r show ?thesis by auto
qed

text \<open>
  With a lineage configured, a snapshot is restored only if its metadata has the same lineage: otherwise
  the request is answered with 409 and nothing is created.
\<close>

theorem restore_checks_lineage:
  assumes "decodeJSON (dec_single ''snapshot_id'') [] body = Some raw" "normalizeSnapshotID raw = Inr sid"
    and "run_state (loadUserSnapshotMeta E cfg sid) (host w) = (Inr meta, h')"
    and "TrimSpace (BaseRootfsLineageID cfg) \<noteq> []" "TrimSpace (um_LineageID meta) \<noteq> TrimSpace (BaseRootfsLineageID cfg)"
  shows "\<exists>m. run_state (handleSnapshotRestore E cfg body) w = (conflict m, w\<lparr>host := h'\<rparr>)"
  using assms by (auto simp: handleSnapshotRestore_def onhost_def lineage_conflict_def Let_def)


definition other_lineage :: config where
  "other_lineage = demo_config\<lparr>BaseRootfsLineageID := ''l2''\<rparr>"

theorem restore_checks_lineage_witness:
  "\<exists>m w'. run_state (handleSnapshotRestore calm_env other_lineage (Marshal (id_body ''snapshot_id'' ''us-1'')))
      \<lparr>host = stored_host, srv = new_server\<rparr> = (conflict m, w') \<and> srv w' = new_server"
proof -
  have req: "decodeJSON (dec_single ''snapshot_id'') [] (Marshal (id_body ''snapshot_id'' ''us-1'')) = Some ''us-1''"
    "normalizeSnapshotID ''us-1'' = Inr ''us-1''" "TrimSpace (BaseRootfsLineageID other_lineage) \<noteq> []"
    "TrimSpace (um_LineageID demo_meta) \<noteq> TrimSpace (BaseRootfsLineageID other_lineage)"
    by (code_simp, code_simp, code_simp, code_simp)
  have "fst (run_state (loadUserSnapshotMeta calm_env other_lineage ''us-1'') stored_host) = Inr demo_meta" by code_simp
  then obtain h' where "run_state (loadUserSnapshotMeta calm_env other_lineage ''us-1'') (host \<lparr>host = stored_host, srv = new_server\<rparr>) = (Inr demo_meta, h')"
    unfolding world.select_convs by (metis prod.collapse)
  from restore_checks_lineage [OF req(1,2) this req(3,4)] obtain m where
    m: "run_state (handleSnapshotRestore calm_env other_lineage (Marshal (id_body ''snapshot_id'' ''us-1''))) \<lparr>host = stored_host, srv = new_server\<rparr> =
      (conflict m, \<lparr>host = stored_host, srv = new_server\<rparr>\<lparr>host := h'\<rparr>)" by blast
  have "srv (\<lparr>host = stored_host, srv = new_server\<rparr>\<lparr>host := h'\<rparr>) = new_server" by simp
  with m show ?thesis by blast
qed

end
