(* ===== verification/Snapshot_Order.thy ===== *)
theory Snapshot_Order
  imports Snapshot_Store
begin

text \<open>
  Two snapshots taken one after the other and then listed, on a host where every call works: from
  \<open>createUserSnapshotFromSandbox\<close> through the metadata files to \<open>listUserSnapshots\<close>
  (\<open>cmd/server/user_snapshot.go\<close>).
\<close>

section \<open>Taking a snapshot on a calm host\<close>

text \<open>The metadata of a snapshot of the demo sandbox taken at time \<open>t\<close>, and its file.\<close>

definition taken :: "string \<Rightarrow> int \<Rightarrow> userSnapshotMeta" where
  "taken sid t = (let dir = userSnapshotRootDir (WorkDir demo_config) sid in
    \<lparr>um_SnapshotID = sid, um_Name = [], um_CreatedAt = RFC3339Nano t,
     um_StateFile = Join [dir, ''state.snap''], um_MemFile = Join [dir, ''mem.snap''], um_DiskFile = Join [dir, ''disk.ext4''],
     um_LineageID = BaseRootfsLineageID demo_config, um_SourceSandboxID = sb_ID demo_vm, um_SourceRootfsPath = sb_RootfsPath demo_vm\<rparr>)"

definition text_of :: "string \<Rightarrow> int \<Rightarrow> string" where
  "text_of sid t = MarshalIndent (json_userSnapshotMeta (taken sid t)) @ [CHR 0x0A]"

lemma calm_sys:
  assumes "\<not> below ''/proc'' p \<and> \<not> below ''/sys'' p"
  shows "run_state (sys_fs calm_env op p d) (h :: unit host) =
    (fst (fs_step op p d (fs h)), h\<lparr>ticks := Suc (ticks h), fs := snd (fs_step op p d (fs h))\<rparr>)"
  using assms by (simp add: sys_fs_def calm_env_def run_defs case_prod_beta)

lemma calm_calls:
  fixes h :: "unit host"
  shows "run_state (doJSON calm_env c verb path payload) h = (None, h)"
    "run_state (materializeSandboxRootfs calm_env cfg a b) h = (None, h)"
    "run_state (time_Now calm_env) h = (clock h, h\<lparr>ticks := Suc (ticks h)\<rparr>)"
    "run_state (time_Sleep calm_env d) h = ((), h\<lparr>clock := clock h + max 0 d, ticks := Suc (ticks h)\<rparr>)"
  by (simp_all add: doJSON_def materializeSandboxRootfs_def runCmd_def calm_env_def run_defs Let_def)

lemma calm_take:
  fixes h :: "unit host"
  assumes dir: "dir = userSnapshotRootDir (WorkDir demo_config) sid" and meta: "meta = userSnapshotMetaPath (WorkDir demo_config) sid"
    and tmp: "tmp = meta @ ''.tmp''" and h: "fs h = F" "clock h = t"
    and ordinary: "\<forall>p \<in> {dir, Join [dir, ''state.snap''], Join [dir, ''mem.snap''], Join [dir, ''disk.ext4''], meta, tmp}.
      \<not> below ''/proc'' p \<and> \<not> below ''/sys'' p"
    and mk: "fs_step OpMkdirAll dir [] F = (Inr FUnit, A)"
    and rm: "\<forall>p \<in> {Join [dir, ''state.snap''], Join [dir, ''mem.snap''], Join [dir, ''disk.ext4'']}. fs_get A p = None"
    and wr: "fs_step OpWriteFile tmp (text_of sid t) A = (Inr FUnit, B)"
    and mv: "fs_step OpRename tmp meta B = (Inr FUnit, C)"
  shows "\<exists>h'. run_state (take_snapshot calm_env demo_config demo_vm sid []) h = (Inr (taken sid t), h') \<and>
    fs h' = C \<and> clock h' = t"
proof -
  have rms: "fs_step OpRemove p [] A = (Inl (PathError ''remove'' p ENOENT), A)" if "fs_get A p = None" for p
    using that by (simp add: fail_def)
  show ?thesis
    unfolding take_snapshot_def snapshot_paused_def pauseVM_def resumeVM_def createFullSnapshot_def writeUserSnapshotMeta_def write_meta_def
      os_MkdirAll_def os_Remove_def os_WriteFile_def os_Rename_def Let_def
    using ordinary rm
    by (simp del: fs_step.simps add: dir [symmetric] meta [symmetric] tmp [symmetric] h calm_sys calm_calls mk rms wr mv err_of_def taken_def text_of_def
        wr [unfolded text_of_def taken_def Let_def, folded dir])
qed

section \<open>Two snapshots and a listing\<close>

definition snap_host :: "int \<Rightarrow> unit host" where
  "snap_host t = (blank_host ())\<lparr>clock := t, fs := [(''/w'', Dir), (''/w/user-snapshots'', Dir)]\<rparr>"

definition two_snapshots :: "int \<Rightarrow> (unit host, userSnapshotMeta res \<times> userSnapshotMeta res \<times> userSnapshotMeta list res) state" where
  "two_snapshots pause = do {
     first \<leftarrow> take_snapshot calm_env demo_config demo_vm ''us-1'' [];
     time_Sleep calm_env pause;
     second \<leftarrow> take_snapshot calm_env demo_config demo_vm ''us-2'' [];
     listed \<leftarrow> listUserSnapshots calm_env demo_config;
     return (first, second, listed)
   }"

lemma demo_paths:
  "userSnapshotRootDir ''/w'' ''us-1'' = ''/w/user-snapshots/us-1''" "userSnapshotRootDir ''/w'' ''us-2'' = ''/w/user-snapshots/us-2''"
  "userSnapshotMetaPath ''/w'' ''us-1'' = ''/w/user-snapshots/us-1/meta.json''" "userSnapshotMetaPath ''/w'' ''us-2'' = ''/w/user-snapshots/us-2/meta.json''"
  "userSnapshotsDir ''/w'' = ''/w/user-snapshots''"
  "Join [''/w/user-snapshots/us-1'', ''state.snap''] = ''/w/user-snapshots/us-1/state.snap''"
  "Join [''/w/user-snapshots/us-1'', ''mem.snap''] = ''/w/user-snapshots/us-1/mem.snap''"
  "Join [''/w/user-snapshots/us-1'', ''disk.ext4''] = ''/w/user-snapshots/us-1/disk.ext4''"
  "Join [''/w/user-snapshots/us-2'', ''state.snap''] = ''/w/user-snapshots/us-2/state.snap''"
  "Join [''/w/user-snapshots/us-2'', ''mem.snap''] = ''/w/user-snapshots/us-2/mem.snap''"
  "Join [''/w/user-snapshots/us-2'', ''disk.ext4''] = ''/w/user-snapshots/us-2/disk.ext4''"
  by code_simp+

abbreviation files_1 :: "string \<Rightarrow> filesys" where
  "files_1 x \<equiv> [(''/w/user-snapshots/us-1/meta.json'', File x), (''/w/user-snapshots/us-1'', Dir), (''/w'', Dir), (''/w/user-snapshots'', Dir)]"

abbreviation files_2 :: "string \<Rightarrow> string \<Rightarrow> filesys" where
  "files_2 x y \<equiv> [(''/w/user-snapshots/us-2/meta.json'', File y), (''/w/user-snapshots/us-2'', Dir)] @ files_1 x"

lemma files_steps:
  "fs_step OpMkdirAll ''/w/user-snapshots/us-1'' [] [(''/w'', Dir), (''/w/user-snapshots'', Dir)] = (Inr FUnit, tl (files_1 x))"
  "fs_step OpMkdirAll ''/w/user-snapshots/us-2'' [] (files_1 x) = (Inr FUnit, tl (files_2 x y))"
  "fs_step OpWriteFile ''/w/user-snapshots/us-1/meta.json.tmp'' x (tl (files_1 x)) = (Inr FUnit, (''/w/user-snapshots/us-1/meta.json.tmp'', File x) # tl (files_1 x))"
  "fs_step OpWriteFile ''/w/user-snapshots/us-2/meta.json.tmp'' y (tl (files_2 x y)) = (Inr FUnit, (''/w/user-snapshots/us-2/meta.json.tmp'', File y) # tl (files_2 x y))"
  "fs_step OpRename ''/w/user-snapshots/us-1/meta.json.tmp'' ''/w/user-snapshots/us-1/meta.json'' ((''/w/user-snapshots/us-1/meta.json.tmp'', File x) # tl (files_1 x)) = (Inr FUnit, files_1 x)"
  "fs_step OpRename ''/w/user-snapshots/us-2/meta.json.tmp'' ''/w/user-snapshots/us-2/meta.json'' ((''/w/user-snapshots/us-2/meta.json.tmp'', File y) # tl (files_2 x y)) = (Inr FUnit, files_2 x y)"
  by code_simp+

lemma files_children: "sort_key fst (children (files_2 x y) ''/w/user-snapshots'') = [(''us-1'', Dir), (''us-2'', Dir)]"
  by code_simp


lemma stored_taken:
  assumes "sid = ''us-1'' \<or> sid = ''us-2''" "fs_get f (userSnapshotMetaPath (WorkDir demo_config) sid) = Some (File (text_of sid t))"
  shows "stored demo_config f (sid, Dir) = Some (taken sid t)"
proof -
  have pat: "snapshotIDPattern ''us-1''" "snapshotIDPattern ''us-2''" "TrimSpace ''us-1'' = ''us-1''" "TrimSpace ''us-2'' = ''us-2''"
    "ascii (BaseRootfsLineageID demo_config)" "ascii (sb_ID demo_vm)" "ascii (sb_RootfsPath demo_vm)"
    by code_simp+
  then have "ok_meta (taken sid t)"
    using assms(1) ascii_RFC3339Nano [of t]
    by (auto simp: ok_meta_def taken_def Let_def demo_work demo_paths utf8_ascii)
  from userSnapshotMeta_trip [OF this, of sid] show ?thesis
    using assms pat by (auto simp: stored_def text_of_def)
qed

lemma two_snapshots_run:
  assumes "0 \<le> pause"
  shows "fst (run_state (two_snapshots pause) (snap_host t)) = (Inr (taken ''us-1'' t), Inr (taken ''us-2'' (t + pause)),
    Inr (sort_desc um_CreatedAt [taken ''us-1'' t, taken ''us-2'' (t + pause)]))"
proof -
  let ?x = "text_of ''us-1'' t" and ?y = "text_of ''us-2'' (t + pause)"
  have "\<exists>h'. run_state (take_snapshot calm_env demo_config demo_vm ''us-1'' []) (snap_host t) = (Inr (taken ''us-1'' t), h') \<and>
      fs h' = files_1 ?x \<and> clock h' = t"
    by (rule calm_take [OF _ _ _ _ _ _ files_steps(1) [of ?x] _ files_steps(3,5)])
       (simp_all add: demo_work demo_paths snap_host_def blank_host_def below_iff fs_get_def)
  then obtain h1 where h1: "run_state (take_snapshot calm_env demo_config demo_vm ''us-1'' []) (snap_host t) = (Inr (taken ''us-1'' t), h1)"
    "fs h1 = files_1 ?x" "clock h1 = t" by blast
  let ?h = "h1\<lparr>clock := t + pause, ticks := Suc (ticks h1)\<rparr>"
  have "\<exists>h'. run_state (take_snapshot calm_env demo_config demo_vm ''us-2'' []) ?h = (Inr (taken ''us-2'' (t + pause)), h') \<and>
      fs h' = files_2 ?x ?y \<and> clock h' = t + pause"
    by (rule calm_take [OF _ _ _ _ _ _ files_steps(2) [of ?x ?y] _ files_steps(4,6)])
       (simp_all add: demo_work demo_paths h1 below_iff fs_get_def)
  then obtain h2 where h2: "run_state (take_snapshot calm_env demo_config demo_vm ''us-2'' []) ?h = (Inr (taken ''us-2'' (t + pause)), h2)"
    "fs h2 = files_2 ?x ?y" by blast
  have "stored demo_config (fs h2) (''us-1'', Dir) = Some (taken ''us-1'' t)" "stored demo_config (fs h2) (''us-2'', Dir) = Some (taken ''us-2'' (t + pause))"
    by (intro stored_taken; simp add: h2(2) demo_work demo_paths fs_get_def)+
  moreover have "sort_key fst (children (fs h2) (userSnapshotsDir (WorkDir demo_config))) = [(''us-1'', Dir), (''us-2'', Dir)]"
    unfolding h2(2) demo_work demo_paths by (rule files_children)
  moreover have "fs_get (fs h2) (userSnapshotsDir (WorkDir demo_config)) = Some Dir"
    by (simp add: h2(2) demo_work demo_paths fs_get_def)
  ultimately obtain h3 where "run_state (listUserSnapshots calm_env demo_config) h2 =
      (Inr (sort_desc um_CreatedAt [taken ''us-1'' t, taken ''us-2'' (t + pause)]), h3)"
    using listUserSnapshots_stored [of demo_config calm_env h2] golden_work calm_facts
    unfolding demo_work by (auto simp: List.map_filter_def)
  then show ?thesis
    using assms by (simp add: two_snapshots_def h1(1,3) h2(1) calm_calls)
qed

section \<open>The order of the listing\<close>

lemma append_less: "xs @ ys < xs @ zs \<longleftrightarrow> ys < (zs :: string)"
  by (induction xs) auto

lemma fraction_order:
  "RFC3339Nano 150000000 < RFC3339Nano 100000000" "RFC3339Nano 100000000 < RFC3339Nano 200000000"
proof -
  have c: "civil 0 = (1970, 1, 1)" by (simp add: civil_def Let_def)
  have d: "digit 0 = CHR ''0''" "digit (Suc 0) = CHR ''1''" "digit 2 = CHR ''2''" "digit 5 = CHR ''5''" by (code_simp, code_simp, code_simp, code_simp)
  have f: "frac_string 100000000 9 = ''.1''" "frac_string 150000000 9 = ''.15''" "frac_string 200000000 9 = ''.2''"
    by (simp_all add: frac_string_def utoa.simps d Let_def)
  show "RFC3339Nano 150000000 < RFC3339Nano 100000000" "RFC3339Nano 100000000 < RFC3339Nano 200000000"
    by (simp_all add: RFC3339Nano_def c f Let_def less_char_def append_less)
qed

text \<open>
  C39: The listing of snapshots is sorted by the creation times as text, newest first, and that is
  not the order of time: the text of a time has no trailing zeros in its fraction. Of two
  snapshots taken 0.1 and 0.2 seconds into a second the listing has the newer one first, as it
  should; of two taken 0.1 and 0.15 seconds into it, it has the older one first.
\<close>

theorem listing_not_chronological:
  "(\<exists>first second. fst (run_state (two_snapshots (100 * Millisecond)) (snap_host (100 * Millisecond))) = (Inr first, Inr second, Inr [second, first]) \<and>
     um_SnapshotID first = ''us-1'' \<and> um_SnapshotID second = ''us-2'') \<and>
   (\<exists>first second. fst (run_state (two_snapshots (50 * Millisecond)) (snap_host (100 * Millisecond))) = (Inr first, Inr second, Inr [first, second]) \<and>
     um_SnapshotID first = ''us-1'' \<and> um_SnapshotID second = ''us-2'')"
proof -
  have ms: "100 * Millisecond = 100000000" "50 * Millisecond = 50000000" by simp_all
  have key: "um_CreatedAt (taken sid t) = RFC3339Nano t" "um_SnapshotID (taken sid t) = sid" for sid t by (simp_all add: taken_def Let_def)
  have "sort_desc um_CreatedAt [taken ''us-1'' 100000000, taken ''us-2'' 150000000] = [taken ''us-1'' 100000000, taken ''us-2'' 150000000]"
    "sort_desc um_CreatedAt [taken ''us-1'' 100000000, taken ''us-2'' 200000000] = [taken ''us-2'' 200000000, taken ''us-1'' 100000000]"
    using fraction_order by (simp_all add: sort_desc_def key not_le)
  then show ?thesis
    using two_snapshots_run [of 50000000 100000000] two_snapshots_run [of 100000000 100000000] by (simp add: ms key)
qed

end
