(* ===== verification/Concurrent.thy ===== *)
theory Concurrent
  imports Sandbox
begin

text \<open>
  The handlers interleaved: Go runs each request on its own goroutine, and they meet in the map of
  the server (under \<open>s.mu\<close>) and in the state and the exec count of a sandbox (under its
  \<open>lifecycleMu\<close>). A step is one critical section, or one piece of work that is done outside of
  them; the methods of the lifecycle are those of theory Lifecycle.
\<close>

section \<open>Threads and their steps\<close>

text \<open>
  Where a thread is: between requests; registering the sandbox it created; in an exec, before and
  after \<open>tryStartExec\<close>; in a destroy, before \<open>beginDestroy\<close>, waiting for execs, cleaning up and
  before \<open>finishDestroy\<close>; in \<open>destroyAll\<close>, with the sandboxes it has still to destroy, at the same
  three points.
\<close>

datatype pc =
    Idle | Registering nat
  | ExecLooked nat | ExecRunning nat
  | DestroyLooked nat | Draining nat | Cleaning nat | Cleaned nat
  | Sweep "nat list" | SweepDraining nat "nat list" | SweepCleaning nat "nat list" | SweepCleaned nat "nat list"

record cstate =
  c_map :: "(string \<times> nat) list"
  c_heap :: "sandbox list"
  c_pcs :: "pc list"

text \<open>Steps of handlers, the 2-second limit of a drain, and steps of the shutdown.\<close>

datatype event = Handler | Timeout | Shutdown

definition goto :: "nat \<Rightarrow> pc \<Rightarrow> cstate \<Rightarrow> cstate" where
  "goto i p s = s\<lparr>c_pcs := (c_pcs s)[i := p]\<rparr>"

definition put :: "nat \<Rightarrow> sandbox \<Rightarrow> cstate \<Rightarrow> cstate" where
  "put a sb s = s\<lparr>c_heap := (c_heap s)[a := sb]\<rparr>"

definition wiped :: "sandbox \<Rightarrow> sandbox" where
  "wiped sb = sb\<lparr>sb_Agent := None, sb_Netns := None\<rparr>"

definition at :: "nat \<Rightarrow> pc \<Rightarrow> cstate \<Rightarrow> bool" where
  "at i p s \<longleftrightarrow> i < length (c_pcs s) \<and> c_pcs s ! i = p"

inductive cstep :: "event \<Rightarrow> cstate \<Rightarrow> cstate \<Rightarrow> bool" where
  create: "at i Idle s \<Longrightarrow> sb_state sb = sandboxStateRunning \<Longrightarrow> sb_inFlightExec sb = 0 \<Longrightarrow>
    cstep Handler s (goto i (Registering (length (c_heap s))) (s\<lparr>c_heap := c_heap s @ [sb]\<rparr>))"
| register: "at i (Registering a) s \<Longrightarrow>
    cstep Handler s (goto i Idle (s\<lparr>c_map := AList.update (sb_ID (c_heap s ! a)) a (c_map s)\<rparr>))"
| exec_lookup: "at i Idle s \<Longrightarrow> map_of (c_map s) k = Some a \<Longrightarrow> cstep Handler s (goto i (ExecLooked a) s)"
| exec_start: "at i (ExecLooked a) s \<Longrightarrow> tryStartExec (c_heap s ! a) = (None, sb) \<Longrightarrow>
    cstep Handler s (goto i (ExecRunning a) (put a sb s))"
| exec_conflict: "at i (ExecLooked a) s \<Longrightarrow> tryStartExec (c_heap s ! a) = (Some e, sb) \<Longrightarrow>
    cstep Handler s (goto i Idle (put a sb s))"
| exec_finish: "at i (ExecRunning a) s \<Longrightarrow> cstep Handler s (goto i Idle (put a (finishExec (c_heap s ! a)) s))"
| destroy_lookup: "at i Idle s \<Longrightarrow> map_of (c_map s) k = Some a \<Longrightarrow>
    cstep Handler s (goto i (DestroyLooked a) (s\<lparr>c_map := AList.delete k (c_map s)\<rparr>))"
| destroy_begin: "at i (DestroyLooked a) s \<Longrightarrow> beginDestroy (c_heap s ! a) = (True, sb) \<Longrightarrow>
    cstep Handler s (goto i (Draining a) (put a sb s))"
| destroy_conflict: "at i (DestroyLooked a) s \<Longrightarrow> beginDestroy (c_heap s ! a) = (False, sb) \<Longrightarrow>
    cstep Handler s (goto i Idle (put a sb s))"
| drained: "at i (Draining a) s \<Longrightarrow> currentInFlightExec (c_heap s ! a) = 0 \<Longrightarrow> cstep Handler s (goto i (Cleaning a) s)"
| drain_timeout: "at i (Draining a) s \<Longrightarrow> cstep Timeout s (goto i (Cleaning a) s)"
| clean: "at i (Cleaning a) s \<Longrightarrow> cstep Handler s (goto i (Cleaned a) (put a (wiped (c_heap s ! a)) s))"
| destroy_finish: "at i (Cleaned a) s \<Longrightarrow> cstep Handler s (goto i Idle (put a (finishDestroy (c_heap s ! a)) s))"
| sweep: "at i Idle s \<Longrightarrow> cstep Shutdown s (goto i (Sweep (map snd (c_map s))) (s\<lparr>c_map := []\<rparr>))"
| sweep_done: "at i (Sweep []) s \<Longrightarrow> cstep Shutdown s (goto i Idle s)"
| sweep_begin: "at i (Sweep (a # as)) s \<Longrightarrow> beginDestroy (c_heap s ! a) = (True, sb) \<Longrightarrow>
    cstep Shutdown s (goto i (SweepDraining a as) (put a sb s))"
| sweep_closing: "at i (Sweep (a # as)) s \<Longrightarrow> beginDestroy (c_heap s ! a) = (False, sb) \<Longrightarrow>
    cstep Shutdown s (goto i (SweepCleaning a as) (put a sb s))"
| sweep_drained: "at i (SweepDraining a as) s \<Longrightarrow> currentInFlightExec (c_heap s ! a) = 0 \<Longrightarrow>
    cstep Shutdown s (goto i (SweepCleaning a as) s)"
| sweep_timeout: "at i (SweepDraining a as) s \<Longrightarrow> cstep Timeout s (goto i (SweepCleaning a as) s)"
| sweep_clean: "at i (SweepCleaning a as) s \<Longrightarrow> cstep Shutdown s (goto i (SweepCleaned a as) (put a (wiped (c_heap s ! a)) s))"
| sweep_finish: "at i (SweepCleaned a as) s \<Longrightarrow> cstep Shutdown s (goto i (Sweep as) (put a (finishDestroy (c_heap s ! a)) s))"

inductive_cases cstepE: "cstep e s t"

definition cstart :: "nat \<Rightarrow> cstate" where
  "cstart n = \<lparr>c_map = [], c_heap = [], c_pcs = replicate n Idle\<rparr>"

text \<open>What can be reached with some events only.\<close>

inductive reach :: "event set \<Rightarrow> cstate \<Rightarrow> cstate \<Rightarrow> bool" for A where
  here: "reach A s s"
| more: "reach A s t \<Longrightarrow> e \<in> A \<Longrightarrow> cstep e t u \<Longrightarrow> reach A s u"


section \<open>The invariant\<close>

text \<open>The sandboxes a thread has a pointer to, the exec it counts for, and the one it tears down.\<close>

fun targets :: "pc \<Rightarrow> nat list" where
  "targets Idle = []"
| "targets (Registering a) = [a]"
| "targets (ExecLooked a) = [a]"
| "targets (ExecRunning a) = [a]"
| "targets (DestroyLooked a) = [a]"
| "targets (Draining a) = [a]"
| "targets (Cleaning a) = [a]"
| "targets (Cleaned a) = [a]"
| "targets (Sweep as) = as"
| "targets (SweepDraining a as) = a # as"
| "targets (SweepCleaning a as) = a # as"
| "targets (SweepCleaned a as) = a # as"

text \<open>
  The sandboxes a thread is going to tear down, and the one it is tearing down. A sandbox in the
  map is there to be found by whoever will tear it down.
\<close>

fun waits :: "pc \<Rightarrow> nat list" where
  "waits (Registering a) = [a]"
| "waits (DestroyLooked a) = [a]"
| "waits (Sweep as) = as"
| "waits (SweepDraining _ as) = as"
| "waits (SweepCleaning _ as) = as"
| "waits (SweepCleaned _ as) = as"
| "waits _ = []"

fun tears :: "pc \<Rightarrow> nat list" where
  "tears (Draining a) = [a]"
| "tears (Cleaning a) = [a]"
| "tears (Cleaned a) = [a]"
| "tears (SweepDraining a _) = [a]"
| "tears (SweepCleaning a _) = [a]"
| "tears (SweepCleaned a _) = [a]"
| "tears _ = []"

definition total :: "(pc \<Rightarrow> nat) \<Rightarrow> cstate \<Rightarrow> nat" where
  "total f s = sum_list (map f (c_pcs s))"

definition execs :: "nat \<Rightarrow> cstate \<Rightarrow> nat" where
  "execs a = total (\<lambda>p. of_bool (p = ExecRunning a))"

definition teardowns :: "nat \<Rightarrow> cstate \<Rightarrow> nat" where
  "teardowns a = total (\<lambda>p. count_list (tears p) a)"

definition waiting :: "nat \<Rightarrow> cstate \<Rightarrow> nat" where
  "waiting a s = count_list (map snd (c_map s)) a + total (\<lambda>p. count_list (waits p) a) s"

lemma total_goto:
  assumes "at i p s"
  shows "total f (goto i q s) + f p = total f s + f q"
proof -
  have i: "i < length (c_pcs s)" "c_pcs s ! i = p" using assms by (simp_all add: at_def)
  have "sum_list (map f (c_pcs s)) = sum_list (map f (take i (c_pcs s))) + f p + sum_list (map f (drop (Suc i) (c_pcs s)))"
    by (subst id_take_nth_drop [OF i(1)]) (simp add: i(2))
  then show ?thesis
    using i by (simp add: total_def goto_def upd_conv_take_nth_drop)
qed

lemma total_ge: "at i p s \<Longrightarrow> f p \<le> total f s"
  by (auto simp: total_def at_def intro!: member_le_sum_list)

lemma total_put [simp]: "total f (put a sb s) = total f s" "total f (s\<lparr>c_heap := h\<rparr>) = total f s" "total f (s\<lparr>c_map := m\<rparr>) = total f s"
  by (simp_all add: total_def put_def)

text \<open>How a step changes the three numbers.\<close>

lemma goto_numbers [simp]:
  assumes "at i p s"
  shows "execs a (goto i q s) = execs a s + of_bool (q = ExecRunning a) - of_bool (p = ExecRunning a)"
    "teardowns a (goto i q s) = teardowns a s + count_list (tears q) a - count_list (tears p) a"
    "waiting a (goto i q s) = waiting a s + count_list (waits q) a - count_list (waits p) a"
  using total_goto [OF assms, of "\<lambda>p. of_bool (p = ExecRunning a)" q] total_goto [OF assms, of "\<lambda>p. count_list (tears p) a" q]
    total_goto [OF assms, of "\<lambda>p. count_list (waits p) a" q]
  by (simp_all add: execs_def teardowns_def waiting_def goto_def)

lemma at_numbers:
  assumes "at i p s"
  shows "count_list (tears p) a \<le> teardowns a s" "count_list (waits p) a \<le> waiting a s"
  using total_ge [OF assms, of "\<lambda>p. count_list (tears p) a"] total_ge [OF assms, of "\<lambda>p. count_list (waits p) a"]
  by (simp_all add: teardowns_def waiting_def)

lemma put_numbers [simp]:
  "execs a (put b sb s) = execs a s" "teardowns a (put b sb s) = teardowns a s" "waiting a (put b sb s) = waiting a s"
  "execs a (s\<lparr>c_heap := h\<rparr>) = execs a s" "teardowns a (s\<lparr>c_heap := h\<rparr>) = teardowns a s" "waiting a (s\<lparr>c_heap := h\<rparr>) = waiting a s"
  "execs a (s\<lparr>c_map := m\<rparr>) = execs a s" "teardowns a (s\<lparr>c_map := m\<rparr>) = teardowns a s"
  by (simp_all add: execs_def teardowns_def waiting_def put_def)

lemma at_put [simp]: "at i p (put a sb s) = at i p s" "at i p (s\<lparr>c_heap := h\<rparr>) = at i p s" "at i p (s\<lparr>c_map := m\<rparr>) = at i p s"
  by (simp_all add: at_def put_def)

lemma heap_simps [simp]:
  "c_heap (goto i p s) = c_heap s" "c_heap (put a sb s) = (c_heap s)[a := sb]" "c_map (goto i p s) = c_map s" "c_map (put a sb s) = c_map s"
  by (simp_all add: goto_def put_def)

lemma count_delete:
  "map_of m k = Some a \<Longrightarrow> count_list (map snd (AList.delete k m)) b + of_bool (b = a) \<le> count_list (map snd m) b"
proof (induction m)
  case (Cons e m)
  have "count_list (map snd (AList.delete k m)) b \<le> count_list (map snd m) b"
    by (induction m) (auto simp: AList.delete_eq)
  with Cons show ?case by (auto simp: AList.delete_eq split: if_splits)
qed simp

lemma count_update: "count_list (map snd (AList.update k v m)) b \<le> count_list (map snd m) b + of_bool (b = v)"
  by (induction m) auto

lemma waiting_map:
  "map_of (c_map s) k = Some a \<Longrightarrow> waiting b (s\<lparr>c_map := AList.delete k (c_map s)\<rparr>) + of_bool (b = a) \<le> waiting b s"
  "waiting b (s\<lparr>c_map := AList.update k v (c_map s)\<rparr>) \<le> waiting b s + of_bool (b = v)"
  "waiting b (s\<lparr>c_map := []\<rparr>) + count_list (map snd (c_map s)) b = waiting b s"
  using count_delete [of "c_map s" k a b] count_update [of k v "c_map s" b] by (auto simp: waiting_def)

text \<open>Every pointer is to a sandbox.\<close>

definition in_bounds :: "cstate \<Rightarrow> bool" where
  "in_bounds s \<longleftrightarrow> (\<forall>p \<in> set (c_pcs s). \<forall>a \<in> set (targets p). a < length (c_heap s)) \<and>
     (\<forall>a \<in> snd ` set (c_map s). a < length (c_heap s))"

lemma in_boundsD: "in_bounds s \<Longrightarrow> at i p s \<Longrightarrow> a \<in> set (targets p) \<Longrightarrow> a < length (c_heap s)"
  by (auto simp: in_bounds_def at_def)

lemma in_bounds_map: "in_bounds s \<Longrightarrow> map_of (c_map s) k = Some a \<Longrightarrow> a < length (c_heap s)"
  by (force simp: in_bounds_def dest: map_of_SomeD)

lemma in_bounds_goto:
  assumes "in_bounds s" "length (c_heap s) \<le> length (c_heap t)" "c_pcs t = c_pcs s"
    "\<And>a. a \<in> set (targets p) \<Longrightarrow> a < length (c_heap t)" "\<And>a. a \<in> snd ` set (c_map t) \<Longrightarrow> a < length (c_heap t)"
  shows "in_bounds (goto i p t)"
  unfolding in_bounds_def
proof
  show "\<forall>q \<in> set (c_pcs (goto i p t)). \<forall>a \<in> set (targets q). a < length (c_heap (goto i p t))"
    using assms by (fastforce simp: in_bounds_def goto_def dest!: set_update_subset_insert [THEN subsetD])
qed (use assms(5) in auto)

lemma alist_update_subset: "set (AList.update k v xs) \<subseteq> insert (k, v) (set xs)"
  by (induction xs) auto

lemma nth_list_update_at: "b < length xs \<Longrightarrow> xs[a := v] ! b = (if a = b then v else xs ! b)"
  by (simp add: nth_list_update)

lemma in_bounds_step:
  assumes "cstep e s t" "in_bounds s"
  shows "in_bounds t"
  using assms(1)
proof cases
  case (create i sb)
  then show ?thesis
    using assms(2) by (auto intro!: in_bounds_goto [OF assms(2)] simp: in_bounds_def [of s] less_Suc_eq dest: bspec)
next
  case (register i a)
  then show ?thesis
    using assms(2) in_boundsD [OF assms(2) register(3)]
    by (auto intro!: in_bounds_goto [OF assms(2)] simp: in_bounds_def [of s] dest!: alist_update_subset [THEN subsetD] dest: bspec)
next
  case (destroy_lookup i k a)
  then show ?thesis
    using assms(2) in_bounds_map [OF assms(2) destroy_lookup(4)]
    by (auto intro!: in_bounds_goto [OF assms(2)] simp: in_bounds_def [of s] AList.delete_eq dest: bspec)
next
  case (exec_lookup i k a)
  then show ?thesis
    using assms(2) in_bounds_map [OF assms(2) exec_lookup(4)]
    by (auto intro!: in_bounds_goto [OF assms(2)] simp: in_bounds_def [of s] dest: bspec)
next
  case (sweep i)
  then show ?thesis
    using assms(2) by (auto intro!: in_bounds_goto [OF assms(2)] simp: in_bounds_def [of s] dest: bspec)
qed (use assms(2) in \<open>auto intro!: in_bounds_goto [OF assms(2)] dest: in_boundsD [OF assms(2)] bspec simp: put_def in_bounds_def [of s]\<close>)

lemma total_unborn:
  assumes "in_bounds s" "\<And>p. f p \<noteq> 0 \<Longrightarrow> length (c_heap s) \<in> set (targets p)"
  shows "total f s = 0"
  using assms by (fastforce simp: total_def in_bounds_def)

lemma unborn:
  assumes "in_bounds s"
  shows "execs (length (c_heap s)) s = 0" "teardowns (length (c_heap s)) s = 0" "waiting (length (c_heap s)) s = 0"
proof -
  have "length (c_heap s) \<in> set (targets p)" if "count_list (tears p) (length (c_heap s)) \<noteq> 0 \<or> count_list (waits p) (length (c_heap s)) \<noteq> 0" for p
    using that by (cases p) (auto simp: count_list_0_iff split: if_splits)
  then have "total (\<lambda>p. count_list (tears p) (length (c_heap s))) s = 0" "total (\<lambda>p. count_list (waits p) (length (c_heap s))) s = 0"
    by (blast intro: total_unborn [OF assms])+
  moreover have "count_list (map snd (c_map s)) (length (c_heap s)) = 0"
    using assms by (auto simp: count_list_0_iff in_bounds_def)
  moreover have "total (\<lambda>p. of_bool (p = ExecRunning (length (c_heap s)))) s = 0"
    by (rule total_unborn [OF assms]) auto
  ultimately show "execs (length (c_heap s)) s = 0" "teardowns (length (c_heap s)) s = 0" "waiting (length (c_heap s)) s = 0"
    by (simp_all add: execs_def teardowns_def waiting_def)
qed

text \<open>
  The invariant of one sandbox: its count is the number of running execs; while it is running at
  most one party is going to tear it down and none is at it; while it is closing exactly one is;
  once it is closed nobody is.
\<close>

definition fine :: "sandbox \<Rightarrow> nat \<Rightarrow> nat \<Rightarrow> nat \<Rightarrow> bool" where
  "fine sb x w t \<longleftrightarrow> sb_inFlightExec sb = int x \<and>
     (case sb_state sb of
        sandboxStateRunning \<Rightarrow> w \<le> 1 \<and> t = 0
      | sandboxStateClosing \<Rightarrow> w = 0 \<and> t = 1
      | sandboxStateClosed \<Rightarrow> w = 0 \<and> t = 0)"

definition cinv :: "cstate \<Rightarrow> bool" where
  "cinv s \<longleftrightarrow> in_bounds s \<and> (\<forall>a < length (c_heap s). fine (c_heap s ! a) (execs a s) (waiting a s) (teardowns a s))"


lemma fine_step:
  assumes "cstep e s t" "cinv s" "b < length (c_heap t)"
  shows "fine (c_heap t ! b) (execs b t) (waiting b t) (teardowns b t)"
proof -
  have b: "fine (c_heap s ! a) (execs a s) (waiting a s) (teardowns a s)" if "a < length (c_heap s)" for a
    using assms(2) that by (simp add: cinv_def)
  have bounds: "in_bounds s" using assms(2) by (simp add: cinv_def)
  show ?thesis
    using assms(1)
  proof cases
    case (create i sb)
    then show ?thesis
      using b [of b] unborn [OF bounds] assms(3) by (auto simp: fine_def less_Suc_eq nth_append split: sandboxState.splits)
  next
    case (register i a)
    then show ?thesis
      using b [of b] assms(3) waiting_map(2) [where b = b and s = s and k = "sb_ID (c_heap s ! a)" and v = a]
      by (auto simp: fine_def split: sandboxState.splits)
  next
    case (destroy_lookup i k a)
    then show ?thesis
      using b [of b] assms(3) waiting_map(1) [where s = s and k = k and a = a and b = b] by (auto simp: fine_def split: sandboxState.splits)
  next
    case (sweep i)
    then show ?thesis
      using b [of b] assms(3) waiting_map(3) [where b = b and s = s] by (auto simp: fine_def split: sandboxState.splits)
  next
    case (destroy_finish i a)
    then show ?thesis
      using b [of b] assms(3) at_numbers [of i "Cleaned a" s b] by (auto simp: fine_def nth_list_update_at finishDestroy_def split: sandboxState.splits)
  next
    case (sweep_finish i a as)
    then show ?thesis
      using b [of b] assms(3) at_numbers [of i "SweepCleaned a as" s b] by (auto simp: fine_def nth_list_update_at finishDestroy_def split: sandboxState.splits)
  next
    case (sweep_closing i a as sb)
    then show ?thesis
      using b [of b] assms(3) at_numbers [of i "Sweep (a # as)" s b] by (auto simp: fine_def nth_list_update_at beginDestroy_def split: sandboxState.splits if_splits)
  qed (use b [of b] assms(3) in \<open>auto simp: fine_def nth_list_update_at tryStartExec_def finishExec_def beginDestroy_def wiped_def split: sandboxState.splits if_splits\<close>)
qed


lemma cinv_step: "cstep e s t \<Longrightarrow> cinv s \<Longrightarrow> cinv t"
  using in_bounds_step fine_step by (auto simp: cinv_def)

lemma cinvD: "cinv s \<Longrightarrow> a < length (c_heap s) \<Longrightarrow> fine (c_heap s ! a) (execs a s) (waiting a s) (teardowns a s)"
  by (simp add: cinv_def)

lemma cinv_start: "cinv (cstart n)"
  by (simp add: cinv_def cstart_def in_bounds_def)

lemma reach_keeps_cinv: "reach A s t \<Longrightarrow> cinv s \<Longrightarrow> cinv t"
  by (induction rule: reach.induct) (auto intro: cinv_step)

lemmas reach_cinv = reach_keeps_cinv [OF _ cinv_start]


text \<open>Without the time limit of a drain, nothing runs in a sandbox that is being cleaned up.\<close>

fun cleans :: "pc \<Rightarrow> nat list" where
  "cleans (Cleaning a) = [a]"
| "cleans (Cleaned a) = [a]"
| "cleans (SweepCleaning a _) = [a]"
| "cleans (SweepCleaned a _) = [a]"
| "cleans _ = []"

definition quiet :: "cstate \<Rightarrow> bool" where
  "quiet s \<longleftrightarrow> (\<forall>i p a. at i p s \<longrightarrow> a \<in> set (cleans p) \<longrightarrow> execs a s = 0)"

lemma at_goto: "at j p (goto i q s) \<Longrightarrow> j = i \<and> p = q \<or> j \<noteq> i \<and> at j p s"
  by (auto simp: at_def goto_def nth_list_update_at split: if_splits)

lemma quiet_goto:
  assumes "quiet s" "\<And>a. a \<in> set (cleans q) \<Longrightarrow> execs a (goto i q t) = 0" "c_pcs t = c_pcs s"
    "\<And>j p a. at j p s \<Longrightarrow> a \<in> set (cleans p) \<Longrightarrow> execs a s = 0 \<Longrightarrow> execs a (goto i q t) = 0"
  shows "quiet (goto i q t)"
  unfolding quiet_def
proof (intro allI impI)
  fix j p a
  assume j: "at j p (goto i q t)" "a \<in> set (cleans p)"
  from at_goto [OF j(1)] show "execs a (goto i q t) = 0"
  proof
    assume "j \<noteq> i \<and> at j p t"
    then have "at j p s" using assms(3) by (simp add: at_def)
    with assms(1,4) j(2) show ?thesis by (auto simp: quiet_def)
  qed (use assms(2) j(2) in auto)
qed

lemma cleans_closing:
  assumes "cinv s" "at i p s" "a \<in> set (cleans p)"
  shows "sb_state (c_heap s ! a) = sandboxStateClosing"
proof -
  have "a \<in> set (targets p)" "0 < count_list (tears p) a" using assms(3) by (cases p; simp)+
  then have "a < length (c_heap s)" "0 < teardowns a s"
    using assms(1) in_boundsD [OF _ assms(2)] at_numbers(1) [OF assms(2), of a] by (auto simp: cinv_def)
  with cinvD [OF assms(1), of a] show ?thesis by (auto simp: fine_def split: sandboxState.splits)
qed

lemma wins:
  assumes "cinv s" "at i p s" "0 < count_list (waits p) a"
  shows "sb_state (c_heap s ! a) = sandboxStateRunning"
proof -
  have "a \<in> set (waits p)" using assms(3) by (metis count_list_0_iff less_irrefl)
  then have "a \<in> set (targets p)" by (cases p) auto
  then have "a < length (c_heap s)" "0 < waiting a s"
    using assms(1,3) in_boundsD [OF _ assms(2)] at_numbers(2) [OF assms(2), of a] by (auto simp: cinv_def)
  with cinvD [OF assms(1), of a] show ?thesis by (auto simp: fine_def split: sandboxState.splits)
qed

lemma quiet_step:
  assumes "cstep e s t" "quiet s" "cinv s" "e \<noteq> Timeout"
  shows "quiet t"
proof -
  have idle: "execs a s = 0" if "currentInFlightExec (c_heap s ! a) = 0" "at i p s" "a \<in> set (targets p)" for a i p
    using that cinvD [OF assms(3)] in_boundsD [OF _ that(2,3)] assms(3) by (auto simp: fine_def currentInFlightExec_def cinv_def [of s])
  show ?thesis
    using assms(1)
  proof cases
    case (exec_start i a sb)
    then have "sb_state (c_heap s ! a) = sandboxStateRunning" by (simp add: tryStartExec_def split: if_splits)
    then have "a \<notin> set (cleans p)" if "at j p s" for j p
      using cleans_closing [OF assms(3) that, of a] by auto
    with exec_start show ?thesis
      by (auto intro!: quiet_goto [OF assms(2)] simp: put_def)
  next
    case (sweep_closing i a as sb)
    then show ?thesis using wins [OF assms(3) sweep_closing(3), of a] by (auto simp: beginDestroy_def split: if_splits)
  next
    case (drained i a)
    then show ?thesis using idle [OF drained(4,3)] by (auto intro!: quiet_goto [OF assms(2)])
  next
    case (sweep_drained i a as)
    then show ?thesis using idle [OF sweep_drained(4,3)] by (auto intro!: quiet_goto [OF assms(2)])
  qed (use assms(2,4) in \<open>auto intro!: quiet_goto [OF assms(2)] simp: put_def quiet_def [of s]\<close>)
qed

section \<open>Properties\<close>

text \<open>
  C6: However the requests interleave, and also during a shutdown, the exec count of a sandbox is
  exactly the number of execs that are running on it: every exec that was let in is counted once,
  and discounted once when it ends.
\<close>

theorem inFlightExec_exact:
  assumes "reach A (cstart n) s" "a < length (c_heap s)"
  shows "sb_inFlightExec (c_heap s ! a) = int (execs a s)"
  using reach_cinv [OF assms(1)] assms(2) by (simp add: cinv_def fine_def)

text \<open>
  C7: However requests and a shutdown interleave, at most one thread tears a sandbox down; while
  it does, execs on it are refused. A thread that has taken a sandbox out of the map to destroy it
  always wins: \<open>beginDestroy\<close> never refuses it.
\<close>

theorem teardown_exclusive:
  assumes "reach A (cstart n) s" "a < length (c_heap s)"
  shows "teardowns a s \<le> 1 \<and> (teardowns a s = 1 \<longrightarrow> (\<exists>e sb. tryStartExec (c_heap s ! a) = (Some e, sb))) \<and>
    (\<forall>i as. at i (DestroyLooked a) s \<or> at i (Sweep (a # as)) s \<longrightarrow> fst (beginDestroy (c_heap s ! a)))"
proof -
  have f: "fine (c_heap s ! a) (execs a s) (waiting a s) (teardowns a s)"
    using reach_cinv [OF assms(1)] assms(2) by (simp add: cinv_def)
  have "fst (beginDestroy (c_heap s ! a))" if "at i (DestroyLooked a) s \<or> at i (Sweep (a # as)) s" for i as
  proof -
    have "0 < waiting a s" using that at_numbers(2) [of i _ s a] by force
    with f show ?thesis by (auto simp: fine_def beginDestroy_def split: sandboxState.splits)
  qed
  with f show ?thesis by (auto simp: fine_def tryStartExec_def split: sandboxState.splits)
qed



lemma reach_quiet: "reach A s t \<Longrightarrow> Timeout \<notin> A \<Longrightarrow> cinv s \<Longrightarrow> quiet s \<Longrightarrow> quiet t"
proof (induction rule: reach.induct)
  case (more s t e u)
  then show ?case using quiet_step [of e t u] reach_keeps_cinv [of A s t] by auto
qed simp

text \<open>
  C8: As long as no drain runs into its time limit, no exec is running in a sandbox while its
  process, namespace and directory are taken away.
\<close>

theorem no_exec_during_cleanup:
  assumes "reach A (cstart n) s" "Timeout \<notin> A" "at i p s" "a \<in> set (cleans p)"
  shows "execs a s = 0"
proof -
  have "quiet (cstart n)" by (auto simp: quiet_def cstart_def at_def)
  from reach_quiet [OF assms(1,2) cinv_start this] assms(3,4) show ?thesis by (auto simp: quiet_def)
qed

text \<open>A run of two threads: one creates a sandbox and runs an exec, the other destroys it.\<close>

definition demo_sb :: sandbox where
  "demo_sb = new_sandbox ''sb-1'' (stale_entry 1) 1001 ''/w/sandboxes/sb-1'' ([], [], []) [] [] [] 100 7"

definition demo_busy :: cstate where
  "demo_busy = \<lparr>c_map = [(''sb-1'', 0)], c_heap = [snd (tryStartExec demo_sb)], c_pcs = [ExecRunning 0, Idle]\<rparr>"

definition demo_cleaning :: cstate where
  "demo_cleaning = \<lparr>c_map = [], c_heap = [snd (beginDestroy demo_sb)], c_pcs = [Idle, Cleaning 0]\<rparr>"

lemma demo_registered: "reach {Handler} (cstart 2) \<lparr>c_map = [(''sb-1'', 0)], c_heap = [demo_sb], c_pcs = [Idle, Idle]\<rparr>"
proof -
  have "reach {Handler} (cstart 2) (goto 0 (Registering 0) ((cstart 2)\<lparr>c_heap := [demo_sb]\<rparr>))"
    using reach.more [OF reach.here _ cstep.create [of 0 "cstart 2" demo_sb]]
    by (simp add: at_def cstart_def demo_sb_def new_sandbox_def)
  from reach.more [OF this _ cstep.register [of 0 0]] show ?thesis
    by (simp add: at_def goto_def cstart_def demo_sb_def new_sandbox_def numeral_2_eq_2)
qed

lemma demo_reaches: "reach {Handler} (cstart 2) demo_busy" "reach {Handler} (cstart 2) demo_cleaning"
proof -
  let ?s = "\<lambda>m sb p q. \<lparr>c_map = m, c_heap = [sb], c_pcs = [p, q]\<rparr>"
  let ?m = "[(''sb-1'', 0)]"
  note sb = demo_sb_def new_sandbox_def
  have "reach {Handler} (cstart 2) (?s ?m demo_sb (ExecLooked 0) Idle)"
    using reach.more [OF demo_registered _ cstep.exec_lookup [of 0 _ "''sb-1''" 0]] by (simp add: at_def goto_def)
  from reach.more [OF this _ cstep.exec_start [of 0 0 _ "snd (tryStartExec demo_sb)"]]
  show "reach {Handler} (cstart 2) demo_busy"
    by (simp add: at_def goto_def put_def demo_busy_def) (simp add: tryStartExec_def sb)
  have "reach {Handler} (cstart 2) (?s [] demo_sb Idle (DestroyLooked 0))"
    using reach.more [OF demo_registered _ cstep.destroy_lookup [of 1 _ "''sb-1''" 0]] by (simp add: at_def goto_def)
  from reach.more [OF this _ cstep.destroy_begin [of 1 0 _ "snd (beginDestroy demo_sb)"]]
  have "reach {Handler} (cstart 2) (?s [] (snd (beginDestroy demo_sb)) Idle (Draining 0))"
    by (simp add: at_def goto_def put_def) (simp add: beginDestroy_def sb)
  from reach.more [OF this _ cstep.drained [of 1 0]] show "reach {Handler} (cstart 2) demo_cleaning"
    by (simp add: at_def goto_def demo_cleaning_def) (simp add: currentInFlightExec_def beginDestroy_def sb)
qed

theorem inFlightExec_exact_witness: "sb_inFlightExec (c_heap demo_busy ! 0) = int (execs 0 demo_busy) \<and> execs 0 demo_busy = 1"
  using inFlightExec_exact [OF demo_reaches(1), of 0]
  by (simp add: demo_busy_def execs_def total_def)

theorem teardown_exclusive_witness: "teardowns 0 demo_cleaning = 1 \<and> fst (tryStartExec (c_heap demo_cleaning ! 0)) \<noteq> None"
proof -
  have "teardowns 0 demo_cleaning = 1" "0 < length (c_heap demo_cleaning)"
    by (simp_all add: demo_cleaning_def teardowns_def total_def)
  with teardown_exclusive [OF demo_reaches(2) this(2)] show ?thesis by auto
qed

theorem no_exec_during_cleanup_witness: "execs 0 demo_cleaning = 0"
  by (rule no_exec_during_cleanup [OF demo_reaches(2), of 1 "Cleaning 0"]) (simp_all add: at_def demo_cleaning_def)

end
