(* ===== verification/Processes.thy ===== *)
theory Processes
  imports Server_Invariant
begin

text \<open>
  The processes the server starts: which operations on the host cannot leave a new one running.
  That is all of them apart from the three places that start a VM (booting or restoring a sandbox,
  building the golden snapshot), which theory Vm_Ownership follows.
\<close>

section \<open>Operations that start nothing\<close>

definition running :: "'x host \<Rightarrow> nat set" where
  "running h = {pid. map_of (procs h) pid = Some Running}"

definition tamed :: "'x host \<Rightarrow> 'x host \<Rightarrow> bool" where
  "tamed h h' \<longleftrightarrow> running h' \<subseteq> running h"

interpretation tamed: preorder_rel tamed
  by unfold_locales (auto simp: tamed_def)

named_theorems tames \<open>operations that leave no new process running\<close>

lemma tamed_host [tames]:
  "keeps tamed (tick E)" "keeps tamed (time_Now E)" "keeps tamed (time_Sleep E d)" "keeps tamed (outside c)"
  "keeps tamed (outside_fs d')"
  by (auto simp: tamed_def running_def tick_def time_Now_def time_Sleep_def outside_def outside_fs_def
      intro!: keepsI split: prod.splits)

lemma tamed_set_proc [tames]: "st \<noteq> Running \<Longrightarrow> keeps tamed (set_proc pid st)"
  by (rule keepsI) (auto simp: set_proc_def tamed_def running_def update_conv' split: if_splits)

lemma tamed_sys_fs [tames]: "keeps tamed (sys_fs E op p d)"
  unfolding sys_fs_def
  by (intro tamed.keeps_rules tames keepsI)
     (auto simp: tamed_def running_def split: option.splits if_splits prod.splits)

lemma tamed_os [tames]:
  "keeps tamed (os_Stat E p)" "keeps tamed (os_Mkdir E p)" "keeps tamed (os_MkdirAll E p)"
  "keeps tamed (os_Remove E p)" "keeps tamed (os_RemoveAll E p)" "keeps tamed (os_WriteFile E p d)"
  "keeps tamed (os_Rename E p q)" "keeps tamed (os_OpenTrunc E p)" "keeps tamed (os_ReadFile E p)"
  "keeps tamed (os_ReadDir E p)"
  unfolding os_defs by (intro tamed.keeps_rules tames)+

lemma tamed_cmd [tames]:
  "keeps tamed (runCmd E name args)" "keeps tamed (killProcessGroup E cmd)" "keeps tamed (cmd_Wait E pid t)"
  unfolding runCmd_def killProcessGroup_def cmd_Wait_def by (intro tamed.keeps_rules tames; simp)+

lemma tamed_netns [tames]:
  "keeps tamed (setupSandboxNetnsAndRouting E sid subnet)" "keeps tamed (cleanupSandboxNetnsAndRouting E nc)"
  "keeps tamed (ensureGlobalMasquerade E iface)"
  unfolding netns_defs cleanupSandboxNetnsAndRouting_def ensureGlobalMasquerade_def Let_def
  by (intro tamed.keeps_rules tames)+

lemma tamed_agent [tames]:
  "keeps tamed (Call E c req t)" "keeps tamed (dialAgent E u p t)" "keeps tamed (agent_Close E a)"
  unfolding Call_def dialAgent_def ReadLine_def agent_Close_def
  by (intro tamed.keeps_rules tamed.keeps_WriteMessage tamed.keeps_ReadMessage tames)+

lemma tamed_try_agent [tames]: "keeps tamed (try_agent E u p t)"
  unfolding try_agent_def by (intro tamed.keeps_rules tames)

lemma tamed_loopI: "(\<And>h r h'. f h = (r, h') \<Longrightarrow> tamed h h') \<Longrightarrow> keeps tamed (State f)"
  by (auto intro: keepsI)

lemma tamed_snd: "keeps tamed m \<Longrightarrow> tamed h g \<Longrightarrow> tamed h (snd (run_state m g))"
  by (metis keepsD prod.collapse tamed.trans_R)

lemma tamed_run: "keeps tamed m \<Longrightarrow> run_state m g = (r, g') \<Longrightarrow> tamed h g \<Longrightarrow> tamed h g'"
  by (metis keepsD tamed.trans_R)

text \<open>One round of a polling loop: read the clock, try, sleep.\<close>

lemma tamed_round:
  assumes "keeps tamed m"
  shows "run_state (time_Now E) h = (t, h1) \<Longrightarrow> tamed h h1"
    "run_state (time_Now E) h = (t, h1) \<Longrightarrow> run_state m h1 = (x, h2) \<Longrightarrow> tamed h h2"
    "run_state (time_Now E) h = (t, h1) \<Longrightarrow> run_state m h1 = (x, h2) \<Longrightarrow> tamed (snd (run_state (time_Sleep E d) h2)) h' \<Longrightarrow> tamed h h'"
  by (meson assms keepsD tamed_host tamed_snd tamed.refl_R tamed.trans_R)+

lemma tamed_agent_loop [tames]: "keeps tamed (State (agent_loop E u p dt deadline l))"
proof (rule tamed_loopI)
  show "agent_loop E u p dt deadline l h = (r, h') \<Longrightarrow> tamed h h'" for h r h'
  proof (induction E u p dt deadline l h rule: agent_loop.induct)
    case (1 E u p dt deadline l h)
    note round = tamed_round [OF tamed_try_agent]
    from 1(2) show ?case
      by (subst (asm) agent_loop.simps)
         (auto split: prod.splits if_splits sum.splits intro: round(1,2) round(3) [OF _ _ 1(1)])
  qed
qed

lemma tamed_waitForAgentReady [tames]: "keeps tamed (waitForAgentReady E u p t dt)"
  unfolding waitForAgentReady_def by (intro tamed.keeps_rules tames)

lemma tamed_fc [tames]:
  "keeps tamed (doJSON E c verb path payload)" "keeps tamed (pauseVM E c)" "keeps tamed (resumeVM E c)"
  "keeps tamed (createFullSnapshot E c sp mp)" "keeps tamed (loadSnapshot E c sp mp b)" "keeps tamed (writeVMConfig E p cfg tap r n v cid)"
  unfolding doJSON_def pauseVM_def resumeVM_def createFullSnapshot_def loadSnapshot_def writeVMConfig_def
  by (intro tamed.keeps_rules tames)+

lemma tamed_try_socket [tames]: "keeps tamed (try_socket E p)"
  unfolding try_socket_def by (intro tamed.keeps_rules tames)

lemma tamed_socket_loop [tames]: "keeps tamed (State (socket_loop E p deadline l))"
proof (rule tamed_loopI)
  show "socket_loop E p deadline l h = (r, h') \<Longrightarrow> tamed h h'" for h r h'
  proof (induction E p deadline l h rule: socket_loop.induct)
    case (1 E p deadline l h)
    note round = tamed_round [OF tamed_try_socket]
    from 1(2) show ?case
      by (subst (asm) socket_loop.simps)
         (auto split: prod.splits if_splits sum.splits option.splits intro: round(1,2) round(3) [OF _ _ 1(1)])
  qed
qed

lemma tamed_dialSSH [tames]: "keeps tamed (dialSSH E i k t)"
  unfolding dialSSH_def by (intro tamed.keeps_rules tames)

lemma tamed_ssh_exec_loop [tames]: "keeps tamed (State (ssh_exec_loop E i k dt deadline l))"
proof (rule tamed_loopI)
  show "ssh_exec_loop E i k dt deadline l h = (r, h') \<Longrightarrow> tamed h h'" for h r h'
  proof (induction E i k dt deadline l h rule: ssh_exec_loop.induct)
    case (1 E i k dt deadline l h)
    note round = tamed_round [OF tamed_dialSSH]
    from 1(2) show ?case
      by (subst (asm) ssh_exec_loop.simps)
         (auto split: prod.splits if_splits sum.splits option.splits intro: round(1,2) round(3) [OF _ _ 1(1)])
  qed
qed

text \<open>A retrying loop tries first and reads the clock after a failure.\<close>

lemma tamed_retry:
  assumes "keeps tamed m"
  shows "run_state m h = (x, h1) \<Longrightarrow> tamed h h1"
    "run_state m h = (x, h1) \<Longrightarrow> run_state (time_Now E) h1 = (t, h2) \<Longrightarrow> tamed h h2"
    "run_state m h = (x, h1) \<Longrightarrow> run_state (time_Now E) h1 = (t, h2) \<Longrightarrow> tamed (snd (run_state (time_Sleep E d) h2)) h' \<Longrightarrow> tamed h h'"
  by (meson assms keepsD tamed_host tamed_snd tamed.refl_R tamed.trans_R)+

lemma tamed_load_loop [tames]: "keeps tamed (State (load_loop E fc st mem b deadline))"
proof (rule tamed_loopI)
  show "load_loop E fc st mem b deadline h = (r, h') \<Longrightarrow> tamed h h'" for h r h'
  proof (induction E fc st mem b deadline h rule: load_loop.induct)
    case (1 E fc st mem b deadline h)
    note round = tamed_retry [OF tamed_fc(5)]
    from 1(2) show ?case
      by (subst (asm) load_loop.simps)
         (auto split: prod.splits if_splits sum.splits option.splits intro: round(1,2) round(3) [OF _ _ 1(1)])
  qed
qed

lemma tamed_remove_loop [tames]: "keeps tamed (State (remove_loop E cg deadline))"
proof (rule tamed_loopI)
  show "remove_loop E cg deadline h = (r, h') \<Longrightarrow> tamed h h'" for h r h'
  proof (induction E cg deadline h rule: remove_loop.induct)
    case (1 E cg deadline h)
    note round = tamed_retry [OF tamed_os(4)]
    from 1(2) show ?case
      by (subst (asm) remove_loop.simps)
         (auto split: prod.splits if_splits sum.splits option.splits intro: round(1,2) round(3) [OF _ _ 1(1)])
  qed
qed

lemma tamed_drain_loop [tames]: "keeps tamed (State (drain_loop E f deadline))"
proof (rule tamed_loopI)
  show "drain_loop E f deadline h = (r, h') \<Longrightarrow> tamed h h'" for h r h'
  proof (induction E f deadline h rule: drain_loop.induct)
    case (1 E f deadline h)
    note round = tamed_round [OF tamed.keeps_return]
    from 1(2) show ?case
      by (subst (asm) drain_loop.simps)
         (auto split: prod.splits if_splits intro: round(1) round(3) [OF _ _ 1(1)] tamed.refl_R)
  qed
qed

lemma tamed_waits [tames]:
  "keeps tamed (waitForUnixSocketReady E p t)" "keeps tamed (loadSnapshotWithRetry E fc st mem b t)"
  "keeps tamed (waitForExecSSH E i k t dt)" "keeps tamed (waitForExecDrain E f t)" "keeps tamed (removeCgroupDir E cg t)"
  unfolding waitForUnixSocketReady_def loadSnapshotWithRetry_def waitForExecSSH_def waitForExecDrain_def removeCgroupDir_def Let_def
  by (intro tamed.keeps_rules tames)+

lemma tamed_cgroup [tames]:
  "keeps tamed (ensureCgroupRoot E root)" "keeps tamed (killCgroup E cg)" "keeps tamed (movePidToCgroup E cg pid)"
  unfolding ensureCgroupRoot_def killCgroup_def movePidToCgroup_def Let_def
  by (intro tamed.keeps_rules tames)+

lemma tamed_scavenge_each [tames]: "keeps tamed (scavenge_each E root es)"
  by (induction E root es rule: scavenge_each.induct) (auto simp: Let_def intro!: tamed.keeps_rules tames)

lemma tamed_scavengeCgroups [tames]: "keeps tamed (scavengeCgroups E root)"
  unfolding scavengeCgroups_def by (intro tamed.keeps_rules tames)

lemma tamed_files [tames]:
  "keeps tamed (validateSnapshotMeta E sp cfg)" "keeps tamed (write_meta E p j)" "keeps tamed (resetSnapshotDir E sp)"
  "keeps tamed (fileExists E p)" "keeps tamed (materializeSandboxRootfs E cfg src dst)"
  unfolding validateSnapshotMeta_def write_meta_def resetSnapshotDir_def fileExists_def materializeSandboxRootfs_def Let_def
  by (intro tamed.keeps_rules tames)+

lemma tamed_metas [tames]: "keeps tamed (writeSnapshotMeta E sp cfg)" "keeps tamed (snapshot_files_exist E sp)"
  unfolding writeSnapshotMeta_def snapshot_files_exist_def by (intro tamed.keeps_rules tames)+

lemma tamed_sandbox [tames]:
  "keeps tamed (prepareSandboxRuntimePaths E d)" "keeps tamed (openSandboxLog E p)" "keeps tamed (prepareSandboxCgroup E cfg sid)"
  "keeps tamed (attachSandboxProcessToCgroup E cg pid)" "keeps tamed (configureSandboxGuestNetwork E ac nc)"
  "keeps tamed (kill_sandbox_cgroup E cg)" "keeps tamed (reap E proc)"
  unfolding prepareSandboxRuntimePaths_def openSandboxLog_def prepareSandboxCgroup_def attachSandboxProcessToCgroup_def
    configureSandboxGuestNetwork_def kill_sandbox_cgroup_def reap_def Let_def
  by (intro tamed.keeps_rules tames)+

lemma tamed_runSSHCommand [tames]: "keeps tamed (runSSHCommand E session cmd t)"
  unfolding runSSHCommand_def by (intro tamed.keeps_rules tames)

lemma tamed_exec_ssh [tames]: "keeps tamed (exec_ssh E cfg sb req)"
  unfolding exec_ssh_def by (intro tamed.keeps_rules tames)

lemma tamed_user [tames]: "keeps tamed (writeUserSnapshotMeta E cfg m)" "keeps tamed (loadUserSnapshotMeta E cfg sid)"
  unfolding writeUserSnapshotMeta_def loadUserSnapshotMeta_def by (intro tamed.keeps_rules tames)+

lemma tamed_snapshot_paused [tames]: "keeps tamed (snapshot_paused E cfg fc sb sid name)"
  unfolding snapshot_paused_def Let_def by (intro tamed.keeps_rules tames)

lemma tamed_take_snapshot [tames]: "keeps tamed (take_snapshot E cfg sb sid name)"
  unfolding take_snapshot_def Let_def by (intro tamed.keeps_rules tames)

lemma tamed_load_each [tames]: "keeps tamed (load_each E cfg es)"
  by (induction E cfg es rule: load_each.induct) (auto intro!: tamed.keeps_rules tames)

lemma tamed_listUserSnapshots [tames]: "keeps tamed (listUserSnapshots E cfg)"
  unfolding listUserSnapshots_def by (intro tamed.keeps_rules tames)

lemma tamed_first_missing [tames]: "keeps tamed (first_missing E ps)"
  by (induction E ps rule: first_missing.induct) (auto intro!: tamed.keeps_rules tames)

end
