(* ===== verification/Vm_Ownership.thy ===== *)
theory Vm_Ownership
  imports Processes
begin

text \<open>
  Who owns the running VMs: \<open>cmd/server/sandbox.go\<close>, \<open>snapshot.go\<close> and \<open>main.go\<close> start a VM in
  three places and kill it on every failure that follows. The theory follows each of them to the
  end, and shows that a running VM always belongs to a sandbox of the map and that a shutdown
  leaves none, nor any open sandbox.
\<close>

section \<open>Starting and killing a VM\<close>

text \<open>
  Killing the process group of a child succeeds, or fails because the group is gone: the server
  runs as root and the children are its own.
\<close>

definition kills_work :: "'x env \<Rightarrow> bool" where
  "kills_work E \<longleftrightarrow> (\<forall>pid x. case fst (e_KillGroup E pid x) of None \<Rightarrow> True | Some e \<Rightarrow> errors_Is e ESRCH)"

text \<open>
  \<open>runs P m Q\<close>: if only processes of \<open>P\<close> are running before \<open>m\<close>, then only processes of \<open>Q r\<close> are
  running when it returns \<open>r\<close>.
\<close>

definition runs :: "nat set \<Rightarrow> ('x host, 'a) state \<Rightarrow> ('a \<Rightarrow> nat set) \<Rightarrow> bool" where
  "runs P m Q \<longleftrightarrow> (\<forall>h r h'. running h \<subseteq> P \<and> run_state m h = (r, h') \<longrightarrow> running h' \<subseteq> Q r)"

lemma runsI: "(\<And>h r h'. running h \<subseteq> P \<Longrightarrow> run_state m h = (r, h') \<Longrightarrow> running h' \<subseteq> Q r) \<Longrightarrow> runs P m Q"
  by (auto simp: runs_def)

lemma runsD: "runs P m Q \<Longrightarrow> run_state m h = (r, h') \<Longrightarrow> running h \<subseteq> P \<Longrightarrow> running h' \<subseteq> Q r"
  by (simp add: runs_def)

lemma runs_tamed: "keeps tamed m \<Longrightarrow> runs P m (\<lambda>_. P)"
  by (rule runsI) (metis keepsD tamed_def order_trans)

lemma tamed_runs: "(\<And>P. runs P m (\<lambda>_. P)) \<Longrightarrow> keeps tamed m"
  by (rule keepsI) (auto simp: tamed_def dest: runsD [of _ m])

lemma runs_return: "P \<subseteq> Q x \<Longrightarrow> runs P (return x) Q"
  by (rule runsI) (simp add: order_trans)

lemma runs_bind: "runs P m Q \<Longrightarrow> (\<And>a. runs (Q a) (f a) R) \<Longrightarrow> runs P (State_Monad.bind m f) R"
  by (rule runsI) (auto split: prod.splits dest!: runsD)

lemma runs_option: "runs P m Q \<Longrightarrow> (\<And>v. runs P (f v) Q) \<Longrightarrow> runs P (case x of None \<Rightarrow> m | Some v \<Rightarrow> f v) Q"
  by (cases x) simp_all

lemma runs_sum: "(\<And>e. runs P (f e) Q) \<Longrightarrow> (\<And>v. runs P (g v) Q) \<Longrightarrow> runs P (case x of Inl e \<Rightarrow> f e | Inr v \<Rightarrow> g v) Q"
  by (cases x) simp_all

lemma runs_if: "runs P m Q \<Longrightarrow> runs P n Q \<Longrightarrow> runs P (if b then m else n) Q"
  by simp

lemma running_outside [simp]: "running (snd (run_state (outside c) h)) = running h"
  by (auto simp: outside_def running_def split: prod.splits)

lemma runs_start:
  assumes "\<And>e. runs P (f e) Q" "\<And>pid. runs (insert pid P) (g pid) Q"
  shows "runs P (State_Monad.bind (cmd_Start E argv d) (\<lambda>s. case s of Inl e \<Rightarrow> f e | Inr pid \<Rightarrow> g pid)) Q"
proof (rule runsI)
  fix h r h' assume h: "running h \<subseteq> P" and run: "run_state (State_Monad.bind (cmd_Start E argv d) (\<lambda>s. case s of Inl e \<Rightarrow> f e | Inr pid \<Rightarrow> g pid)) h = (r, h')"
  obtain s h1 where s: "run_state (cmd_Start E argv d) h = (s, h1)" by (rule prod.exhaust)
  have "running h1 \<subseteq> (case s of Inl _ \<Rightarrow> P | Inr pid \<Rightarrow> insert pid P)"
    using s h by (auto simp: cmd_Start_def outside_fs_def set_proc_def running_def update_conv' split: prod.splits sum.splits if_splits)
  with run s show "running h' \<subseteq> Q r" by (cases s) (simp_all add: runsD [OF assms(1)] runsD [OF assms(2)])
qed

lemma runs_kill:
  assumes "kills_work E"
  shows "runs (insert pid P) (killProcessGroup E (Some pid)) (\<lambda>_. P)"
proof (rule runsI)
  fix h r h' assume h: "running h \<subseteq> insert pid P" and run: "run_state (killProcessGroup E (Some pid)) h = (r, h')"
  obtain x h1 where x: "run_state (outside (e_KillGroup E pid)) h = (x, h1)" by (rule prod.exhaust)
  have "case fst (e_KillGroup E pid (ext h)) of None \<Rightarrow> True | Some e \<Rightarrow> errors_Is e ESRCH"
    using assms by (simp add: kills_work_def)
  then have "x = None \<or> (\<exists>e. x = Some e \<and> errors_Is e ESRCH)"
    using x by (cases x) (auto simp: outside_def split: prod.splits)
  then have "run_state (set_proc pid Killed) h1 = ((), h')"
    using run x by (auto simp: killProcessGroup_def split: prod.splits)
  then have "running h' = running h1 - {pid}"
    by (auto simp: set_proc_def running_def update_conv' split: if_splits)
  moreover have "running h1 = running h" using running_outside [of "e_KillGroup E pid" h] x by simp
  ultimately show "running h' \<subseteq> P"
    using h by blast
qed

lemmas runs_rules = runs_start runs_return runs_bind [OF runs_kill] runs_bind [OF runs_tamed] runs_option runs_sum runs_if

lemma tamed_snapshot_vm [tames]: "keeps tamed (snapshot_vm E cfg sp pid)"
  unfolding snapshot_vm_def Let_def by (intro tamed.keeps_rules tames)

lemma tamed_boot_snapshot_vm [tames]:
  assumes "kills_work E"
  shows "keeps tamed (boot_snapshot_vm E cfg sp nc)"
  unfolding boot_snapshot_vm_def
  by (rule tamed_runs) (intro runs_rules tames assms subset_refl)

lemma tamed_ensureSnapshot [tames]: "kills_work E \<Longrightarrow> keeps tamed (ensureSnapshot E cfg)"
  unfolding ensureSnapshot_def build_snapshot_def Let_def by (intro tamed.keeps_rules tames)

text \<open>A sandbox that was made has its process; after a failure there is none.\<close>

definition vm_pids :: "sandbox res \<Rightarrow> nat set" where
  "vm_pids r = (case r of Inl _ \<Rightarrow> {} | Inr sb \<Rightarrow> set_option (sb_Process sb))"

lemma runs_vm:
  assumes "kills_work E"
  shows "runs P (boot_vm E cfg sid d f nc) (\<lambda>(r, _). P \<union> vm_pids r)"
    "runs P (restore_vm E cfg sid st mem d f nc) (\<lambda>(r, _). P \<union> vm_pids r)"
  unfolding boot_vm_def restore_vm_def abort_vm_def Let_def
  by (intro runs_rules tames assms; auto simp: vm_pids_def new_sandbox_def split: prod.split)+


section \<open>In the world of the server\<close>

interpretation wtamed: preorder_rel "on_host tamed"
  by unfold_locales (auto simp: on_host_def tamed_def)

lemma tamed_srv [tames]:
  "keeps (on_host tamed) (gets_srv f)" "keeps (on_host tamed) (modify_srv g)" "keeps (on_host tamed) (sb_at a)"
  "keeps (on_host tamed) (sb_modify a u)" "keeps (on_host tamed) (sb_alloc sb)"
  by (auto simp: on_host_def tamed_def sb_at_def sb_modify_def sb_alloc_def intro!: keepsI)

lemma tamed_onhost [tames]: "keeps tamed m \<Longrightarrow> keeps (on_host tamed) (onhost m)"
  by (rule on_host_onhost)

lemma tamed_pool [tames]:
  "keeps (on_host tamed) (acquireNetns E sid)" "keeps (on_host tamed) (releaseNetns E nco)"
  unfolding acquireNetns_def pool_Acquire_def next_subnet_def releaseNetns_def pool_Release_def update_pool_def
  by (intro wtamed.keeps_rules tames)+

lemma tamed_clone_and_acquire [tames]: "keeps (on_host tamed) (clone_and_acquire E cfg sid src dst label)"
  unfolding clone_and_acquire_def by (intro wtamed.keeps_rules tames)

lemma tamed_exec [tames]: "keeps (on_host tamed) (handleExec E cfg body)"
  unfolding handleExec_def exec_transport_def exec_agent_def lookup_sandbox_def
  by (intro wtamed.keeps_rules tames)

lemma tamed_snapshots [tames]:
  "keeps (on_host tamed) (handleSnapshotCreate E cfg body)" "keeps (on_host tamed) (handleSnapshotList E cfg)"
  "keeps (on_host tamed) (handleSnapshotDelete E cfg body)"
  unfolding handleSnapshotCreate_def handleSnapshotList_def handleSnapshotDelete_def createUserSnapshotFromSandbox_def
    lookup_sandbox_def next_snapshot_id_def
  by (intro wtamed.keeps_rules tames)+

definition wruns :: "nat set \<Rightarrow> ('x world, 'a) state \<Rightarrow> ('a \<Rightarrow> 'x world \<Rightarrow> nat set) \<Rightarrow> bool" where
  "wruns P m Q \<longleftrightarrow> (\<forall>w r w'. running (host w) \<subseteq> P \<and> run_state m w = (r, w') \<longrightarrow> running (host w') \<subseteq> Q r w')"

lemma wrunsI: "(\<And>w r w'. running (host w) \<subseteq> P \<Longrightarrow> run_state m w = (r, w') \<Longrightarrow> running (host w') \<subseteq> Q r w') \<Longrightarrow> wruns P m Q"
  by (auto simp: wruns_def)

lemma wrunsD: "wruns P m Q \<Longrightarrow> run_state m w = (r, w') \<Longrightarrow> running (host w) \<subseteq> P \<Longrightarrow> running (host w') \<subseteq> Q r w'"
  by (simp add: wruns_def)

lemma wp_wruns: "wruns P m Q \<Longrightarrow> running (host w) \<subseteq> P \<Longrightarrow> wp m (\<lambda>r w'. running (host w') \<subseteq> Q r w') w"
  by (rule wpI) (rule wrunsD)

lemma wruns_tamed: "keeps (on_host tamed) m \<Longrightarrow> wruns P m (\<lambda>_ _. P)"
  by (rule wrunsI) (metis keepsD on_host_def tamed_def order_trans)

lemma wruns_onhost: "runs P m Q \<Longrightarrow> wruns P (onhost m) (\<lambda>r _. Q r)"
  by (rule wrunsI) (auto simp: onhost_def split: prod.splits dest!: runsD)

lemma wruns_return: "(\<And>w. P \<subseteq> Q x w) \<Longrightarrow> wruns P (return x) Q"
  by (rule wrunsI) (simp add: order_trans)

lemma wruns_bind: "wruns P m (\<lambda>r _. Q r) \<Longrightarrow> (\<And>a. wruns (Q a) (f a) R) \<Longrightarrow> wruns P (State_Monad.bind m f) R"
  by (rule wrunsI) (auto split: prod.splits dest!: wrunsD)

lemma wruns_option: "wruns P m Q \<Longrightarrow> (\<And>v. wruns P (f v) Q) \<Longrightarrow> wruns P (case x of None \<Rightarrow> m | Some v \<Rightarrow> f v) Q"
  by (cases x) simp_all

lemma wruns_sum: "(\<And>e. wruns P (f e) Q) \<Longrightarrow> (\<And>v. wruns P (g v) Q) \<Longrightarrow> wruns P (case x of Inl e \<Rightarrow> f e | Inr v \<Rightarrow> g v) Q"
  by (cases x) simp_all

lemma wruns_prod: "(\<And>a b. wruns P (f a b) Q) \<Longrightarrow> wruns P (case x of (a, b) \<Rightarrow> f a b) Q"
  by (cases x) simp

lemma wruns_if: "wruns P m Q \<Longrightarrow> wruns P n Q \<Longrightarrow> wruns P (if b then m else n) Q"
  by simp

lemmas wruns_rules = wruns_return wruns_bind [OF wruns_tamed] wruns_option wruns_sum wruns_prod wruns_if

lemma wruns_with_netns_and_disk:
  assumes "\<And>nc. runs P (rest nc) (\<lambda>(r, _). P \<union> vm_pids r)"
  shows "wruns P (with_netns_and_disk E rest prepared) (\<lambda>r _. P \<union> vm_pids r)"
proof -
  have "wruns P (do { (r, cleanupNet) \<leftarrow> onhost (rest nc); (if cleanupNet then releaseNetns E (Some nc) else return ()); return r })
      (\<lambda>r _. P \<union> vm_pids r)" for nc
    by (rule wruns_bind [OF wruns_onhost [OF assms]])
       (auto intro!: wruns_bind [OF wruns_tamed] wtamed.keeps_rules tames wruns_return)
  moreover have "wruns P (do { releaseNetns E (Some nc); return (Inl e) }) (\<lambda>r _. P \<union> vm_pids r)" for nc e
    by (intro wruns_bind [OF wruns_tamed] wruns_return tames) simp
  ultimately show ?thesis
    unfolding with_netns_and_disk_def by (auto intro!: wruns_prod wruns_sum wruns_option wruns_return)
qed

text \<open>The process of the sandbox at the address that was returned.\<close>

definition made_pids :: "nat res \<Rightarrow> 'x world \<Rightarrow> nat set" where
  "made_pids r w = (case r of Inl _ \<Rightarrow> {} | Inr a \<Rightarrow> set_option (sb_Process (heap (srv w) ! a)))"

lemma wruns_keep_or_remove:
  "wruns (P \<union> vm_pids r) (keep_or_remove E d keep r) (\<lambda>x w. P \<union> made_pids x w)"
proof (cases r)
  case (Inl e)
  then show ?thesis
    unfolding keep_or_remove_def
    by (auto simp: vm_pids_def intro!: wruns_rules wtamed.keeps_rules tames)
next
  case (Inr sb)
  then show ?thesis
    by (auto simp: keep_or_remove_def sb_alloc_def vm_pids_def made_pids_def nth_append wruns_def)
qed

lemma wruns_create_in_dir:
  assumes "\<And>d f nc. runs P (rest d f nc) (\<lambda>(r, _). P \<union> vm_pids r)"
  shows "wruns P (create_in_dir E cfg sid src label keep rest) (\<lambda>x w. P \<union> made_pids x w)"
  unfolding create_in_dir_def Let_def
  by (intro wruns_rules tames wruns_bind [OF wruns_with_netns_and_disk] assms wruns_keep_or_remove) auto

lemma wruns_create:
  assumes "kills_work E"
  shows "wruns P (createSandbox E cfg sid) (\<lambda>x w. P \<union> made_pids x w)"
    "wruns P (createSandboxFromUserSnapshot E cfg sid meta) (\<lambda>x w. P \<union> made_pids x w)"
  unfolding createSandbox_def createSandboxFromSnapshot_def createSandboxFromUserSnapshot_def restoreSandboxFromArtifacts_def
  by (intro wruns_rules tames assms wruns_create_in_dir runs_vm; auto)+

lemma runs_reap:
  assumes "kills_work E"
  shows "runs (P \<union> set_option proc) (reap E proc) (\<lambda>_. P)"
proof (cases proc)
  case (Some pid)
  have "runs (insert pid P) (reap E (Some pid)) (\<lambda>_. P)"
    unfolding reap_def option.case by (intro runs_bind [OF runs_kill] runs_bind [OF runs_tamed] runs_return tames assms subset_refl)
  with Some show ?thesis by simp
qed (simp add: reap_def runs_return)

lemma wp_cleanup_pids:
  assumes "kills_work E" "running (host w) \<subseteq> P \<union> set_option (sb_Process (heap (srv w) ! a))"
  shows "wp (cleanupSandbox E a) (\<lambda>_ w'. running (host w') \<subseteq> P) w"
  unfolding cleanupSandbox_def wp_bind [of "sb_at a"] wp_sb Let_def
  by (rule wp_wruns [OF _ assms(2)])
     (intro wruns_bind [OF wruns_onhost [OF runs_reap]] wruns_bind [OF wruns_tamed] wruns_return wtamed.keeps_rules tamed.keeps_rules
       tames assms(1) subset_refl)


section \<open>Every running VM belongs to a sandbox\<close>

definition owned :: "server \<Rightarrow> nat set" where
  "owned s = {pid. \<exists>k a. map_of (sandboxes s) k = Some a \<and> sb_Process (heap s ! a) = Some pid}"

lemma ownedI: "map_of (sandboxes s) k = Some a \<Longrightarrow> sb_Process (heap s ! a) = Some pid \<Longrightarrow> pid \<in> owned s"
  by (auto simp: owned_def)

text \<open>The steps that keep the map and the processes of its sandboxes.\<close>

lemma owned_benign:
  assumes "benign w w'"
  shows "owned (srv w') = owned (srv w)"
proof -
  have "sb_Process (H[a := (H ! a)\<lparr>sb_Agent := x\<rparr>] ! b) = sb_Process (H ! b)" for H a b x
    by (cases "a < length H"; cases "b = a") (simp_all add: list_update_beyond)
  then have "sandboxes (srv w') = sandboxes (srv w)" "sb_Process (heap (srv w') ! b) = sb_Process (heap (srv w) ! b)" for b
    using assms by (auto simp: benign_def agent_only_def)
  then show ?thesis by (simp add: owned_def)
qed

lemma owned_registered:
  assumes ok: "sandboxes_ok s" and n: "nextSandboxID s \<noteq> - 1"
    and made: "created lossy sid (s\<lparr>nextSandboxID := nextSandboxID s + 1\<rparr>) (Inr a) t" and sid: "sid = ''sb-'' @ utoa (unat (nextSandboxID s + 1))"
  shows "owned s \<union> set_option (sb_Process (heap t ! a)) \<subseteq> owned (t\<lparr>sandboxes := AList.update sid a (sandboxes t)\<rparr>)"
proof -
  obtain sb where t: "sandboxes t = sandboxes s" "heap t = heap s @ [sb]" "a = length (heap s)"
    using made by (auto simp: created_def dest!: net_onlyD)
  have fresh: "map_of (sandboxes s) sid = None"
    using sandboxes_okD(3) [OF ok, of sid] unat_next [OF n] by (cases "map_of (sandboxes s) sid") (auto simp: sid issued_def)
  have "pid \<in> owned (t\<lparr>sandboxes := AList.update sid a (sandboxes t)\<rparr>)" if "map_of (sandboxes s) k = Some b" "sb_Process (heap s ! b) = Some pid" for k b pid
    using that sandboxes_okD(1) [OF ok that(1)] fresh by (intro ownedI [of _ k b]) (auto simp: t update_conv' nth_append)
  moreover have "pid \<in> owned (t\<lparr>sandboxes := AList.update sid a (sandboxes t)\<rparr>)" if "sb_Process sb = Some pid" for pid
    using that by (intro ownedI [of _ sid a]) (auto simp: t update_conv')
  ultimately show ?thesis by (auto simp: owned_def t)
qed

lemma owned_destroyed:
  assumes ok: "sandboxes_ok s" and k: "map_of (sandboxes s) k = Some a" and d: "destroyed k a s s'"
  shows "owned s \<subseteq> owned s' \<union> set_option (sb_Process (heap s ! a))"
proof
  fix pid assume "pid \<in> owned s"
  then obtain l b where l: "map_of (sandboxes s) l = Some b" "sb_Process (heap s ! b) = Some pid" by (auto simp: owned_def)
  show "pid \<in> owned s' \<union> set_option (sb_Process (heap s ! a))"
  proof (cases "b = a")
    case False
    then have "l \<noteq> k" using k l(1) by auto
    then show ?thesis using l d False by (auto simp: destroyed_def delete_conv' intro!: ownedI [of s' l b])
  qed (use l in simp)
qed


definition vms_owned :: "'x world \<Rightarrow> bool" where
  "vms_owned w \<longleftrightarrow> running (host w) \<subseteq> owned (srv w)"

lemma vms_owned_enrol:
  assumes ok: "sandboxes_ok s" and n: "nextSandboxID s \<noteq> - 1" and sid: "sid = ''sb-'' @ utoa (unat (nextSandboxID s + 1))"
    and made: "created lossy sid (s\<lparr>nextSandboxID := nextSandboxID s + 1\<rparr>) r (srv w1)"
    and run: "running (host w1) \<subseteq> owned s \<union> made_pids r w1"
  shows "wp (enrol r) (\<lambda>_. vms_owned) w1"
proof (cases r)
  case (Inl e)
  then have "net_only (s\<lparr>nextSandboxID := nextSandboxID s + 1\<rparr>) (srv w1)"
    using made by (simp add: created_def)
  from net_onlyD [OF this] have "owned (srv w1) = owned s"
    by (simp add: owned_def)
  with run Inl show ?thesis by (simp add: enrol_def wp_return vms_owned_def made_pids_def)
next
  case (Inr a)
  then have "sb_ID (heap (srv w1) ! a) = sid"
    using sandboxes_ok_register [OF ok n sid] made by simp
  moreover have "running (host w1) \<subseteq> owned ((srv w1)\<lparr>sandboxes := AList.update sid a (sandboxes (srv w1))\<rparr>)"
    using order_trans [OF _ owned_registered [OF ok n made [unfolded Inr] sid]] run Inr by (simp add: made_pids_def)
  ultimately show ?thesis
    using Inr by (simp add: enrol_def register_def wp_simps vms_owned_def)
qed

lemma wp_create_vms:
  assumes ok: "sandboxes_ok (srv w)" and n: "nextSandboxID (srv w) \<noteq> - 1" and w1: "srv w1 = srv w" "running (host w1) \<subseteq> owned (srv w)"
    and c: "\<And>sid w. wp (create sid) (\<lambda>r w'. created lossy sid (srv w) r (srv w')) w"
    and v: "\<And>sid P. wruns P (create sid) (\<lambda>r w. P \<union> made_pids r w)"
  shows "wp (do { sid \<leftarrow> next_sandbox_id; r \<leftarrow> create sid; enrol r }) (\<lambda>_. vms_owned) w1"
proof -
  let ?sid = "''sb-'' @ utoa (unat (nextSandboxID (srv w) + 1))"
  let ?w = "w1\<lparr>srv := (srv w)\<lparr>nextSandboxID := nextSandboxID (srv w) + 1\<rparr>\<rparr>"
  have "wp (create ?sid) (\<lambda>r w'. created lossy ?sid (srv ?w) r (srv w')) ?w"
    by (rule c)
  moreover have "wp (create ?sid) (\<lambda>r w'. running (host w') \<subseteq> owned (srv w) \<union> made_pids r w') ?w"
    using w1(2) by (intro wp_wruns [OF v]) simp
  ultimately show ?thesis
    unfolding wp_bind wp_next_sandbox_id w1(1)
    by (rule wp_mono [OF wp_conj]) (auto intro!: vms_owned_enrol [OF ok n refl])
qed

lemma vms_owned_same: "srv w' = srv w \<Longrightarrow> tamed (host w) (host w') \<Longrightarrow> vms_owned w \<Longrightarrow> vms_owned w'"
  by (auto simp: vms_owned_def tamed_def)

lemma wp_handleDestroy_pids:
  assumes ok: "sandboxes_ok (srv w)" and k: "map_of (sandboxes (srv w)) k = Some a" and works: "kills_work E"
    and body: "decodeJSON (dec_single ''sandbox_id'') [] body = Some k" "TrimSpace k \<noteq> []"
    and run: "running (host w) \<subseteq> P \<union> set_option (sb_Process (heap (srv w) ! a))"
  shows "wp (handleDestroy E body) (\<lambda>_ w'. running (host w') \<subseteq> P) w"
proof -
  have live: "fst (beginDestroy (heap (srv w) ! a))" "a < length (heap (srv w))"
    using sandboxes_okD [OF ok k] by (simp_all add: beginDestroy_def sb_live_def)
  let ?s = "(srv w)\<lparr>sandboxes := AList.delete k (sandboxes (srv w)), heap := (heap (srv w))[a := snd (beginDestroy (heap (srv w) ! a))]\<rparr>"
  have same: "sb_Process (heap ?s ! a) = sb_Process (heap (srv w) ! a)"
    using live by (simp add: beginDestroy_def)
  have "wp (wait_drain E a) (\<lambda>_ w1. srv w1 = ?s \<and> running (host w1) \<subseteq> P \<union> set_option (sb_Process (heap ?s ! a))) (w\<lparr>srv := ?s\<rparr>)"
    unfolding wait_drain_def wp_bind wp_sb wp_onhost
  proof (rule wpI, intro conjI)
    fix b h assume "run_state (waitForExecDrain E (\<lambda>_. currentInFlightExec (heap (srv (w\<lparr>srv := ?s\<rparr>)) ! a)) destroyExecDrainTimeout)
        (host (w\<lparr>srv := ?s\<rparr>)) = (b, h)"
    from keepsD [OF tamed_waits(4) this] have "running h \<subseteq> running (host w)" by (simp add: tamed_def)
    from order_trans [OF this run] show "running (host (w\<lparr>srv := ?s, host := h\<rparr>)) \<subseteq> P \<union> set_option (sb_Process (heap ?s ! a))"
      unfolding same by simp
  qed simp
  moreover have "wp (cleanupSandbox E a) (\<lambda>_ w'. running (host w') \<subseteq> P) w1"
    if "srv w1 = ?s \<and> running (host w1) \<subseteq> P \<union> set_option (sb_Process (heap ?s ! a))" for w1
    by (rule wp_cleanup_pids [OF works]) (use that in simp)
  ultimately have "wp (wait_drain E a) (\<lambda>_. wp (cleanupSandbox E a) (\<lambda>_ w'. running (host w') \<subseteq> P)) (w\<lparr>srv := ?s\<rparr>)"
    by (rule wp_mono)
  then show ?thesis
    unfolding handleDestroy_def begin_destroy_def lookup_sandbox_def wp_return wp_bind wp_sb wp_if wp_option wp_modify_srv wp_gets_srv
    by (simp add: live k body)
qed

lemma wp_handleDestroy_vms:
  assumes ok: "sandboxes_ok (srv w)" and v: "vms_owned w" and works: "kills_work E"
  shows "wp (handleDestroy E body) (\<lambda>_. vms_owned) w"
proof -
  consider (found) k a where "decodeJSON (dec_single ''sandbox_id'') [] body = Some k" "TrimSpace k \<noteq> []" "map_of (sandboxes (srv w)) k = Some a"
    | (unknown) k where "decodeJSON (dec_single ''sandbox_id'') [] body = Some k" "TrimSpace k \<noteq> []" "map_of (sandboxes (srv w)) k = None"
    | (bad) k where "decodeJSON (dec_single ''sandbox_id'') [] body = None \<or> decodeJSON (dec_single ''sandbox_id'') [] body = Some k \<and> TrimSpace k = []"
    by fastforce
  then show ?thesis
  proof cases
    case found
    have "wp (handleDestroy E body) (\<lambda>_ w'. destroyed k a (srv w) (srv w')) w"
      using wp_handleDestroy_found [OF ok found(3,1,2)] by (rule wp_mono) simp
    moreover have "wp (handleDestroy E body) (\<lambda>_ w'. running (host w') \<subseteq> owned (srv w) - set_option (sb_Process (heap (srv w) ! a))) w"
      using v unfolding vms_owned_def by (intro wp_handleDestroy_pids [OF ok found(3) works found(1,2)]) blast
    ultimately show ?thesis
      by (rule wp_mono [OF wp_conj]) (use owned_destroyed [OF ok found(3)] in \<open>unfold vms_owned_def, blast\<close>)
  next
    case unknown
    then show ?thesis using v handleDestroy_unknown [OF unknown] by (simp add: wp_def)
  next
    case bad
    then show ?thesis using v by (auto simp: handleDestroy_def wp_return)
  qed
qed

lemma vms_owned_on_host:
  assumes "owned (srv w') = owned (srv w)" "on_host tamed w w'" "vms_owned w"
  shows "vms_owned w'"
  using assms unfolding vms_owned_def on_host_def tamed_def by (blast intro: order_trans)

lemma wp_kept_owned:
  assumes "keeps (on_host tamed) m" "wp m (\<lambda>_ w'. owned (srv w') = owned (srv w)) w" "vms_owned w"
  shows "wp m (\<lambda>_. vms_owned) w"
  using wp_conj [OF assms(2) assms(1) [unfolded keeps_wp, rule_format, of w]]
  by (rule wp_mono) (blast intro: vms_owned_on_host assms(3))

lemma wp_handleSnapshotRestore_vms:
  assumes ok: "sandboxes_ok (srv w)" and n: "nextSandboxID (srv w) \<noteq> - 1" and v: "vms_owned w" and works: "kills_work E"
  shows "wp (handleSnapshotRestore E cfg body) (\<lambda>_. vms_owned) w"
proof -
  have mk: "wp (do { sid \<leftarrow> next_sandbox_id; r \<leftarrow> createSandboxFromUserSnapshot E cfg sid meta;
      case r of Inl e \<Rightarrow> return (server_error (Error e)) | Inr a \<Rightarrow> register a }) (\<lambda>_. vms_owned) (w\<lparr>host := h\<rparr>)"
    if "running h \<subseteq> owned (srv w)" for h meta
    using wp_create_vms [OF ok n, of "w\<lparr>host := h\<rparr>" "\<lambda>sid. createSandboxFromUserSnapshot E cfg sid meta", OF _ _ wp_createSandbox(2) wruns_create(2) [OF works]] that
    by (simp add: enrol_def)
  have load: "wp (onhost (loadUserSnapshotMeta E cfg sid)) (\<lambda>_ w1. \<exists>h. w1 = w\<lparr>host := h\<rparr> \<and> running h \<subseteq> owned (srv w)) w" for sid
    using v unfolding wp_onhost vms_owned_def
    by (intro wpI) (metis keepsD tamed_user(2) tamed_def order_trans)
  have same: "vms_owned (w\<lparr>host := h\<rparr>)" if "running h \<subseteq> owned (srv w)" for h
    using that by (simp add: vms_owned_def)
  show ?thesis
    unfolding handleSnapshotRestore_def wp_option wp_sum wp_return wp_bind [of "onhost _"]
    using v by (auto intro!: wp_mono [OF load] mk same split: option.split sum.split)
qed

lemma wp_serve_vms:
  assumes ok: "sandboxes_ok (srv w)" and n: "nextSandboxID (srv w) \<noteq> - 1" and v: "vms_owned w" and works: "kills_work E"
  shows "wp (serve E cfg q) (\<lambda>_. vms_owned) w"
proof (cases q)
  case Create
  have "wp (handleCreate E cfg) (\<lambda>_. vms_owned) w"
    using wp_create_vms [OF ok n, of w "createSandbox E cfg", OF _ _ wp_createSandbox(1) wruns_create(1) [OF works]] v
    by (simp add: handleCreate_def enrol_def vms_owned_def)
  with Create show ?thesis by simp
next
  case (Exec b)
  have "wp (handleExec E cfg b) (\<lambda>_ w'. owned (srv w') = owned (srv w)) w"
    by (rule wp_mono [OF wp_handleExec [OF ok]]) (rule owned_benign)
  with Exec show ?thesis using wp_kept_owned [OF tamed_exec _ v] by simp
next
  case (Destroy b)
  with wp_handleDestroy_vms [OF ok v works] show ?thesis by simp
next
  case (SnapshotCreate b)
  have "owned (srv w') = owned (srv w)" if "\<exists>m. benign (w\<lparr>srv := (srv w)\<lparr>nextSnapshotID := m\<rparr>\<rparr>) w'" for w'
    using that by (auto dest!: owned_benign simp: owned_def)
  then have "wp (handleSnapshotCreate E cfg b) (\<lambda>_ w'. owned (srv w') = owned (srv w)) w"
    by (rule wp_mono [OF wp_handleSnapshotCreate])
  with SnapshotCreate show ?thesis using wp_kept_owned [OF tamed_snapshots(1) _ v] by simp
next
  case (SnapshotRestore b)
  with wp_handleSnapshotRestore_vms [OF ok n v works] show ?thesis by simp
next
  case SnapshotList
  have "wp (handleSnapshotList E cfg) (\<lambda>_ w'. owned (srv w') = owned (srv w)) w"
    unfolding handleSnapshotList_def wp_bind wp_return by (rule wp_onhost_any) simp
  with SnapshotList show ?thesis using wp_kept_owned [OF tamed_snapshots(2) _ v] by simp
next
  case (SnapshotDelete b)
  have "wp (handleSnapshotDelete E cfg b) (\<lambda>_ w'. owned (srv w') = owned (srv w)) w"
    unfolding handleSnapshotDelete_def wp_bind wp_return wp_option wp_sum by (auto intro!: wp_onhost_any split: option.split sum.split)
  with SnapshotDelete show ?thesis using wp_kept_owned [OF tamed_snapshots(3) _ v] by simp
next
  case Healthz
  with v show ?thesis by (simp add: wp_return)
qed


section \<open>Shutting down\<close>

text \<open>What tearing one sandbox down does to the server, and which processes it leaves.\<close>

definition closed_at :: "nat \<Rightarrow> server \<Rightarrow> server \<Rightarrow> bool" where
  "closed_at a s s' \<longleftrightarrow> sandboxes s' = sandboxes s \<and> (\<exists>sb. sb_dead sb \<and> heap s' = (heap s)[a := sb])"

lemma wp_tear_down:
  assumes a: "a < length (heap (srv w))" and works: "kills_work E"
    and run: "running (host w) \<subseteq> P \<union> set_option (sb_Process (heap (srv w) ! a))"
    and R: "\<And>w'. closed_at a (srv w) (srv w') \<Longrightarrow> running (host w') \<subseteq> P \<Longrightarrow> R w'"
  shows "wp (begin_destroy a) (\<lambda>began. wp (if began then wait_drain E a else return True)
    (\<lambda>_. wp (cleanupSandbox E a) (\<lambda>_. wp (sb_modify a finishDestroy) (\<lambda>_. R)))) w"
proof -
  let ?s = "(srv w)\<lparr>heap := (heap (srv w))[a := snd (beginDestroy (heap (srv w) ! a))]\<rparr>"
  have s: "sb_Process (heap ?s ! a) = sb_Process (heap (srv w) ! a)" "a < length (heap ?s)"
    using a by (simp_all add: beginDestroy_def)
  have tear: "wp (cleanupSandbox E a) (\<lambda>_. wp (sb_modify a finishDestroy) (\<lambda>_. R)) w1"
    if w1: "srv w1 = ?s" "running (host w1) \<subseteq> P \<union> set_option (sb_Process (heap (srv w) ! a))" for w1
  proof -
    have "wp (cleanupSandbox E a) (\<lambda>_ w2. cleaned a ?s (srv w2)) w1"
      using wp_cleanupSandbox [of a w1 E] s w1(1) by simp
    moreover have "wp (cleanupSandbox E a) (\<lambda>_ w2. running (host w2) \<subseteq> P) w1"
      using w1 s(1) by (intro wp_cleanup_pids [OF works]) simp
    ultimately show ?thesis
    proof (rule wp_mono [OF wp_conj])
      fix x and w2 :: "'a world"
      assume c: "cleaned a ?s (srv w2) \<and> running (host w2) \<subseteq> P"
      from cleaned_closed [OF conjunct1 [OF c] s(2)]
      have "closed_at a (srv w) ((srv w2)\<lparr>heap := (heap (srv w2))[a := finishDestroy (heap (srv w2) ! a)]\<rparr>)"
        by (auto simp: closed_at_def Let_def)
      with c show "wp (sb_modify a finishDestroy) (\<lambda>_. R) w2" by (simp add: wp_sb R)
    qed
  qed
  have wait: "wp (wait_drain E a) (\<lambda>_. wp (cleanupSandbox E a) (\<lambda>_. wp (sb_modify a finishDestroy) (\<lambda>_. R))) (w\<lparr>srv := ?s\<rparr>)"
    unfolding wait_drain_def wp_bind wp_sb(1) wp_onhost
  proof (rule wpI)
    fix b h assume "run_state (waitForExecDrain E (\<lambda>_. currentInFlightExec (heap (srv (w\<lparr>srv := ?s\<rparr>)) ! a)) destroyExecDrainTimeout)
        (host (w\<lparr>srv := ?s\<rparr>)) = (b, h)"
    from keepsD [OF tamed_waits(4) this] have "running h \<subseteq> running (host w)" by (simp add: tamed_def)
    from order_trans [OF this run] show "wp (cleanupSandbox E a) (\<lambda>_. wp (sb_modify a finishDestroy) (\<lambda>_. R)) (w\<lparr>srv := ?s, host := h\<rparr>)"
      by (intro tear) simp_all
  qed
  show ?thesis
    using wait tear [of "w\<lparr>srv := ?s\<rparr>"] run by (simp add: begin_destroy_def wp_bind wp_sb wp_return)
qed

lemma wp_destroy_each:
  assumes "distinct as" "\<forall>a \<in> set as. a < length (heap (srv w))" "kills_work E"
    and "running (host w) \<subseteq> (\<Union>a \<in> set as. set_option (sb_Process (heap (srv w) ! a)))"
  shows "wp (destroy_each E as) (\<lambda>_ w'. sandboxes (srv w') = sandboxes (srv w) \<and> running (host w') = {} \<and>
    length (heap (srv w')) = length (heap (srv w)) \<and>
    (\<forall>a < length (heap (srv w)). if a \<in> set as then sb_dead (heap (srv w') ! a) else heap (srv w') ! a = heap (srv w) ! a)) w"
  using assms
proof (induction as arbitrary: w)
  case (Cons a as)
  let ?P = "\<Union>b \<in> set as. set_option (sb_Process (heap (srv w) ! b))"
  show ?case
    unfolding destroy_each.simps wp_bind
  proof (rule wp_tear_down [where P = ?P])
    show "running (host w) \<subseteq> ?P \<union> set_option (sb_Process (heap (srv w) ! a))" using Cons.prems(4) by (simp add: Un_commute)
  next
    fix w1 :: "'a world"
    assume c: "closed_at a (srv w) (srv w1)" and run: "running (host w1) \<subseteq> ?P"
    then obtain sb where sb: "sb_dead sb" "heap (srv w1) = (heap (srv w))[a := sb]" "sandboxes (srv w1) = sandboxes (srv w)"
      by (auto simp: closed_at_def)
    have "heap (srv w1) ! b = heap (srv w) ! b" if "b \<in> set as" for b
      using that Cons.prems(1) by (cases "b = a") (simp_all add: sb(2))
    then have "running (host w1) \<subseteq> (\<Union>b \<in> set as. set_option (sb_Process (heap (srv w1) ! b)))"
      using run by simp
    from wp_mono [OF Cons.IH [OF _ _ Cons.prems(3) this]] Cons.prems sb
    show "wp (destroy_each E as) (\<lambda>_ w'. sandboxes (srv w') = sandboxes (srv w) \<and> running (host w') = {} \<and>
        length (heap (srv w')) = length (heap (srv w)) \<and>
        (\<forall>b < length (heap (srv w)). if b \<in> set (a # as) then sb_dead (heap (srv w') ! b) else heap (srv w') ! b = heap (srv w) ! b)) w1"
      by (auto simp: nth_list_update split: if_splits)
  qed (use Cons.prems in simp_all)
qed (simp add: wp_return)

lemma map_addresses:
  assumes "sandboxes_ok s"
  shows "distinct (map snd (sandboxes s))" "a \<in> set (map snd (sandboxes s)) \<longleftrightarrow> (\<exists>k. map_of (sandboxes s) k = Some a)"
proof -
  have d: "distinct (map fst (sandboxes s))" using assms by (simp add: sandboxes_ok_def)
  then have m: "map_of (sandboxes s) k = Some b \<longleftrightarrow> (k, b) \<in> set (sandboxes s)" for k b
    by (simp add: map_of_eq_Some_iff)
  then show "a \<in> set (map snd (sandboxes s)) \<longleftrightarrow> (\<exists>k. map_of (sandboxes s) k = Some a)" by force
  have "inj_on snd (set (sandboxes s))"
  proof (rule inj_onI)
    fix x y assume xy: "x \<in> set (sandboxes s)" "y \<in> set (sandboxes s)" "snd x = snd y"
    then have "map_of (sandboxes s) (fst x) = Some (snd x)" "map_of (sandboxes s) (fst y) = Some (snd x)"
      unfolding m xy(3) by (simp_all add: xy(3) [symmetric]) (simp add: xy(3))
    from sandboxes_ok_same_address [OF assms this] xy(3) show "x = y" by (simp add: prod_eq_iff)
  qed
  with d show "distinct (map snd (sandboxes s))" by (simp add: distinct_map)
qed

lemma tamed_cleanup_each [tames]: "keeps tamed (cleanup_each E ncs)"
  by (induction E ncs rule: cleanup_each.induct) (auto intro!: tamed.keeps_rules tames)

text \<open>After the shutdown the map is empty, every sandbox is closed and no process is running.\<close>

definition shut :: "'x world \<Rightarrow> bool" where
  "shut w \<longleftrightarrow> sandboxes (srv w) = [] \<and> list_all sb_dead (heap (srv w)) \<and> running (host w) = {}"

lemma wp_destroyAll:
  assumes ok: "sandboxes_ok (srv w)" and v: "vms_owned w" and works: "kills_work E"
  shows "wp (destroyAll E) (\<lambda>_. shut) w"
proof -
  let ?as = "sort_key (e_rank E (ticks (host w))) (map snd (sandboxes (srv w)))"
  let ?w = "w\<lparr>srv := (srv w)\<lparr>sandboxes := []\<rparr>\<rparr>"
  have "owned (srv w) \<subseteq> (\<Union>a \<in> set (map snd (sandboxes (srv w))). set_option (sb_Process (heap (srv w) ! a)))"
    unfolding owned_def by (rule subsetI) (simp only: UN_iff Bex_def map_addresses(2) [OF ok], auto)
  from order_trans [OF v [unfolded vms_owned_def] this]
  have "running (host ?w) \<subseteq> (\<Union>a \<in> set ?as. set_option (sb_Process (heap (srv ?w) ! a)))"
    by simp
  moreover have "\<forall>a \<in> set ?as. a < length (heap (srv ?w))"
    using map_addresses(2) [OF ok] sandboxes_okD(1) [OF ok] by auto
  moreover have "distinct ?as" using map_addresses(1) [OF ok] by simp
  ultimately have each: "wp (destroy_each E ?as) (\<lambda>_ w'. sandboxes (srv w') = sandboxes (srv ?w) \<and> running (host w') = {} \<and>
    length (heap (srv w')) = length (heap (srv ?w)) \<and>
    (\<forall>a < length (heap (srv ?w)). if a \<in> set ?as then sb_dead (heap (srv w') ! a) else heap (srv w') ! a = heap (srv ?w) ! a)) ?w"
    using works by (intro wp_destroy_each)
  have dead: "sb_dead (heap (srv w) ! a)" if "a < length (heap (srv w))" "a \<notin> set (map snd (sandboxes (srv w)))" for a
    using ok that map_addresses(2) [OF ok, of a] by (auto simp: sandboxes_ok_def)
  show ?thesis
    unfolding destroyAll_def wp_bind wp_gets wp_modify_srv
    by (rule wp_mono [OF each]) (use dead in \<open>auto simp: shut_def list_all_length split: if_splits\<close>)
qed

lemma wp_shutdown:
  assumes ok: "sandboxes_ok (srv w)" and v: "vms_owned w" and works: "kills_work E"
  shows "wp (shutdown E) (\<lambda>_. shut) w"
proof -
  have "wp (if pool (srv w) \<noteq> None then pool_Destroy E else return ()) (\<lambda>_ w1. srv w1 = srv w \<and> on_host tamed w w1) w"
  proof (rule wpI)
    fix x w1 assume r: "run_state (if pool (srv w) \<noteq> None then pool_Destroy E else return ()) w = (x, w1)"
    have "keeps (on_host tamed) (if pool (srv w) \<noteq> None then pool_Destroy E else return ())"
      "keeps same_srv (if pool (srv w) \<noteq> None then pool_Destroy E else return ())"
      unfolding pool_Destroy_def gets_srv_def
      by (intro wtamed.keeps_rules tames) (intro same_srv.keeps_rules frames)
    from keepsD [OF this(1) r] keepsD [OF this(2) r] show "srv w1 = srv w \<and> on_host tamed w w1" by (simp add: same_srv_def)
  qed
  then show ?thesis
    unfolding shutdown_def wp_bind wp_gets_srv
    by (rule wp_mono) (use ok works in \<open>auto intro!: wp_destroyAll vms_owned_on_host [OF _ _ v]\<close>)
qed


section \<open>From the start to the shutdown\<close>

lemma tamed_stat_required [tames]: "keeps tamed (stat_required E ps)"
  by (induction E ps rule: stat_required.induct) (auto intro!: tamed.keeps_rules tames)

lemma tamed_config [tames]: "keeps tamed (loadConfig E P)" "keeps tamed (logStartupDiagnostics E cfg)"
  unfolding loadConfig_def computeFileSHA256_def detectDefaultInterface_def logStartupDiagnostics_def probeReflinkSupport_def Let_def
  by (intro tamed.keeps_rules tames)+

lemma tamed_ensurePreflight [tames]: "kills_work E \<Longrightarrow> keeps tamed (ensurePreflight E P cfg)"
  unfolding ensurePreflight_def by (intro tamed.keeps_rules tames)

lemma tamed_init_entries [tames]: "keeps (on_host tamed) (init_entries E i n)"
  by (induction E i n rule: init_entries.induct) (auto simp: update_pool_def Let_def intro!: wtamed.keeps_rules tames)

lemma tamed_start [tames]: "kills_work E \<Longrightarrow> keeps (on_host tamed) (start E P)"
  unfolding start_def pool_Init_def update_pool_def by (intro wtamed.keeps_rules tames)

definition ok_vms :: "'x world \<Rightarrow> bool" where
  "ok_vms w \<longleftrightarrow> sandboxes_ok (srv w) \<and> vms_owned w"

lemma wp_serve_requests_vms:
  assumes "ok_vms w" "unat (nextSandboxID (srv w)) + length rs < 2 ^ 64" "kills_work E"
  shows "wp (serve_requests E cfg rs) (\<lambda>_. ok_vms) w"
  using assms
proof (induction rs arbitrary: w)
  case (Cons q rs)
  have n: "nextSandboxID (srv w) \<noteq> - 1"
    using Cons.prems(2) by (auto simp: unsigned_minus_1_eq_mask mask_eq_exp_minus_1)
  have ok: "sandboxes_ok (srv w)" "vms_owned w" using Cons.prems(1) by (simp_all add: ok_vms_def)
  have "wp (serve_requests E cfg rs) (\<lambda>_. ok_vms) w1" if "kept (srv w) (srv w1) \<and> vms_owned w1" for w1
    using that Cons.prems(2,3) by (intro Cons.IH) (auto simp: kept_def ok_vms_def)
  then show ?case
    unfolding serve_requests.simps wp_bind wp_return
    by (rule wp_mono [OF wp_conj [OF wp_serve [OF ok(1) n] wp_serve_vms [OF ok(1) n ok(2) Cons.prems(3)]]])
qed (simp add: wp_return)

lemma wp_run_server_vms:
  assumes "length reqs < 2 ^ 64" "kills_work E" "running (host w) = {}"
  shows "wp (run_server E P reqs) (\<lambda>r w'. case r of Inl _ \<Rightarrow> True | Inr _ \<Rightarrow> ok_vms w') w"
proof -
  have "wp (serve_requests E cfg reqs) (\<lambda>_. ok_vms) w1"
    if "sandboxes_ok (srv w1)" "nextSandboxID (srv w1) = 0" "on_host tamed w w1" for w1 :: "'a world" and cfg
    using that assms by (intro wp_serve_requests_vms) (simp_all add: ok_vms_def vms_owned_def on_host_def tamed_def)
  moreover note wp_conj [OF wp_start [of E P w] tamed_start [OF assms(2), of P, unfolded keeps_wp, rule_format, of w]]
  ultimately show ?thesis
    unfolding run_server_def wp_bind wp_return wp_sum
    by (auto elim!: wp_mono simp: wp_return split: sum.splits)
qed


section \<open>Properties\<close>

text \<open>
  C4: No VM is orphaned. Started on a host where no child is running, after any sequence of
  requests and whatever fails on the host, every process of the server that is still running is the
  VM of a sandbox of the map: a creation or restore that fails at any stage has killed what it
  started, building the golden snapshot leaves nothing running, and a destroyed sandbox has no
  process left. (Killing a child's process group is assumed to succeed unless the group is gone.)
\<close>

theorem no_orphan_vms:
  assumes "run_state (run_server E P reqs) w = (Inr (cfg, replies), w')" "length reqs < 2 ^ 64"
    and "kills_work E" "running (host w) = {}"
  shows "running (host w') \<subseteq> owned (srv w')"
  using wp_run [OF wp_run_server_vms [OF assms(2-4)] assms(1)] by (simp add: ok_vms_def vms_owned_def)

text \<open>
  C5: After the server has shut down nothing of it is left: the map is empty, every sandbox that
  was ever made is closed, with its connection and namespace given back, and no process that it
  started is running.
\<close>

theorem shutdown_leaves_nothing:
  assumes "run_state (server_main E P reqs) w = (Inr (cfg, replies), w')" "length reqs < 2 ^ 64"
    and "kills_work E" "running (host w) = {}"
  shows "sandboxes (srv w') = [] \<and> list_all sb_dead (heap (srv w')) \<and> running (host w') = {}"
proof -
  obtain w1 where w1: "run_state (run_server E P reqs) w = (Inr (cfg, replies), w1)" "run_state (shutdown E) w1 = ((), w')"
    using assms(1) by (auto simp: server_main_def split: prod.splits sum.splits)
  have "ok_vms w1" using wp_run [OF wp_run_server_vms [OF assms(2-4)] w1(1)] by simp
  then show ?thesis
    using wp_run [OF wp_shutdown [OF _ _ assms(3)] w1(2)] by (simp add: ok_vms_def shut_def)
qed

lemma demo_kills: "kills_work demo_env"
  by (simp add: kills_work_def demo_env_def calm_env_def)

lemma demo_idle: "running (host demo_start) = {}"
  by (simp add: running_def demo_start_def demo_host_def blank_host_def)

theorem no_orphan_vms_witness:
  "\<exists>replies w'. run_state (run_server demo_env demo_process [Create, Create]) demo_start = (Inr (demo_config, replies), w') \<and>
    running (host w') \<subseteq> owned (srv w')"
proof -
  obtain replies w' where "run_state (run_server demo_env demo_process [Create, Create]) demo_start = (Inr (demo_config, replies), w')"
    using demo_runs by blast
  with no_orphan_vms [OF this _ demo_kills demo_idle] show ?thesis by simp
qed

theorem shutdown_leaves_nothing_witness:
  "\<exists>replies w'. run_state (server_main demo_env demo_process [Create, Create]) demo_start = (Inr (demo_config, replies), w') \<and>
    sandboxes (srv w') = [] \<and> running (host w') = {}"
proof -
  obtain replies w1 where w1: "run_state (run_server demo_env demo_process [Create, Create]) demo_start = (Inr (demo_config, replies), w1)"
    using demo_runs by blast
  obtain w' where "run_state (shutdown demo_env) w1 = ((), w')" by (metis old.unit.exhaust prod.exhaust)
  with w1 have "run_state (server_main demo_env demo_process [Create, Create]) demo_start = (Inr (demo_config, replies), w')"
    by (simp add: server_main_def)
  with shutdown_leaves_nothing [OF this _ demo_kills demo_idle] show ?thesis by simp
qed

end
