(* ===== verification/Http.thy ===== *)
theory Http
  imports Startup
begin

text \<open>
  The HTTP surface of the server: the routes of \<open>cmd/server/main.go\<close> with the routing rules of
  \<open>http.ServeMux\<close> (Go 1.22: a pattern is a method and a path, \<open>GET\<close> also matches \<open>HEAD\<close>, a path
  that is not clean is redirected, a known path with another method is refused with 405), and
  \<open>writeJSON\<close> of \<open>http_util.go\<close>, which prints the value a handler returns. The logging middleware
  only logs.
\<close>

section \<open>Routing\<close>

text \<open>\<open>cleanPath\<close> of \<open>net/http\<close>; the path is the escaped one of the URL.\<close>

definition cleanPath :: "string \<Rightarrow> string" where
  "cleanPath p0 =
    (if p0 = [] then ''/''
     else let p = (if hd p0 \<noteq> slash then slash # p0 else p0); np = Clean p in
       if last p = slash \<and> np \<noteq> ''/'' then np @ ''/'' else np)"

text \<open>\<open>pathUnescape\<close>: an invalid escape leaves the segment as it is.\<close>

fun unescape :: "string \<Rightarrow> string option" where
  "unescape [] = Some []"
| "unescape (c # s) =
    (if c = CHR 0x25 then
       (case s of
          a # b # s' \<Rightarrow>
            (case (hex_val a, hex_val b) of
               (Some x, Some y) \<Rightarrow> map_option (Cons (byte (16 * x + y))) (unescape s')
             | _ \<Rightarrow> None)
        | _ \<Rightarrow> None)
     else map_option (Cons c) (unescape s))"

definition pathUnescape :: "string \<Rightarrow> string" where
  "pathUnescape s = (case unescape s of Some t \<Rightarrow> t | None \<Rightarrow> s)"

text \<open>The segments of a path, as the routing tree walks them; a trailing slash is a segment of its own.\<close>

definition segments :: "string \<Rightarrow> string list" where
  "segments path =
    (if path = [] then []
     else let ps = split_slash (tl path) in
       map pathUnescape (butlast ps) @ [if last ps = [] then ''/'' else pathUnescape (last ps)])"

text \<open>The patterns \<open>main\<close> registers.\<close>

definition routes :: "(string \<times> string list \<times> (string \<Rightarrow> request)) list" where
  "routes =
    [(''POST'', [''create''], \<lambda>_. Create),
     (''POST'', [''exec''], Exec),
     (''POST'', [''destroy''], Destroy),
     (''POST'', [''snapshot'', ''create''], SnapshotCreate),
     (''POST'', [''snapshot'', ''restore''], SnapshotRestore),
     (''GET'', [''snapshot'', ''list''], \<lambda>_. SnapshotList),
     (''POST'', [''snapshot'', ''delete''], SnapshotDelete),
     (''GET'', [''healthz''], \<lambda>_. Healthz)]"

text \<open>
  What a client gets: a status with a body, a redirect to a path, or a connection that the server
  closes because the handler panicked.
\<close>

datatype answer = Answer int string | Moved string | Aborted

text \<open>A pattern with \<open>GET\<close> also matches \<open>HEAD\<close>.\<close>

definition wanted :: "string \<Rightarrow> string" where
  "wanted verb = (if verb = ''HEAD'' then ''GET'' else verb)"

definition route :: "string \<Rightarrow> string \<Rightarrow> string \<Rightarrow> answer + request" where
  "route verb path body =
    (let p = (if verb = ''CONNECT'' then path else cleanPath path) in
     if p \<noteq> path then Inl (Moved p)
     else case find (\<lambda>(v, s, _). v = wanted verb \<and> s = segments p) routes of
       Some (_, _, q) \<Rightarrow> Inr (q body)
     | None \<Rightarrow>
       if list_ex (\<lambda>(_, s, _). s = segments p) routes then Inl (Answer 405 (''Method Not Allowed'' @ [CHR 0x0A]))
       else Inl (Answer 404 (''404 page not found'' @ [CHR 0x0A])))"

definition writeJSON :: "reply \<Rightarrow> answer" where
  "writeJSON r = (case r of Reply st payload \<Rightarrow> Answer st (Marshal payload @ [CHR 0x0A]) | Panic \<Rightarrow> Aborted)"

text \<open>\<open>net/http\<close> does not send the body of an answer to \<open>HEAD\<close>.\<close>

fun without_body :: "answer \<Rightarrow> answer" where
  "without_body (Answer st _) = Answer st []"
| "without_body a = a"

definition http_handle :: "'x env \<Rightarrow> config \<Rightarrow> string \<Rightarrow> string \<Rightarrow> string \<Rightarrow> ('x world, answer) state" where
  "http_handle E cfg verb path body = do {
     a \<leftarrow> (case route verb path body of
         Inl a \<Rightarrow> return a
       | Inr q \<Rightarrow> do { r \<leftarrow> serve E cfg q; return (writeJSON r) });
     return (if verb = ''HEAD'' then without_body a else a)
   }"


section \<open>The routing table\<close>

text \<open>The routes as a table of methods and paths.\<close>

definition endpoints :: "string \<Rightarrow> (string \<times> string \<times> request) list" where
  "endpoints body =
    [(''POST'', ''/create'', Create), (''POST'', ''/exec'', Exec body), (''POST'', ''/destroy'', Destroy body),
     (''POST'', ''/snapshot/create'', SnapshotCreate body), (''POST'', ''/snapshot/restore'', SnapshotRestore body),
     (''GET'', ''/snapshot/list'', SnapshotList), (''POST'', ''/snapshot/delete'', SnapshotDelete body),
     (''GET'', ''/healthz'', Healthz)]"

lemma endpoints_routes: "endpoints body = map (\<lambda>(v, ss, f). (v, concat (map (Cons slash) ss), f body)) routes"
  by (simp add: endpoints_def routes_def)

lemma clean_endpoints:
  "cleanPath ''/create'' = ''/create''" "cleanPath ''/exec'' = ''/exec''" "cleanPath ''/destroy'' = ''/destroy''"
  "cleanPath ''/snapshot/create'' = ''/snapshot/create''" "cleanPath ''/snapshot/restore'' = ''/snapshot/restore''"
  "cleanPath ''/snapshot/list'' = ''/snapshot/list''" "cleanPath ''/snapshot/delete'' = ''/snapshot/delete''"
  "cleanPath ''/healthz'' = ''/healthz''"
  by code_simp+

lemma segment_endpoints:
  "segments ''/create'' = [''create'']" "segments ''/exec'' = [''exec'']" "segments ''/destroy'' = [''destroy'']"
  "segments ''/snapshot/create'' = [''snapshot'', ''create'']" "segments ''/snapshot/restore'' = [''snapshot'', ''restore'']"
  "segments ''/snapshot/list'' = [''snapshot'', ''list'']" "segments ''/snapshot/delete'' = [''snapshot'', ''delete'']"
  "segments ''/healthz'' = [''healthz'']"
  by code_simp+

lemma unescape_plain: "CHR 0x25 \<notin> set s \<Longrightarrow> unescape s = Some s"
  by (induction s) auto

lemma split_slash_join: "concat (map (Cons slash) (split_slash s)) = slash # s"
  by (induction s rule: split_slash.induct) (auto split: list.splits)

lemma split_slash_set: "e \<in> set (split_slash s) \<Longrightarrow> c \<in> set e \<Longrightarrow> c \<in> set (slash # s)"
proof -
  assume "e \<in> set (split_slash s)" "c \<in> set e"
  then have "c \<in> set (concat (map (Cons slash) (split_slash s)))" by auto
  then show ?thesis unfolding split_slash_join .
qed

text \<open>A path without escapes is determined by its segments.\<close>

lemma segments_join:
  assumes "CHR 0x25 \<notin> set p" "segments (slash # p) = ss" "''/'' \<notin> set ss"
  shows "slash # p = concat (map (Cons slash) ss)"
proof -
  let ?ps = "split_slash p"
  have "?ps \<noteq> []" using split_slash_join [of p] by auto
  then have ps: "?ps = butlast ?ps @ [last ?ps]" by simp
  have plain: "pathUnescape e = e" if "e \<in> set ?ps" for e
  proof -
    have "CHR 0x25 \<notin> set e" using split_slash_set [OF that] assms(1) by auto
    then show ?thesis by (simp add: pathUnescape_def unescape_plain)
  qed
  have "last ?ps \<noteq> []" using assms(2,3) by (auto simp: segments_def Let_def split: if_splits)
  then have "ss = map pathUnescape (butlast ?ps) @ [pathUnescape (last ?ps)]" using assms(2) by (simp add: segments_def Let_def)
  also have "\<dots> = map pathUnescape ?ps" by (subst (3) ps) simp
  also have "\<dots> = ?ps" by (rule map_idI) (rule plain)
  finally show ?thesis using split_slash_join [of p] by simp
qed

lemma cleanPath_rooted: "\<exists>p. cleanPath path = slash # p"
  by (auto simp: cleanPath_def Clean_def Let_def)

lemma wanted_iff: "wanted verb = ''POST'' \<longleftrightarrow> verb = ''POST''" "wanted verb = ''GET'' \<longleftrightarrow> verb = ''GET'' \<or> verb = ''HEAD''"
  by (auto simp: wanted_def)

lemma route_hit:
  assumes "cleanPath path = path" "segments path = ss" "verb \<noteq> ''CONNECT''"
    and "case find (\<lambda>(v, s, _). v = wanted verb \<and> s = ss) routes of Some (_, _, f) \<Rightarrow> f body = q | None \<Rightarrow> False"
  shows "route verb path body = Inr q"
  using assms by (auto simp: route_def Let_def split: option.splits)

lemma route_endpoints:
  "route ''POST'' ''/create'' body = Inr Create" "route ''POST'' ''/exec'' body = Inr (Exec body)"
  "route ''POST'' ''/destroy'' body = Inr (Destroy body)"
  "route ''POST'' ''/snapshot/create'' body = Inr (SnapshotCreate body)"
  "route ''POST'' ''/snapshot/restore'' body = Inr (SnapshotRestore body)"
  "route ''GET'' ''/snapshot/list'' body = Inr SnapshotList" "route ''HEAD'' ''/snapshot/list'' body = Inr SnapshotList"
  "route ''POST'' ''/snapshot/delete'' body = Inr (SnapshotDelete body)"
  "route ''GET'' ''/healthz'' body = Inr Healthz" "route ''HEAD'' ''/healthz'' body = Inr Healthz"
  by (rule route_hit, rule clean_endpoints, rule segment_endpoints, simp, simp add: routes_def wanted_def)+

text \<open>
  The routing table: a request whose path has no escapes reaches a handler if and only if its
  method and path are one of the eight endpoints, \<open>HEAD\<close> counting as \<open>GET\<close>; the handler then gets
  the body of the request.
\<close>

lemma route_table:
  assumes "CHR 0x25 \<notin> set path"
  shows "route verb path body = Inr q \<longleftrightarrow> (wanted verb, path, q) \<in> set (endpoints body)"
proof
  assume r: "route verb path body = Inr q"
  from r obtain v ss f where f: "find (\<lambda>(v, s, _). v = wanted verb \<and> s = segments path) routes = Some (v, ss, f)" "q = f body"
    and clean: "verb = ''CONNECT'' \<or> cleanPath path = path"
    by (auto simp: route_def Let_def split: if_splits option.splits)
  from f(1) have m: "(v, ss, f) \<in> set routes" "v = wanted verb" "ss = segments path" by (auto simp: find_Some_iff dest: nth_mem)
  then have "verb \<noteq> ''CONNECT''" by (auto simp: routes_def wanted_def)
  with clean obtain p where p: "path = slash # p" using cleanPath_rooted by metis
  have "''/'' \<notin> set ss" using m(1) by (auto simp: routes_def)
  with segments_join [of p ss] p assms m(3) have path: "path = concat (map (Cons slash) ss)" by simp
  show "(wanted verb, path, q) \<in> set (endpoints body)"
    unfolding endpoints_routes set_map by (rule image_eqI [OF _ m(1)]) (simp add: path f(2) m(2))
next
  assume "(wanted verb, path, q) \<in> set (endpoints body)"
  then show "route verb path body = Inr q"
    unfolding endpoints_def list.set insert_iff empty_iff prod.inject wanted_iff by (elim disjE conjE; simp only: route_endpoints)
qed

end
