(* ===== verification/Go_Float.thy ===== *)
theory Go_Float
  imports Complex_Main "HOL-Library.Log_Nat"
begin

text \<open>
  The floating-point arithmetic of the benchmarks: Go's \<open>float64\<close> is IEEE 754 binary64, every
  operation rounding to the nearest number with a 53-bit significand, ties to even. The programs
  compute \<open>int(float64(n) * p)\<close> for a length \<open>n\<close> and a constant \<open>p\<close>, \<open>1/2 \<le> p < 1\<close>, whose
  nearest double is \<open>m / 2 ^ 53\<close> for an integer \<open>m\<close>. Neither subnormal numbers nor overflow can
  occur, so rounding is that of integers in units of \<open>2 ^ -53\<close>.
\<close>

definition round53 :: "int \<Rightarrow> int" where
  "round53 x =
    (let u = 2 ^ nat (bitlen x - 53); q = x div u; r = x mod u in
     if 2 * r < u \<or> 2 * r = u \<and> even q then q * u else (q + 1) * u)"

text \<open>\<open>int(float64(n) * p)\<close> for \<open>p = m / 2 ^ 53\<close>.\<close>

definition float_index :: "int \<Rightarrow> int \<Rightarrow> int" where
  "float_index m n = round53 (round53 n * m) div 2 ^ 53"

text \<open>The doubles nearest to 0.50, 0.95 and 0.99.\<close>

definition p50 :: int where "p50 = 4503599627370496"
definition p95 :: int where "p95 = 8556839292003942"
definition p99 :: int where "p99 = 8917127262193582"

lemma nearest_doubles:
  "2 * p50 = 2 ^ 53" "100 * p95 = 95 * 2 ^ 53 - 40" "100 * p99 = 99 * 2 ^ 53 - 8"
  by (simp_all add: p50_def p95_def p99_def)

lemma bitlen_power: "0 < x \<Longrightarrow> 2 ^ nat (bitlen x - 1) \<le> x \<and> x < 2 ^ nat (bitlen x)"
  using bitlen_bounds [of x] bitlen_nonneg [of x] by simp

lemma round53_id: "0 \<le> x \<Longrightarrow> x < 2 ^ 53 \<Longrightarrow> round53 x = x"
  using bitlen_le_iff_power [of x 53] by (simp add: round53_def Let_def)

lemma unit_bound:
  assumes "0 < x" "2 ^ 53 \<le> x"
  shows "2 ^ nat (bitlen x - 53) * 2 ^ 52 \<le> x" "x < 2 ^ nat (bitlen x - 53) * 2 ^ 53"
proof -
  have "53 < bitlen x" using bitlen_le_iff_power [of x 53] assms by (simp add: not_le [symmetric])
  then have "nat (bitlen x - 1) = nat (bitlen x - 53) + 52" "nat (bitlen x) = nat (bitlen x - 53) + 53" by simp_all
  then show "2 ^ nat (bitlen x - 53) * 2 ^ 52 \<le> x" "x < 2 ^ nat (bitlen x - 53) * 2 ^ 53"
    using bitlen_power [OF assms(1)] by (simp_all only: power_add)
qed

text \<open>The result is within half a unit in the last place.\<close>

lemma round53_near:
  assumes "0 \<le> x"
  shows "\<bar>round53 x - x\<bar> * 2 ^ 53 \<le> x"
proof (cases "x < 2 ^ 53")
  case True
  with assms show ?thesis by (simp add: round53_id)
next
  case False
  define u :: int where "u = 2 ^ nat (bitlen x - 53)"
  have u: "0 < u" by (simp add: u_def)
  define q r where "q = x div u" and "r = x mod u"
  have x: "x = q * u + r" "0 \<le> r" "r < u" using u by (simp_all add: q_def r_def)
  have "u * 2 ^ 52 \<le> x" using unit_bound(1) [of x] False by (simp add: u_def)
  moreover have "2 * \<bar>round53 x - x\<bar> \<le> u"
    unfolding round53_def u_def [symmetric] Let_def q_def [symmetric] r_def [symmetric] using x(2,3)
    by (auto simp: x(1) distrib_right)
  ultimately show ?thesis by simp
qed

lemma round53_multiple: "2 ^ nat (bitlen x - 53) dvd x \<Longrightarrow> round53 x = x"
  by (simp add: round53_def Let_def)

text \<open>A multiple of the unit that is less than half a unit above is the result.\<close>

lemma round53_up:
  assumes "2 ^ 53 \<le> x" "x < v" "2 ^ nat (bitlen x - 53) dvd v" "2 * (v - x) < 2 ^ nat (bitlen x - 53)"
  shows "round53 x = v"
proof -
  define u :: int where "u = 2 ^ nat (bitlen x - 53)"
  have u: "0 < u" by (simp add: u_def)
  obtain w where w: "v = u * w" using assms(3) by (auto simp: u_def)
  have "x = (w - 1) * u + (u - (v - x))" "0 \<le> u - (v - x)" "u - (v - x) < u"
    using assms(2,4) by (simp_all add: w u_def [symmetric] algebra_simps)
  then have "x div u = w - 1" "x mod u = u - (v - x)"
    using u by (metis add_0 div_mult_self3 div_pos_pos_trivial less_irrefl add.commute, metis mod_mult_self3 mod_pos_pos_trivial)
  then show ?thesis
    using assms(4) unfolding round53_def u_def [symmetric] Let_def by (auto simp: w)
qed

text \<open>
  The index is exact: for \<open>p = c / 100\<close> whose double is short of it by \<open>e / (100 * 2 ^ 53)\<close>, the
  two roundings and the truncation give \<open>n * c div 100\<close>.
\<close>

lemma unit_dvd:
  assumes "0 \<le> x" "x < 2 ^ 98"
  shows "2 ^ nat (bitlen x - 53) dvd v * (2 ^ 53 :: int)"
proof -
  have "bitlen x \<le> 98" using bitlen_le_iff_power [of x 98] assms by simp
  then show ?thesis by (intro dvd_mult le_imp_power_dvd) simp
qed

lemma shortfall:
  assumes "0 \<le> n" "90 * n \<le> y" "x < u * 2 ^ 53" "y = 100 * v" "z \<le> 40 * n" "100 * x = y * 2 ^ 53 - z"
  shows "2 * (v * 2 ^ 53 - x) < (u :: int)"
  using assms by simp

lemma float_index_exact:
  assumes n: "0 \<le> n" "n < 2 ^ 45" and m: "100 * m = c * 2 ^ 53 - e" "0 \<le> e" "e \<le> 40" "50 \<le> c" "c < 100"
    and short: "e = 0 \<or> 90 \<le> c \<and> n * c \<noteq> 100"
  shows "float_index m n = n * c div 100"
proof -
  define x where "x = n * m"
  define v where "v = n * c div 100"
  define t where "t = n * c mod 100"
  have t: "n * c = 100 * v + t" "0 \<le> t" "t < 100" by (simp_all add: v_def t_def)
  have x100: "100 * x = n * c * 2 ^ 53 - n * e"
    using arg_cong [OF m(1), of "\<lambda>y. n * y"] by (simp add: x_def algebra_simps)
  have ne: "0 \<le> n * e" "n * e \<le> 40 * n" using n(1) m(2,3) mult_left_mono [of e 40 n] by simp_all
  have nc: "50 * n \<le> n * c" "n * c \<le> 99 * n" using n(1) m(4,5) mult_left_mono [of 50 c n] mult_left_mono [of c 99 n] by simp_all
  have x0: "0 \<le> x" "x \<le> n * 2 ^ 53" using x100 ne nc n by simp_all
  have x1: "x < 2 ^ 98" using x0(2) n(2) by simp
  have "round53 x div 2 ^ 53 = v"
  proof (cases "t = 0")
    case True
    then have v: "100 * (v * 2 ^ 53) = 100 * x + n * e" using x100 t(1) by simp
    have "round53 x = v * 2 ^ 53"
    proof (cases "n * e = 0")
      case True
      then have "x = v * 2 ^ 53" using v by (simp del: mult_eq_0_iff)
      with unit_dvd [OF x0(1) x1, of v] show ?thesis by (simp add: round53_multiple)
    next
      case False
      with ne(1) have "0 < n * e" by linarith
      moreover have "n \<noteq> 0" "e \<noteq> 0" using False by simp_all
      ultimately have pos: "0 < n" "0 < n * e" "e \<noteq> 0" using n(1) by simp_all
      have "v \<noteq> 1" "0 < v" using short pos t(1) \<open>t = 0\<close> nc by auto
      then have "2 \<le> v" by simp
      then have big: "2 ^ 53 \<le> x" using v ne n by simp
      have "90 * n \<le> n * c" using short pos mult_left_mono [of 90 c n] by simp
      then have "2 * (v * 2 ^ 53 - x) < 2 ^ nat (bitlen x - 53)"
        using unit_bound(2) [OF _ big] big t(1) \<open>t = 0\<close> ne(2) x100 n(1) by (intro shortfall [of n "n * c"]) simp_all
      then show ?thesis
        using v pos unit_dvd [OF x0(1) x1] by (intro round53_up [OF big]) simp_all
    qed
    then show ?thesis by simp
  next
    case False
    have near: "round53 x - x \<le> n" "x - round53 x \<le> n"
      using order_trans [OF round53_near [OF x0(1)] x0(2)] by (simp_all only: mult_le_cancel_right) simp_all
    have "v * 2 ^ 53 \<le> round53 x" "round53 x < (v + 1) * 2 ^ 53"
      using near x100 t ne n False by simp_all
    then show ?thesis by (intro int_div_pos_eq [where r = "round53 x - v * 2 ^ 53"]) simp_all
  qed
  then show ?thesis
    using n by (simp add: float_index_def round53_id x_def v_def)
qed

lemma float_index_percent:
  assumes "0 \<le> n" "n < 2 ^ 45"
  shows "float_index p50 n = n * 50 div 100" "float_index p95 n = n * 95 div 100" "float_index p99 n = n * 99 div 100"
proof -
  have "n * 95 \<noteq> 100" "n * 99 \<noteq> 100" by presburger+
  with assms nearest_doubles float_index_exact [of n p50 50 0] float_index_exact [of n p95 95 40] float_index_exact [of n p99 99 8]
  show "float_index p50 n = n * 50 div 100" "float_index p95 n = n * 95 div 100" "float_index p99 n = n * 99 div 100"
    by simp_all
qed

end
