(* ===== verification/Bench.thy ===== *)
theory Bench
  imports Agentrpc Go_Float
begin

text \<open>
  \<open>cmd/bench/main.go\<close>: the benchmark that creates a sandbox, runs a command in it and destroys
  it, over HTTP, and prints percentiles of the time it took.

  \<open>client\<close> collects what the program gets from outside: \<open>http.Client.Do\<close> (the status, and the
  body or the error of reading it), the clock, standard output, and whether \<open>net/url\<close> parses an
  endpoint. \<open>main\<close> makes its HTTP client from the timeout it is given, so the programs take a
  \<open>client\<close> for each timeout; a request that takes longer is one that \<open>c_Do\<close> answers with an error.
  A result of \<open>http.NewRequest\<close> is used without looking at its error: with an
  endpoint that does not parse the first request is a nil pointer and the program panics. The
  functions below model the calls with an endpoint that parses, \<open>bench_main\<close> has the panic.
  What is printed on standard error is not modelled.
\<close>

section \<open>The client\<close>

record 's client =
  c_Do :: "string \<Rightarrow> string \<Rightarrow> string \<Rightarrow> ('s, (int \<times> string res) res) state"
  c_Now :: "('s, int) state"
  c_Write :: "string \<Rightarrow> ('s, goerr option) state"
  c_URL :: "string \<Rightarrow> bool"

text \<open>\<open>time.Since\<close> saturates.\<close>

definition time_Since :: "int \<Rightarrow> int \<Rightarrow> int" where
  "time_Since start now = max (- (2 ^ 63)) (min (2 ^ 63 - 1) (now - start))"

definition bench_doJSON :: "'s client \<Rightarrow> string \<Rightarrow> string \<Rightarrow> string \<Rightarrow> ('s, string res) state" where
  "bench_doJSON C verb url body = do {
     r \<leftarrow> c_Do C verb url body;
     return (case r of
         Inl e \<Rightarrow> Inl e
       | Inr (st, rd) \<Rightarrow>
         (case rd of
            Inl e \<Rightarrow> Inl e
          | Inr raw \<Rightarrow>
            if st < 200 \<or> st \<ge> 300 then Inl (ErrMsg (''status '' @ itoa st @ '' body='' @ TrimSpace raw)) else Inr raw))
   }"

record createResponse =
  cr_SandboxID :: string
  cr_Error :: string

definition dec_createResponse :: "createResponse decoder" where
  "dec_createResponse = dec_struct False
    [(''sandbox_id'', field cr_SandboxID cr_SandboxID_update dec_string),
     (''error'', field cr_Error cr_Error_update dec_string)]"

definition zero_createResponse :: createResponse where
  "zero_createResponse = \<lparr>cr_SandboxID = [], cr_Error = []\<rparr>"

record execResponse =
  xs_Stdout :: string
  xs_Stderr :: string
  xs_ExitCode :: int
  xs_Error :: string

definition dec_execResponse :: "execResponse decoder" where
  "dec_execResponse = dec_struct False
    [(''stdout'', field xs_Stdout xs_Stdout_update dec_string),
     (''stderr'', field xs_Stderr xs_Stderr_update dec_string),
     (''exit_code'', field xs_ExitCode xs_ExitCode_update dec_int),
     (''error'', field xs_Error xs_Error_update dec_string)]"

definition zero_execResponse :: execResponse where
  "zero_execResponse = \<lparr>xs_Stdout = [], xs_Stderr = [], xs_ExitCode = 0, xs_Error = []\<rparr>"

record destroyResponse =
  dr_Status :: string
  dr_Error :: string

definition dec_destroyResponse :: "destroyResponse decoder" where
  "dec_destroyResponse = dec_struct False
    [(''status'', field dr_Status dr_Status_update dec_string),
     (''error'', field dr_Error dr_Error_update dec_string)]"

definition zero_destroyResponse :: destroyResponse where
  "zero_destroyResponse = \<lparr>dr_Status = [], dr_Error = []\<rparr>"

text \<open>The error of \<open>json.Unmarshal\<close> with the offending body.\<close>

definition decode_error :: "string \<Rightarrow> string \<Rightarrow> goerr" where
  "decode_error what raw = Wrap (''decode '' @ what @ '' response: '') json_error ('' (body='' @ Quote (TrimSpace raw) @ '')'')"

text \<open>The body of a request that names a sandbox.\<close>

definition sandbox_body :: "string \<Rightarrow> string" where
  "sandbox_body sid = Marshal (JObj [(''sandbox_id'', JStr sid)])"

definition exec_body :: "string \<Rightarrow> string \<Rightarrow> string" where
  "exec_body sid cmd = Marshal (JObj [(''cmd'', JStr cmd), (''sandbox_id'', JStr sid)])"


section \<open>One run\<close>

text \<open>The closure \<open>destroy\<close> of \<open>runOnce\<close>.\<close>

definition bench_destroy :: "'s client \<Rightarrow> string \<Rightarrow> string \<Rightarrow> ('s, goerr option) state" where
  "bench_destroy C endpoint sid = do {
     r \<leftarrow> bench_doJSON C ''POST'' (endpoint @ ''/destroy'') (sandbox_body sid);
     return (case r of
         Inl e \<Rightarrow> Some e
       | Inr raw \<Rightarrow>
         (case Unmarshal dec_destroyResponse zero_destroyResponse raw of
            None \<Rightarrow> Some (decode_error ''destroy'' raw)
          | Some resp \<Rightarrow> if dr_Error resp \<noteq> [] then Some (ErrMsg (dr_Error resp)) else None))
   }"

text \<open>\<open>runOnce\<close> from the request to run the command on.\<close>

definition bench_measure :: "'s client \<Rightarrow> string \<Rightarrow> string \<Rightarrow> int \<Rightarrow> string \<Rightarrow> ('s, int res) state" where
  "bench_measure C endpoint cmd start sid = do {
     execRaw \<leftarrow> bench_doJSON C ''POST'' (endpoint @ ''/exec'') (exec_body sid cmd);
     case execRaw of
       Inl e \<Rightarrow> do { _ \<leftarrow> bench_destroy C endpoint sid; return (Inl (wrap ''exec request: '' e)) }
     | Inr raw \<Rightarrow>
     (case Unmarshal dec_execResponse zero_execResponse raw of
        None \<Rightarrow> do { _ \<leftarrow> bench_destroy C endpoint sid; return (Inl (wrap ''decode exec response: '' json_error)) }
      | Some execResp \<Rightarrow>
     if xs_Error execResp \<noteq> []
     then do { _ \<leftarrow> bench_destroy C endpoint sid; return (Inl (ErrMsg (''exec failed: '' @ xs_Error execResp))) }
     else do {
       now \<leftarrow> c_Now C;
       d \<leftarrow> bench_destroy C endpoint sid;
       return (case d of Some e \<Rightarrow> Inl (wrap ''destroy failed: '' e) | None \<Rightarrow> Inr (time_Since start now))
     })
   }"

definition bench_runOnce :: "'s client \<Rightarrow> string \<Rightarrow> string \<Rightarrow> ('s, int res) state" where
  "bench_runOnce C endpoint cmd = do {
     start \<leftarrow> c_Now C;
     createRaw \<leftarrow> bench_doJSON C ''POST'' (endpoint @ ''/create'') [];
     case createRaw of Inl e \<Rightarrow> return (Inl (wrap ''create request: '' e)) | Inr raw \<Rightarrow>
     (case Unmarshal dec_createResponse zero_createResponse raw of
        None \<Rightarrow> return (Inl (decode_error ''create'' raw))
      | Some createResp \<Rightarrow>
     if cr_Error createResp \<noteq> [] \<or> cr_SandboxID createResp = []
     then return (Inl (ErrMsg (''create failed: error='' @ Quote (TrimSpace (cr_Error createResp)) @ '' sandbox_id='' @
       Quote (cr_SandboxID createResp) @ '' body='' @ Quote (TrimSpace raw))))
     else bench_measure C endpoint cmd start (cr_SandboxID createResp))
   }"


section \<open>The program\<close>

text \<open>\<open>percentile\<close>; the \<open>float64\<close> argument is given by its significand, see theory Go_Float.\<close>

definition bench_percentile :: "int list \<Rightarrow> int \<Rightarrow> int" where
  "bench_percentile values p =
    (if values = [] then 0
     else let idx0 = float_index p (int (length values) - 1);
              idx1 = (if idx0 < 0 then 0 else idx0);
              idx = (if idx1 \<ge> int (length values) then int (length values) - 1 else idx1)
          in values ! nat idx)"

text \<open>The map \<open>summary\<close> of \<open>main\<close>, which \<open>encoding/json\<close> prints in the order of its keys.\<close>

definition bench_summary :: "int \<Rightarrow> int list \<Rightarrow> json" where
  "bench_summary iterations durations = JObj
    [(''iterations_requested'', JNum (itoa iterations)),
     (''iterations_success'', JNum (itoa (int (length durations)))),
     (''max_ns'', JNum (itoa (last durations))),
     (''min_ns'', JNum (itoa (hd durations))),
     (''p50_ns'', JNum (itoa (bench_percentile durations p50))),
     (''p95_ns'', JNum (itoa (bench_percentile durations p95))),
     (''p99_ns'', JNum (itoa (bench_percentile durations p99)))]"

fun bench_warmup :: "'s client \<Rightarrow> string \<Rightarrow> string \<Rightarrow> nat \<Rightarrow> ('s, unit) state" where
  "bench_warmup C base cmd 0 = return ()"
| "bench_warmup C base cmd (Suc n) = do { _ \<leftarrow> bench_runOnce C base cmd; bench_warmup C base cmd n }"

fun bench_runs :: "'s client \<Rightarrow> string \<Rightarrow> string \<Rightarrow> nat \<Rightarrow> ('s, int list) state" where
  "bench_runs C base cmd 0 = return []"
| "bench_runs C base cmd (Suc n) = do {
     r \<leftarrow> bench_runOnce C base cmd;
     rs \<leftarrow> bench_runs C base cmd n;
     return (case r of Inl _ \<Rightarrow> rs | Inr d \<Rightarrow> d # rs)
   }"

text \<open>\<open>make([]T, 0, n)\<close> panics for a negative capacity and for one beyond the address space.\<close>

definition make_panics :: "int \<Rightarrow> int \<Rightarrow> bool" where
  "make_panics elem n \<longleftrightarrow> n < 0 \<or> elem * n > 2 ^ 48"

text \<open>How the program ends: a panic, or an exit status with what it has printed.\<close>

datatype outcome = Crash | Exit int "string option"

record bench_flags =
  bf_endpoint :: string
  bf_iterations :: int
  bf_warmup :: int
  bf_cmd :: string
  bf_timeout :: int

definition TrimRight_slash :: "string \<Rightarrow> string" where
  "TrimRight_slash s = rev (dropWhile (\<lambda>c. c = CHR ''/'') (rev s))"

definition bench_print :: "'s client \<Rightarrow> json \<Rightarrow> ('s, outcome) state" where
  "bench_print C summary = (let out = Marshal summary @ [CHR 0x0A] in do {
     w \<leftarrow> c_Write C out;
     return (case w of Some _ \<Rightarrow> Exit 1 None | None \<Rightarrow> Exit 0 (Some out))
   })"

definition bench_main :: "(int \<Rightarrow> 's client) \<Rightarrow> bench_flags \<Rightarrow> ('s, outcome) state" where
  "bench_main http_Client fl =
    (let C = http_Client (bf_timeout fl); base = TrimRight_slash (bf_endpoint fl) in
     if \<not> c_URL C base \<and> (bf_warmup fl > 0 \<or> bf_iterations fl > 0) then return Crash
     else do {
       bench_warmup C base (bf_cmd fl) (nat (bf_warmup fl));
       if make_panics 8 (bf_iterations fl) then return Crash
       else do {
         results \<leftarrow> bench_runs C base (bf_cmd fl) (nat (bf_iterations fl));
         if results = [] then return (Exit 1 None)
         else bench_print C (bench_summary (bf_iterations fl) (sort results))
       }
     })"


section \<open>The percentiles are exact\<close>

text \<open>The value a share of \<open>c\<close> percent of the others do not exceed, by the exact index.\<close>

definition rank :: "nat \<Rightarrow> int list \<Rightarrow> int" where
  "rank c xs = xs ! ((length xs - 1) * c div 100)"

lemma rank_index: "c \<le> d \<Longrightarrow> d \<le> 100 \<Longrightarrow> n * c div 100 \<le> n * d div 100 \<and> n * d div 100 \<le> (n::nat)"
  using div_le_mono [of "n * c" "n * d" 100] div_le_mono [of "n * d" "n * 100" 100] by simp

lemma bench_percentile_rank:
  assumes n: "length xs = Suc n" and idx: "float_index p (int n) = int n * int c div 100" and c: "c \<le> 100"
  shows "bench_percentile xs p = rank c xs"
proof -
  have "float_index p (int n) = int (n * c div 100)" using idx by (simp add: zdiv_int)
  moreover have "n * c div 100 \<le> n" using rank_index [of c c] c by simp
  moreover have "xs \<noteq> []" using n by auto
  ultimately show ?thesis by (simp add: bench_percentile_def rank_def Let_def n)
qed

lemma bench_percentiles:
  assumes "xs \<noteq> []" "length xs \<le> 2 ^ 45"
  shows "bench_percentile xs p50 = rank 50 xs" "bench_percentile xs p95 = rank 95 xs" "bench_percentile xs p99 = rank 99 xs"
proof -
  obtain n where n: "length xs = Suc n" using assms(1) by (cases xs) simp_all
  then have "int n < 2 ^ 45" using assms(2) by simp
  from float_index_percent [OF _ this] bench_percentile_rank [OF n]
  show "bench_percentile xs p50 = rank 50 xs" "bench_percentile xs p95 = rank 95 xs" "bench_percentile xs p99 = rank 99 xs"
    by simp_all
qed

lemma rank_mono:
  assumes "sorted xs" "xs \<noteq> []" "c \<le> d" "d \<le> 100"
  shows "hd xs \<le> rank c xs" "rank c xs \<le> rank d xs" "rank d xs \<le> last xs"
proof -
  obtain n where n: "length xs = Suc n" using assms(2) by (cases xs) simp_all
  show "hd xs \<le> rank c xs" "rank c xs \<le> rank d xs" "rank d xs \<le> last xs"
    using assms(1,2) rank_index [OF assms(3,4), of n] by (auto simp: rank_def hd_conv_nth last_conv_nth n intro!: sorted_nth_mono)
qed

lemma bench_runs_length: "returns (bench_runs C base cmd n) (\<lambda>rs. length rs \<le> n)"
proof (induction n)
  case (Suc n)
  have "length (case r of Inl _ \<Rightarrow> rs | Inr d \<Rightarrow> d # rs) \<le> Suc n" if "length rs \<le> n" for r :: "int res" and rs
    using that by (cases r) simp_all
  with Suc show ?case by (auto simp: returns_def split: prod.splits)
qed (simp add: returns_def)



text \<open>
  C19: What the benchmark prints is right. When it exits with status 0 it has printed a summary of
  the successful runs, at least one and at most as many as were asked for: its smallest and largest
  time, and the 50th, 95th and 99th percentile, each of them the element of the sorted times at the
  exact index \<open>(n - 1) * p div 100\<close>. The index is computed with floating-point numbers, twice
  rounded and then truncated, from the doubles nearest to 0.95 and 0.99, which are both smaller;
  no number of runs the program can hold makes it go wrong. The five times are in order.
\<close>

theorem bench_output:
  assumes "run_state (bench_main http_Client fl) s = (Exit 0 (Some out), s')"
  shows "\<exists>results. let xs = sort results in
    results \<noteq> [] \<and> int (length results) \<le> bf_iterations fl \<and>
    out = Marshal (JObj
      [(''iterations_requested'', JNum (itoa (bf_iterations fl))),
       (''iterations_success'', JNum (itoa (int (length results)))),
       (''max_ns'', JNum (itoa (last xs))), (''min_ns'', JNum (itoa (hd xs))),
       (''p50_ns'', JNum (itoa (rank 50 xs))), (''p95_ns'', JNum (itoa (rank 95 xs))),
       (''p99_ns'', JNum (itoa (rank 99 xs)))]) @ [CHR 0x0A] \<and>
    hd xs \<le> rank 50 xs \<and> rank 50 xs \<le> rank 95 xs \<and> rank 95 xs \<le> rank 99 xs \<and> rank 99 xs \<le> last xs"
proof -
  let ?base = "TrimRight_slash (bf_endpoint fl)"
  obtain results s1 s2 where r: "run_state (bench_runs (http_Client (bf_timeout fl)) ?base (bf_cmd fl) (nat (bf_iterations fl))) s1 = (results, s2)"
    and m: "\<not> make_panics 8 (bf_iterations fl)" "results \<noteq> []"
    and out: "out = Marshal (bench_summary (bf_iterations fl) (sort results)) @ [CHR 0x0A]"
    using assms by (auto simp: bench_main_def bench_print_def Let_def split: if_splits prod.splits option.splits)
  have len: "int (length results) \<le> bf_iterations fl" "8 * bf_iterations fl \<le> 2 ^ 48"
    using returnsD [OF bench_runs_length r] m(1) by (simp_all add: make_panics_def le_nat_iff)
  then have "length (sort results) \<le> 2 ^ 45" by simp
  moreover have "sort results \<noteq> []" using m(2) by (metis set_empty set_sort)
  ultimately show ?thesis
    using m(2) len(1) rank_mono(1) [of "sort results" 50 50] rank_mono(2) [of "sort results"] rank_mono(3) [of "sort results" 99 99]
    by (intro exI [of _ results]) (simp add: out bench_summary_def bench_percentiles Let_def)
qed

text \<open>A server that creates one sandbox, answers the command and destroys it, one second each.\<close>

definition demo_client :: "int client" where
  "demo_client = \<lparr>
     c_Do = (\<lambda>verb url body. State (\<lambda>t. (Inr (200, Inr (Marshal (if url = ''s/create'' then JObj [(''sandbox_id'', JStr ''sb-1'')]
        else if url = ''s/snapshot/create'' then JObj [(''snapshot_id'', JStr ''us-1'')]
        else if url = ''s/snapshot/restore'' then JObj [(''sandbox_id'', JStr ''sb-2'')]
        else if url = ''s/exec'' then JObj [(''stdout'', JStr ''hi''), (''exit_code'', JNum ''0'')] else JObj [(''status'', JStr ''ok'')]))), t + 1000))),
     c_Now = gets (\<lambda>t. t), c_Write = (\<lambda>_. return None), c_URL = (\<lambda>_. True)\<rparr>"

definition demo_flags :: bench_flags where
  "demo_flags = \<lparr>bf_endpoint = ''s/'', bf_iterations = 2, bf_warmup = 1, bf_cmd = ''echo'', bf_timeout = 90 * Second\<rparr>"

lemma Unmarshal_Marshal: "wf_json max_depth j \<Longrightarrow> Unmarshal d zero (Marshal j) = d j zero"
  using parse_prefix_Marshal [of j "[]"] by (simp add: Unmarshal_def parse_all_def follow_def)

lemma demo_zero: "num_ok ''0''" "Atoi ''0'' = Some 0"
  by (code_simp, code_simp)

lemma demo_decodes:
  "Unmarshal dec_createResponse zero_createResponse (Marshal (JObj [(''sandbox_id'', JStr ''sb-1'')])) = Some \<lparr>cr_SandboxID = ''sb-1'', cr_Error = []\<rparr>"
  "Unmarshal dec_execResponse zero_execResponse (Marshal (JObj [(''stdout'', JStr ''hi''), (''exit_code'', JNum ''0'')])) =
    Some \<lparr>xs_Stdout = ''hi'', xs_Stderr = [], xs_ExitCode = 0, xs_Error = []\<rparr>"
  "Unmarshal dec_destroyResponse zero_destroyResponse (Marshal (JObj [(''status'', JStr ''ok'')])) = Some \<lparr>dr_Status = ''ok'', dr_Error = []\<rparr>"
  by (subst Unmarshal_Marshal; simp add: max_depth_def dec_createResponse_def zero_createResponse_def dec_execResponse_def zero_execResponse_def
      dec_destroyResponse_def zero_destroyResponse_def find_field_exact field_def demo_zero valid_utf8_ascii)+

lemma demo_requests:
  "run_state (bench_doJSON demo_client verb (''s'' @ ''/create'') body) t = (Inr (Marshal (JObj [(''sandbox_id'', JStr ''sb-1'')])), t + 1000)"
  "run_state (bench_doJSON demo_client verb (''s'' @ ''/exec'') body) t =
    (Inr (Marshal (JObj [(''stdout'', JStr ''hi''), (''exit_code'', JNum ''0'')])), t + 1000)"
  "run_state (bench_doJSON demo_client verb (''s'' @ ''/destroy'') body) t = (Inr (Marshal (JObj [(''status'', JStr ''ok'')])), t + 1000)"
  "run_state (c_Now demo_client) t = (t, t)"
  "run_state (bench_doJSON demo_client verb (''s'' @ ''/snapshot/create'') body) t = (Inr (Marshal (JObj [(''snapshot_id'', JStr ''us-1'')])), t + 1000)"
  "run_state (bench_doJSON demo_client verb (''s'' @ ''/snapshot/restore'') body) t = (Inr (Marshal (JObj [(''sandbox_id'', JStr ''sb-2'')])), t + 1000)"
  by (simp_all add: bench_doJSON_def demo_client_def)

lemma demo_runOnce: "run_state (bench_runOnce demo_client ''s'' ''echo'') t = (Inr 2000, t + 3000)"
proof -
  have "run_state (bench_destroy demo_client ''s'' sid) t = (None, t + 1000)" for sid t
    unfolding bench_destroy_def by (simp del: append.simps add: demo_requests demo_decodes)
  then show ?thesis
    unfolding bench_runOnce_def bench_measure_def
    by (simp del: append.simps add: demo_requests demo_decodes time_Since_def run_simps)
qed

lemma demo_bench: "\<exists>out. run_state (bench_main (\<lambda>_. demo_client) demo_flags) 0 = (Exit 0 (Some out), 9000)"
proof -
  have "c_Write demo_client out = return None" for out by (simp add: demo_client_def)
  moreover have "TrimRight_slash ''s/'' = ''s''" by (simp add: TrimRight_slash_def)
  moreover have "c_URL demo_client ''s''" by (simp add: demo_client_def)
  ultimately show ?thesis
    by (simp add: bench_main_def Let_def bench_print_def demo_flags_def demo_runOnce numeral_2_eq_2 make_panics_def)
qed

theorem bench_output_witness:
  "\<exists>out results. run_state (bench_main (\<lambda>_. demo_client) demo_flags) 0 = (Exit 0 (Some out), 9000) \<and> results \<noteq> [] \<and> length results \<le> 2"
proof -
  obtain out where out: "run_state (bench_main (\<lambda>_. demo_client) demo_flags) 0 = (Exit 0 (Some out), 9000)" using demo_bench by blast
  from bench_output [OF out] have "\<exists>results. results \<noteq> [] \<and> int (length results) \<le> 2"
    unfolding Let_def by (auto simp: demo_flags_def)
  with out show ?thesis by auto
qed

end
