(* ===== verification/Bench_Service.thy ===== *)
theory Bench_Service
  imports Bench
begin

text \<open>
  The interface between the benchmarks and the server, as a locale: what a benchmark relies on, and
  that against any such server it leaves no sandbox behind, whatever fails. Theory Bench_Server
  shows that the server of this repository is one.
\<close>

section \<open>What the benchmarks ask of a server\<close>

text \<open>
  The interface between the benchmarks and the server they run against: \<open>live s\<close> are the sandboxes
  the server has, \<open>ok n s\<close> that it is in order and has identifiers left for \<open>n\<close> more sandboxes.
  A request to create or restore a sandbox names a new one in its reply, or fails and adds none;
  running a command or taking a snapshot changes none; a request to destroy a sandbox removes it,
  whatever the reply says.
\<close>

definition good_id :: "string \<Rightarrow> bool" where
  "good_id sid \<longleftrightarrow> valid_utf8 sid \<and> TrimSpace sid \<noteq> []"

definition id_line :: "string \<Rightarrow> string \<Rightarrow> string" where
  "id_line k v = Marshal (JObj [(k, JStr v)]) @ [CHR 0x0A]"

definition made :: "(int \<times> string res) res \<Rightarrow> string set \<Rightarrow> string set \<Rightarrow> bool" where
  "made r L L' \<longleftrightarrow>
    (\<exists>sid. good_id sid \<and> sid \<notin> L \<and> L' = insert sid L \<and> r = Inr (200, Inr (id_line ''sandbox_id'' sid))) \<or>
    L' = L \<and> (\<forall>st body. r = Inr (st, Inr body) \<longrightarrow> st < 200 \<or> 300 \<le> st)"

lemma Unmarshal_line:
  assumes "wf_json max_depth j"
  shows "Unmarshal d zero (Marshal j @ [CHR 0x0A]) = d j zero"
proof -
  have "follow [CHR 0x0A]" by (simp add: follow_def is_digit_def less_eq_char_def)
  then show ?thesis using parse_prefix_Marshal [OF assms] by (simp add: Unmarshal_def parse_all_def is_ws_def)
qed

lemma wf_pair: "valid_utf8 k \<Longrightarrow> valid_utf8 v \<Longrightarrow> wf_json max_depth (JObj [(k, JStr v)])"
  by (simp add: max_depth_def)

lemma decode_created:
  assumes "good_id sid"
  shows "Unmarshal dec_createResponse zero_createResponse (id_line ''sandbox_id'' sid) = Some \<lparr>cr_SandboxID = sid, cr_Error = []\<rparr>"
proof -
  have "valid_utf8 ''sandbox_id''" by (rule valid_utf8_ascii) simp
  with assms have "wf_json max_depth (JObj [(''sandbox_id'', JStr sid)])" by (intro wf_pair) (simp_all add: good_id_def)
  then show ?thesis
    unfolding id_line_def by (subst Unmarshal_line) (simp_all add: dec_createResponse_def zero_createResponse_def find_field_exact field_def)
qed

lemma good_id_nonempty: "good_id sid \<Longrightarrow> sid \<noteq> []"
  by (auto simp: good_id_def)

definition steady :: "(nat \<Rightarrow> 's \<Rightarrow> bool) \<Rightarrow> ('s \<Rightarrow> string set) \<Rightarrow> 's \<Rightarrow> 's \<Rightarrow> bool" where
  "steady ok live s s' \<longleftrightarrow> (\<forall>n. ok n s \<longrightarrow> ok n s' \<and> live s' = live s)"

locale sandbox_service =
  fixes C :: "'s client" and base :: string and ok :: "nat \<Rightarrow> 's \<Rightarrow> bool" and live :: "'s \<Rightarrow> string set"
  assumes spare: "ok (Suc n) s \<Longrightarrow> ok n s"
    and reading: "ok n s \<Longrightarrow> wp (c_Now C) (\<lambda>_ s'. ok n s' \<and> live s' = live s) s"
    and printing: "ok n s \<Longrightarrow> wp (c_Write C out) (\<lambda>_ s'. ok n s' \<and> live s' = live s) s"
    and creating: "ok (Suc n) s \<Longrightarrow> path = ''/create'' \<or> path = ''/snapshot/restore'' \<Longrightarrow>
      wp (c_Do C ''POST'' (base @ path) body) (\<lambda>r s'. ok n s' \<and> made r (live s) (live s')) s"
    and acting: "ok n s \<Longrightarrow> path = ''/exec'' \<or> path = ''/snapshot/create'' \<Longrightarrow>
      wp (c_Do C ''POST'' (base @ path) body) (\<lambda>_ s'. ok n s' \<and> live s' = live s) s"
    and destroying: "ok n s \<Longrightarrow> sid \<in> live s \<Longrightarrow> good_id sid \<Longrightarrow>
      wp (c_Do C ''POST'' (base @ ''/destroy'') (sandbox_body sid)) (\<lambda>_ s'. ok n s' \<and> live s' = live s - {sid}) s"
begin

text \<open>Operations that create and destroy nothing.\<close>

lemma keeps_steady: "(\<And>n s. ok n s \<Longrightarrow> wp m (\<lambda>_ s'. ok n s' \<and> live s' = live s) s) \<Longrightarrow> keeps (steady ok live) m"
  by (auto simp: keeps_wp wp_all steady_def)

lemma wp_steady: "keeps (steady ok live) m \<Longrightarrow> ok n s \<Longrightarrow> live s = L \<Longrightarrow> wp m (\<lambda>_ s'. ok n s' \<and> live s' = L) s"
  by (auto simp: keeps_wp wp_all steady_def)

lemma wp_doJSON:
  "wp (c_Do C verb url body) (\<lambda>_. Q) s \<Longrightarrow> wp (bench_doJSON C verb url body) (\<lambda>_. Q) s"
  unfolding bench_doJSON_def wp_bind wp_return by (rule wp_mono)

lemma wp_doJSON_creating:
  assumes "ok (Suc n) s" "path = ''/create'' \<or> path = ''/snapshot/restore''"
  shows "wp (bench_doJSON C ''POST'' (base @ path) body) (\<lambda>r s'. ok n s' \<and>
    (case r of Inl _ \<Rightarrow> live s' = live s
     | Inr raw \<Rightarrow> \<exists>sid. raw = id_line ''sandbox_id'' sid \<and> good_id sid \<and> sid \<notin> live s \<and> live s' = insert sid (live s))) s"
  unfolding bench_doJSON_def wp_bind wp_return
  by (rule wp_mono [OF creating [OF assms]]) (auto simp: made_def split: sum.splits)

lemma wp_destroy:
  assumes "ok n s" "live s = insert sid L" "sid \<notin> L" "good_id sid"
  shows "wp (bench_destroy C base sid) (\<lambda>_ s'. ok n s' \<and> live s' = L) s"
  unfolding bench_destroy_def wp_bind wp_return
  by (rule wp_doJSON, rule wp_mono [OF destroying [OF assms(1) _ assms(4)]]) (use assms(2,3) in auto)

lemma steady_ops:
  "keeps (steady ok live) (c_Now C)" "keeps (steady ok live) (c_Write C out)"
  "path = ''/exec'' \<or> path = ''/snapshot/create'' \<Longrightarrow> keeps (steady ok live) (bench_doJSON C ''POST'' (base @ path) body)"
proof -
  show "keeps (steady ok live) (c_Now C)" by (rule keeps_steady) (rule reading)
  show "keeps (steady ok live) (c_Write C out)" by (rule keeps_steady) (rule printing)
  show "keeps (steady ok live) (bench_doJSON C ''POST'' (base @ path) body)" if "path = ''/exec'' \<or> path = ''/snapshot/create''"
    by (rule keeps_steady, rule wp_doJSON, rule acting [OF _ that])
qed

lemma wp_measure:
  assumes s: "ok n s" "live s = insert sid L" "sid \<notin> L" "good_id sid"
  shows "wp (bench_measure C base cmd start sid) (\<lambda>_ s'. ok n s' \<and> live s' = L) s"
proof -
  have gone: "wp (bench_destroy C base sid) (\<lambda>_ s'. ok n s' \<and> live s' = L) s1" if "ok n s1 \<and> live s1 = live s" for s1
    using wp_destroy [OF _ _ s(3,4)] that s(2) by simp
  have timed: "wp (c_Now C) (\<lambda>_. wp (bench_destroy C base sid) (\<lambda>_ s'. ok n s' \<and> live s' = L)) s1"
    if "ok n s1 \<and> live s1 = live s" for s1
    by (rule wp_mono [OF reading]) (use that in \<open>auto intro: gone\<close>)
  show ?thesis
    unfolding bench_measure_def wp_bind wp_return wp_sum wp_option wp_if
    by (rule wp_mono [OF wp_steady [OF steady_ops(3) s(1) refl]]) (auto intro: gone timed)
qed

lemma wp_runOnce:
  assumes "ok (Suc n) s"
  shows "wp (bench_runOnce C base cmd) (\<lambda>_ s'. ok n s' \<and> live s' = live s) s"
  unfolding bench_runOnce_def wp_bind
proof (rule wp_mono [OF reading [OF assms]], rule wp_mono [OF wp_doJSON_creating [of n]], goal_cases)
  case (3 start s0 r s1)
  show ?case
  proof (cases r)
    case (Inl e)
    with 3 show ?thesis by (simp add: wp_return)
  next
    case (Inr raw)
    with 3 obtain sid where "raw = id_line ''sandbox_id'' sid" "good_id sid" "sid \<notin> live s" "live s1 = insert sid (live s)" "ok n s1"
      by auto
    with Inr wp_measure [of n s1 sid "live s"] show ?thesis
      by (simp add: decode_created good_id_nonempty)
  qed
qed simp_all

lemma wp_warmup: "ok (m + n) s \<Longrightarrow> wp (bench_warmup C base cmd m) (\<lambda>_ s'. ok n s' \<and> live s' = live s) s"
proof (induction m arbitrary: s)
  case (Suc m)
  then show ?case
    unfolding bench_warmup.simps wp_bind by (intro wp_mono [OF wp_runOnce [of "m + n"]]) (auto dest!: Suc.IH)
qed (simp add: wp_return)

lemma wp_runs: "ok (m + n) s \<Longrightarrow> wp (bench_runs C base cmd m) (\<lambda>_ s'. ok n s' \<and> live s' = live s) s"
proof (induction m arbitrary: s)
  case (Suc m)
  then show ?case
    unfolding bench_runs.simps wp_bind wp_return by (intro wp_mono [OF wp_runOnce [of "m + n"]]) (auto dest!: Suc.IH)
qed (simp add: wp_return)

end

sublocale sandbox_service \<subseteq> steady: preorder_rel "steady ok live"
  by unfold_locales (auto simp: steady_def)

context sandbox_service
begin

lemma steady_print: "keeps (steady ok live) (bench_print C summary)"
  unfolding bench_print_def by (intro steady.keeps_rules steady_ops)

lemma wp_bench_main:
  assumes "ok (nat (bf_warmup fl) + nat (bf_iterations fl)) s" "TrimRight_slash (bf_endpoint fl) = base"
    and "http_Client (bf_timeout fl) = C"
  shows "wp (bench_main http_Client fl) (\<lambda>_ s'. ok 0 s' \<and> live s' = live s) s"
proof -
  let ?Q = "\<lambda>_ s'. ok 0 s' \<and> live s' = live s"
  have zero: "ok m t \<Longrightarrow> ok 0 t" for m t by (induction m) (auto dest: spare)
  have runs: "wp (bench_runs C base cmd (nat (bf_iterations fl)))
      (\<lambda>results. wp (if results = [] then return (Exit 1 None) else bench_print C (f results)) ?Q) s1"
    if "ok (nat (bf_iterations fl)) s1" "live s1 = live s" for s1 cmd f
    by (rule wp_mono [OF wp_runs [of _ 0]]) (use that in \<open>auto simp: wp_return intro!: wp_steady [OF steady_print]\<close>)
  have "wp (bench_warmup C base cmd (nat (bf_warmup fl))) (\<lambda>_. wp (if make_panics 8 (bf_iterations fl) then return Crash
      else do { results \<leftarrow> bench_runs C base cmd (nat (bf_iterations fl));
        if results = [] then return (Exit 1 None) else bench_print C (f results) }) ?Q) s" for cmd f
    by (rule wp_mono [OF wp_warmup [OF assms(1)]]) (auto simp: wp_return wp_bind intro: runs zero)
  then show ?thesis
    unfolding bench_main_def assms(2,3) wp_Let wp_if [of "\<not> _ \<and> _"] wp_bind [of "bench_warmup _ _ _ _"]
    using zero [OF assms(1)] by (simp add: wp_return)
qed

end

end
