(* ===== verification/Bench_Restore.thy ===== *)
theory Bench_Restore
  imports Bench_Service
begin

text \<open>
  \<open>cmd/bench_restore/main.go\<close>: the benchmark that takes a snapshot of a prepared sandbox, and then
  restores it, checks it with a command and destroys it, again and again. The client is that of
  theory Bench; the file has its own copies of \<open>doJSON\<close>, \<open>percentile\<close> and the response types.
\<close>

section \<open>Requests\<close>

definition br_doJSON :: "'s client \<Rightarrow> string \<Rightarrow> string \<Rightarrow> string \<Rightarrow> ('s, string res) state" where
  "br_doJSON C verb url body = do {
     r \<leftarrow> c_Do C verb url body;
     return (case r of
         Inl e \<Rightarrow> Inl e
       | Inr (st, rd) \<Rightarrow>
         (case rd of
            Inl e \<Rightarrow> Inl e
          | Inr raw \<Rightarrow>
            if st < 200 \<or> st \<ge> 300 then Inl (ErrMsg (''status '' @ itoa st @ '' body='' @ TrimSpace raw)) else Inr raw))
   }"

text \<open>
  A response with an identifier and an error: \<open>createResponse\<close>, \<open>snapshotRestoreResponse\<close> and
  \<open>snapshotCreateResponse\<close>, which differ in the name of the first field.
\<close>

record idResponse =
  ir_ID :: string
  ir_Error :: string

definition dec_idResponse :: "string \<Rightarrow> idResponse decoder" where
  "dec_idResponse name = dec_struct False
    [(name, field ir_ID ir_ID_update dec_string), (''error'', field ir_Error ir_Error_update dec_string)]"

text \<open>The common end of the three functions that ask for an identifier.\<close>

definition id_of :: "string \<Rightarrow> string \<Rightarrow> string \<Rightarrow> string res" where
  "id_of what name raw =
    (case Unmarshal (dec_idResponse name) \<lparr>ir_ID = [], ir_Error = []\<rparr> raw of
       None \<Rightarrow> Inl (decode_error what raw)
     | Some resp \<Rightarrow>
       if ir_Error resp \<noteq> [] \<or> TrimSpace (ir_ID resp) = []
       then Inl (ErrMsg (what @ '' failed: error='' @ Quote (TrimSpace (ir_Error resp)) @ '' '' @ name @ ''='' @ Quote (ir_ID resp) @
         '' body='' @ Quote (TrimSpace raw)))
       else Inr (ir_ID resp))"

definition br_createSandbox :: "'s client \<Rightarrow> string \<Rightarrow> ('s, string res) state" where
  "br_createSandbox C endpoint = do {
     r \<leftarrow> br_doJSON C ''POST'' (endpoint @ ''/create'') [];
     return (case r of Inl e \<Rightarrow> Inl e | Inr raw \<Rightarrow> id_of ''create'' ''sandbox_id'' raw)
   }"

definition br_createUserSnapshot :: "'s client \<Rightarrow> string \<Rightarrow> string \<Rightarrow> ('s, string res) state" where
  "br_createUserSnapshot C endpoint sandboxID = do {
     r \<leftarrow> br_doJSON C ''POST'' (endpoint @ ''/snapshot/create'')
       (Marshal (JObj [(''name'', JStr ''bench-restore-fixture''), (''sandbox_id'', JStr sandboxID)]));
     return (case r of Inl e \<Rightarrow> Inl e | Inr raw \<Rightarrow> id_of ''snapshot/create'' ''snapshot_id'' raw)
   }"

definition br_restoreSandbox :: "'s client \<Rightarrow> string \<Rightarrow> string \<Rightarrow> ('s, string res) state" where
  "br_restoreSandbox C endpoint snapshotID = do {
     r \<leftarrow> br_doJSON C ''POST'' (endpoint @ ''/snapshot/restore'') (Marshal (JObj [(''snapshot_id'', JStr snapshotID)]));
     return (case r of Inl e \<Rightarrow> Inl e | Inr raw \<Rightarrow> id_of ''snapshot/restore'' ''sandbox_id'' raw)
   }"

record br_execResponse =
  bx_Stdout :: string
  bx_Stderr :: string
  bx_ExitCode :: int
  bx_Error :: string

definition dec_br_execResponse :: "br_execResponse decoder" where
  "dec_br_execResponse = dec_struct False
    [(''stdout'', field bx_Stdout bx_Stdout_update dec_string),
     (''stderr'', field bx_Stderr bx_Stderr_update dec_string),
     (''exit_code'', field bx_ExitCode bx_ExitCode_update dec_int),
     (''error'', field bx_Error bx_Error_update dec_string)]"

definition zero_br_execResponse :: br_execResponse where
  "zero_br_execResponse = \<lparr>bx_Stdout = [], bx_Stderr = [], bx_ExitCode = 0, bx_Error = []\<rparr>"

definition br_execInSandbox :: "'s client \<Rightarrow> string \<Rightarrow> string \<Rightarrow> string \<Rightarrow> ('s, string res) state" where
  "br_execInSandbox C endpoint sandboxID cmd = do {
     r \<leftarrow> br_doJSON C ''POST'' (endpoint @ ''/exec'') (exec_body sandboxID cmd);
     return (case r of
         Inl e \<Rightarrow> Inl e
       | Inr raw \<Rightarrow>
         (case Unmarshal dec_br_execResponse zero_br_execResponse raw of
            None \<Rightarrow> Inl (decode_error ''exec'' raw)
          | Some resp \<Rightarrow>
            if bx_Error resp \<noteq> [] then Inl (ErrMsg (bx_Error resp))
            else if bx_ExitCode resp \<noteq> 0
            then Inl (ErrMsg (''exec exit code '' @ itoa (bx_ExitCode resp) @ '' stderr='' @ Quote (bx_Stderr resp)))
            else Inr (bx_Stdout resp)))
   }"

record br_destroyResponse =
  bd_Status :: string
  bd_Error :: string

definition dec_br_destroyResponse :: "br_destroyResponse decoder" where
  "dec_br_destroyResponse = dec_struct False
    [(''status'', field bd_Status bd_Status_update dec_string),
     (''error'', field bd_Error bd_Error_update dec_string)]"

definition br_destroySandbox :: "'s client \<Rightarrow> string \<Rightarrow> string \<Rightarrow> ('s, goerr option) state" where
  "br_destroySandbox C endpoint sandboxID = do {
     r \<leftarrow> br_doJSON C ''POST'' (endpoint @ ''/destroy'') (sandbox_body sandboxID);
     return (case r of
         Inl e \<Rightarrow> Some e
       | Inr raw \<Rightarrow>
         (case Unmarshal dec_br_destroyResponse \<lparr>bd_Status = [], bd_Error = []\<rparr> raw of
            None \<Rightarrow> Some (decode_error ''destroy'' raw)
          | Some resp \<Rightarrow> if bd_Error resp \<noteq> [] then Some (ErrMsg (bd_Error resp)) else None))
   }"


section \<open>The fixture and one run\<close>

text \<open>\<open>prepareFixture\<close> up to its deferred call.\<close>

definition fixture_snapshot :: "'s client \<Rightarrow> string \<Rightarrow> string \<Rightarrow> string \<Rightarrow> string \<Rightarrow> string \<Rightarrow> ('s, string res) state" where
  "fixture_snapshot C endpoint mutationCmd sanityCmd expectStdout sbID = do {
     m \<leftarrow> br_execInSandbox C endpoint sbID mutationCmd;
     case m of Inl e \<Rightarrow> return (Inl (wrap ''run mutation workload: '' e)) | Inr _ \<Rightarrow> do {
     s \<leftarrow> br_execInSandbox C endpoint sbID sanityCmd;
     case s of Inl e \<Rightarrow> return (Inl (wrap ''sanity validation failed: '' e)) | Inr sanity \<Rightarrow>
     if sanity \<noteq> expectStdout
     then return (Inl (ErrMsg (''sanity stdout mismatch during fixture setup: got='' @ Quote sanity @ '' want='' @ Quote expectStdout)))
     else do {
       r \<leftarrow> br_createUserSnapshot C endpoint sbID;
       return (case r of Inl e \<Rightarrow> Inl (wrap ''create user snapshot: '' e) | Inr snapshotID \<Rightarrow> Inr snapshotID)
     }}
   }"

definition prepareFixture :: "'s client \<Rightarrow> string \<Rightarrow> string \<Rightarrow> string \<Rightarrow> string \<Rightarrow> ('s, string res) state" where
  "prepareFixture C endpoint mutationCmd sanityCmd expectStdout = do {
     c \<leftarrow> br_createSandbox C endpoint;
     case c of Inl e \<Rightarrow> return (Inl (wrap ''create fixture sandbox: '' e)) | Inr sbID \<Rightarrow> do {
     r \<leftarrow> fixture_snapshot C endpoint mutationCmd sanityCmd expectStdout sbID;
     _ \<leftarrow> br_destroySandbox C endpoint sbID;
     return r
     }
   }"

text \<open>\<open>runOnce\<close>: the two times, or the class of the failure with the error.\<close>

record br_runResult =
  RestoreOnly :: int
  RestoreTTI :: int

text \<open>From the measurement of the restore on.\<close>

definition br_check :: "'s client \<Rightarrow> string \<Rightarrow> string \<Rightarrow> string \<Rightarrow> int \<Rightarrow> string \<Rightarrow> ('s, (string \<times> goerr) + br_runResult) state" where
  "br_check C endpoint sanityCmd expectStdout restoreStart sbID = do {
     t1 \<leftarrow> c_Now C;
     x \<leftarrow> br_execInSandbox C endpoint sbID sanityCmd;
     case x of
       Inl e \<Rightarrow> do { _ \<leftarrow> br_destroySandbox C endpoint sbID; return (Inl (''sanity_exec'', wrap ''sanity exec: '' e)) }
     | Inr stdout \<Rightarrow>
     if stdout \<noteq> expectStdout then do {
       _ \<leftarrow> br_destroySandbox C endpoint sbID;
       return (Inl (''sanity_exec'', ErrMsg (''sanity stdout mismatch: got='' @ Quote stdout @ '' want='' @ Quote expectStdout)))
     }
     else do {
       t2 \<leftarrow> c_Now C;
       d \<leftarrow> br_destroySandbox C endpoint sbID;
       return (case d of
           Some e \<Rightarrow> Inl (''destroy'', wrap ''destroy failed: '' e)
         | None \<Rightarrow> Inr \<lparr>RestoreOnly = time_Since restoreStart t1, RestoreTTI = time_Since restoreStart t2\<rparr>)
     }
   }"

definition br_runOnce :: "'s client \<Rightarrow> string \<Rightarrow> string \<Rightarrow> string \<Rightarrow> string \<Rightarrow> ('s, (string \<times> goerr) + br_runResult) state" where
  "br_runOnce C endpoint snapshotID sanityCmd expectStdout = do {
     restoreStart \<leftarrow> c_Now C;
     r \<leftarrow> br_restoreSandbox C endpoint snapshotID;
     case r of
       Inl e \<Rightarrow> return (Inl (''restore_api'', wrap ''restore request: '' e))
     | Inr sbID \<Rightarrow> br_check C endpoint sanityCmd expectStdout restoreStart sbID
   }"


section \<open>The program\<close>

definition br_percentile :: "int list \<Rightarrow> int \<Rightarrow> int" where
  "br_percentile values p =
    (if values = [] then 0
     else let idx0 = float_index p (int (length values) - 1);
              idx1 = (if idx0 < 0 then 0 else idx0);
              idx = (if idx1 \<ge> int (length values) then int (length values) - 1 else idx1)
          in values ! nat idx)"

fun br_warmup :: "'s client \<Rightarrow> string \<Rightarrow> string \<Rightarrow> string \<Rightarrow> string \<Rightarrow> nat \<Rightarrow> ('s, unit) state" where
  "br_warmup C base snapshotID sanityCmd expectStdout 0 = return ()"
| "br_warmup C base snapshotID sanityCmd expectStdout (Suc n) = do {
     _ \<leftarrow> br_runOnce C base snapshotID sanityCmd expectStdout;
     br_warmup C base snapshotID sanityCmd expectStdout n
   }"

text \<open>The map \<open>failures\<close>, and \<open>failures[class]++\<close>.\<close>

type_synonym failures = "(string \<times> int) list"

definition no_failures :: failures where
  "no_failures = [(''destroy'', 0), (''other'', 0), (''restore_api'', 0), (''sanity_exec'', 0)]"

definition count_failure :: "string \<Rightarrow> failures \<Rightarrow> failures" where
  "count_failure cl fs = AList.update cl ((case map_of fs cl of Some n \<Rightarrow> n | None \<Rightarrow> 0) + 1) fs"

fun br_runs :: "'s client \<Rightarrow> string \<Rightarrow> string \<Rightarrow> string \<Rightarrow> string \<Rightarrow> nat \<Rightarrow> br_runResult list \<Rightarrow> failures \<Rightarrow> ('s, br_runResult list \<times> failures) state" where
  "br_runs C base snapshotID sanityCmd expectStdout 0 results fs = return (results, fs)"
| "br_runs C base snapshotID sanityCmd expectStdout (Suc n) results fs = do {
     r \<leftarrow> br_runOnce C base snapshotID sanityCmd expectStdout;
     case r of
       Inl (cl, _) \<Rightarrow> br_runs C base snapshotID sanityCmd expectStdout n results (count_failure cl fs)
     | Inr res \<Rightarrow> br_runs C base snapshotID sanityCmd expectStdout n (results @ [res]) fs
   }"

record br_flags =
  rf_endpoint :: string
  rf_iterations :: int
  rf_warmup :: int
  rf_mutationCmd :: string
  rf_sanityCmd :: string
  rf_expectStdout :: string
  rf_timeout :: int

text \<open>The map \<open>summary\<close>, in the order of its keys; the keys of \<open>failures\<close> are in order too.\<close>

definition br_times :: "string \<Rightarrow> int list \<Rightarrow> (string \<times> json) list" where
  "br_times name ds =
    [(name @ ''_max_ns'', JNum (itoa (last ds))),
     (name @ ''_min_ns'', JNum (itoa (hd ds))),
     (name @ ''_p50_ns'', JNum (itoa (br_percentile ds p50))),
     (name @ ''_p95_ns'', JNum (itoa (br_percentile ds p95))),
     (name @ ''_p99_ns'', JNum (itoa (br_percentile ds p99)))]"

definition br_summary :: "br_flags \<Rightarrow> string \<Rightarrow> failures \<Rightarrow> br_runResult list \<Rightarrow> json" where
  "br_summary fl snapshotID fs results = JObj
    ([(''failures'', JObj (map (\<lambda>(k, n). (k, JNum (itoa n))) fs)),
      (''iterations_requested'', JNum (itoa (rf_iterations fl))),
      (''iterations_success'', JNum (itoa (int (length results))))] @
     br_times ''restore_only'' (sort (map RestoreOnly results)) @
     br_times ''restore_tti'' (sort (map RestoreTTI results)) @
     [(''sanity_cmd'', JStr (rf_sanityCmd fl)),
      (''sanity_expected_stdout'', JStr (rf_expectStdout fl)),
      (''snapshot_id'', JStr snapshotID)])"

definition br_main :: "(int \<Rightarrow> 's client) \<Rightarrow> br_flags \<Rightarrow> ('s, outcome) state" where
  "br_main http_Client fl =
    (let C = http_Client (rf_timeout fl); base = TrimRight_slash (rf_endpoint fl) in
     if \<not> c_URL C base then return Crash
     else do {
     f \<leftarrow> prepareFixture C base (rf_mutationCmd fl) (rf_sanityCmd fl) (rf_expectStdout fl);
     case f of Inl _ \<Rightarrow> return (Exit 1 None) | Inr snapshotID \<Rightarrow> do {
     br_warmup C base snapshotID (rf_sanityCmd fl) (rf_expectStdout fl) (nat (rf_warmup fl));
     if make_panics 16 (rf_iterations fl) then return Crash
     else do {
     (results, fs) \<leftarrow> br_runs C base snapshotID (rf_sanityCmd fl) (rf_expectStdout fl) (nat (rf_iterations fl)) [] no_failures;
     if results = [] then return (Exit 1 None)
     else bench_print C (br_summary fl snapshotID fs results)
     }}
   })"


section \<open>Every run is accounted for\<close>

lemma br_doJSON_eq: "br_doJSON = bench_doJSON"
  by (intro ext) (simp add: br_doJSON_def bench_doJSON_def)

lemma br_percentile_eq: "br_percentile = bench_percentile"
  by (intro ext) (simp add: br_percentile_def bench_percentile_def)

definition tally :: "int \<Rightarrow> int \<Rightarrow> int \<Rightarrow> failures" where
  "tally d r x = [(''destroy'', d), (''other'', 0), (''restore_api'', r), (''sanity_exec'', x)]"

definition known_class :: "(string \<times> goerr) + br_runResult \<Rightarrow> bool" where
  "known_class r \<longleftrightarrow> (\<forall>cl e. r = Inl (cl, e) \<longrightarrow> cl = ''restore_api'' \<or> cl = ''sanity_exec'' \<or> cl = ''destroy'')"

lemma br_runOnce_class: "returns (br_runOnce C base i cmd expect) known_class"
  unfolding br_runOnce_def br_check_def by (intro returns_rules) (auto simp: known_class_def split: option.splits)

lemma count_tally:
  "count_failure ''destroy'' (tally d r x) = tally (d + 1) r x"
  "count_failure ''restore_api'' (tally d r x) = tally d (r + 1) x"
  "count_failure ''sanity_exec'' (tally d r x) = tally d r (x + 1)"
  by (simp_all add: count_failure_def tally_def)

lemma br_runs_account:
  assumes "run_state (br_runs C base i cmd expect n results (tally d r x)) s = ((results', fs), s')"
  shows "\<exists>d' r' x'. fs = tally d' r' x' \<and> d \<le> d' \<and> r \<le> r' \<and> x \<le> x' \<and>
    int (length results') + d' + r' + x' = int (length results) + d + r + x + int n"
  using assms
proof (induction n arbitrary: results d r x s)
  case (Suc n)
  obtain q s1 where q: "run_state (br_runOnce C base i cmd expect) s = (q, s1)" by (rule prod.exhaust)
  have known: "known_class q" by (rule returnsD [OF br_runOnce_class q])
  show ?case
  proof (cases q)
    case (Inl ce)
    then obtain cl e where ce: "q = Inl (cl, e)" by (cases ce) simp
    with known consider "cl = ''destroy''" | "cl = ''restore_api''" | "cl = ''sanity_exec''" by (auto simp: known_class_def)
    then show ?thesis
      using Suc.prems q ce by cases (simp add: count_tally, drule Suc.IH, force)+
  next
    case (Inr res)
    with Suc.prems q have "run_state (br_runs C base i cmd expect n (results @ [res]) (tally d r x)) s1 = ((results', fs), s')" by simp
    from Suc.IH [OF this] show ?thesis by force
  qed
qed auto

text \<open>The times in the summary, by exact index.\<close>

definition exact_times :: "string \<Rightarrow> int list \<Rightarrow> (string \<times> json) list" where
  "exact_times name xs =
    [(name @ ''_max_ns'', JNum (itoa (last xs))), (name @ ''_min_ns'', JNum (itoa (hd xs))),
     (name @ ''_p50_ns'', JNum (itoa (rank 50 xs))), (name @ ''_p95_ns'', JNum (itoa (rank 95 xs))),
     (name @ ''_p99_ns'', JNum (itoa (rank 99 xs)))]"

lemma br_times_exact: "xs \<noteq> [] \<Longrightarrow> length xs \<le> 2 ^ 45 \<Longrightarrow> br_times name (sort xs) = exact_times name (sort xs)"
proof -
  assume "xs \<noteq> []" "length xs \<le> 2 ^ 45"
  moreover from this have "sort xs \<noteq> []" by (metis set_empty set_sort)
  ultimately show ?thesis by (simp add: br_times_def exact_times_def br_percentile_eq bench_percentiles)
qed

text \<open>
  C20: The restore benchmark accounts for every run: when it exits with status 0, the successful runs
  it reports, at least one, and the three kinds of failures add up to the runs asked for, the
  fourth counter, \<open>other\<close>, is zero, and the times are those of the successful runs, with the
  percentiles taken at the exact index.
\<close>

theorem br_output:
  assumes "run_state (br_main http_Client fl) s = (Exit 0 (Some out), s')"
  shows "\<exists>snapshotID (results :: br_runResult list) d r x. results \<noteq> [] \<and> 0 \<le> d \<and> 0 \<le> r \<and> 0 \<le> x \<and>
    int (length results) + d + r + x = rf_iterations fl \<and>
    out = Marshal (JObj
      ([(''failures'', JObj [(''destroy'', JNum (itoa d)), (''other'', JNum (itoa 0)),
           (''restore_api'', JNum (itoa r)), (''sanity_exec'', JNum (itoa x))]),
        (''iterations_requested'', JNum (itoa (rf_iterations fl))),
        (''iterations_success'', JNum (itoa (int (length results))))] @
       exact_times ''restore_only'' (sort (map RestoreOnly results)) @
       exact_times ''restore_tti'' (sort (map RestoreTTI results)) @
       [(''sanity_cmd'', JStr (rf_sanityCmd fl)), (''sanity_expected_stdout'', JStr (rf_expectStdout fl)),
        (''snapshot_id'', JStr snapshotID)])) @ [CHR 0x0A]"
proof -
  let ?base = "TrimRight_slash (rf_endpoint fl)"
  obtain i results fs s1 s2 where run: "run_state (br_runs (http_Client (rf_timeout fl)) ?base i (rf_sanityCmd fl) (rf_expectStdout fl) (nat (rf_iterations fl)) [] (tally 0 0 0)) s1 =
      ((results, fs), s2)"
    and m: "\<not> make_panics 16 (rf_iterations fl)" "results \<noteq> []"
    and out: "out = Marshal (br_summary fl i fs results) @ [CHR 0x0A]"
    using assms by (auto simp: br_main_def bench_print_def no_failures_def tally_def Let_def split: if_splits prod.splits option.splits sum.splits)
  obtain d r x where t: "fs = tally d r x" "0 \<le> d" "0 \<le> r" "0 \<le> x" "int (length results) + d + r + x = rf_iterations fl"
    using br_runs_account [OF run] m(1) by (auto simp: make_panics_def)
  have "length results \<le> 2 ^ 45" using t m(1) by (simp add: make_panics_def)
  with m(2) have times: "br_times f (sort (map g results)) = exact_times f (sort (map g results))" for f and g :: "br_runResult \<Rightarrow> int"
    by (intro br_times_exact) simp_all
  show ?thesis
    by (rule exI [of _ i], rule exI [of _ results], rule exI [of _ d], rule exI [of _ r], rule exI [of _ x])
       (use t(2-5) m(2) in \<open>simp add: out t(1) br_summary_def tally_def times\<close>)
qed

text \<open>The restore benchmark against the server of theory Bench.\<close>

lemma demo_trims: "TrimSpace ''sb-1'' = ''sb-1''" "TrimSpace ''sb-2'' = ''sb-2''" "TrimSpace ''us-1'' = ''us-1''"
  by (rule TrimSpace_printable; simp add: printable_def)+

lemma demo_ids:
  "id_of ''create'' ''sandbox_id'' (Marshal (JObj [(''sandbox_id'', JStr ''sb-1'')])) = Inr ''sb-1''"
  "id_of ''snapshot/restore'' ''sandbox_id'' (Marshal (JObj [(''sandbox_id'', JStr ''sb-2'')])) = Inr ''sb-2''"
  "id_of ''snapshot/create'' ''snapshot_id'' (Marshal (JObj [(''snapshot_id'', JStr ''us-1'')])) = Inr ''us-1''"
  "Unmarshal dec_br_execResponse zero_br_execResponse (Marshal (JObj [(''stdout'', JStr ''hi''), (''exit_code'', JNum ''0'')])) =
    Some \<lparr>bx_Stdout = ''hi'', bx_Stderr = [], bx_ExitCode = 0, bx_Error = []\<rparr>"
  "Unmarshal dec_br_destroyResponse \<lparr>bd_Status = [], bd_Error = []\<rparr> (Marshal (JObj [(''status'', JStr ''ok'')])) =
    Some \<lparr>bd_Status = ''ok'', bd_Error = []\<rparr>"
  unfolding id_of_def
  by (subst Unmarshal_Marshal; simp add: max_depth_def dec_idResponse_def dec_br_execResponse_def dec_br_destroyResponse_def zero_br_execResponse_def
      find_field_exact field_def demo_zero demo_trims valid_utf8_ascii)+

lemma demo_br_requests:
  "run_state (br_createSandbox demo_client ''s'') t = (Inr ''sb-1'', t + 1000)"
  "run_state (br_createUserSnapshot demo_client ''s'' sid) t = (Inr ''us-1'', t + 1000)"
  "run_state (br_restoreSandbox demo_client ''s'' i) t = (Inr ''sb-2'', t + 1000)"
  "run_state (br_execInSandbox demo_client ''s'' sid cmd) t = (Inr ''hi'', t + 1000)"
  "run_state (br_destroySandbox demo_client ''s'' sid) t = (None, t + 1000)"
  unfolding br_createSandbox_def br_createUserSnapshot_def br_restoreSandbox_def br_execInSandbox_def br_destroySandbox_def br_doJSON_eq
  by (simp_all del: append.simps add: demo_requests demo_ids)

definition demo_br_flags :: br_flags where
  "demo_br_flags = \<lparr>rf_endpoint = ''s/'', rf_iterations = 2, rf_warmup = 0, rf_mutationCmd = ''mut'', rf_sanityCmd = ''cat'', rf_expectStdout = ''hi'', rf_timeout = 90 * Second\<rparr>"

lemma demo_br_main: "\<exists>out. run_state (br_main (\<lambda>_. demo_client) demo_br_flags) 0 = (Exit 0 (Some out), 11000)"
proof -
  have "c_Write demo_client out = return None" for out by (simp add: demo_client_def)
  moreover have "TrimRight_slash ''s/'' = ''s''" by (simp add: TrimRight_slash_def)
  moreover have "c_URL demo_client ''s''" by (simp add: demo_client_def)
  moreover have "run_state (br_runOnce demo_client ''s'' i cmd ''hi'') t = (Inr \<lparr>RestoreOnly = 1000, RestoreTTI = 2000\<rparr>, t + 3000)" for i cmd t
    by (simp add: br_runOnce_def br_check_def demo_br_requests demo_requests(4) time_Since_def)
  moreover have "run_state (prepareFixture demo_client ''s'' mut cmd ''hi'') t = (Inr ''us-1'', t + 5000)" for mut cmd t
    by (simp add: prepareFixture_def fixture_snapshot_def demo_br_requests)
  ultimately show ?thesis
    by (simp add: br_main_def Let_def bench_print_def demo_br_flags_def numeral_2_eq_2 make_panics_def)
qed

theorem br_output_witness:
  "\<exists>out. run_state (br_main (\<lambda>_. demo_client) demo_br_flags) 0 = (Exit 0 (Some out), 11000) \<and>
    (\<exists>n d r x :: int. 0 < n \<and> 0 \<le> d \<and> 0 \<le> r \<and> 0 \<le> x \<and> n + d + r + x = 2)"
proof -
  obtain out where out: "run_state (br_main (\<lambda>_. demo_client) demo_br_flags) 0 = (Exit 0 (Some out), 11000)" using demo_br_main by blast
  from br_output [OF out] obtain results :: "br_runResult list" and d r x
    where "results \<noteq> []" "0 \<le> d" "0 \<le> r" "0 \<le> x" "int (length results) + d + r + x = 2"
    by (auto simp: demo_br_flags_def)
  moreover from this(1) have "0 < int (length results)" by simp
  ultimately show ?thesis using out by blast
qed


section \<open>No sandbox is left behind\<close>

lemma id_of_line:
  assumes "good_id sid"
  shows "id_of what ''sandbox_id'' (id_line ''sandbox_id'' sid) = Inr sid"
proof -
  have "valid_utf8 ''sandbox_id''" by (rule valid_utf8_ascii) simp
  with assms have "wf_json max_depth (JObj [(''sandbox_id'', JStr sid)])" by (intro wf_pair) (simp_all add: good_id_def)
  then have "Unmarshal (dec_idResponse ''sandbox_id'') \<lparr>ir_ID = [], ir_Error = []\<rparr> (id_line ''sandbox_id'' sid) = Some \<lparr>ir_ID = sid, ir_Error = []\<rparr>"
    unfolding id_line_def by (subst Unmarshal_line) (simp_all add: dec_idResponse_def find_field_exact field_def)
  with assms show ?thesis by (simp add: id_of_def good_id_def)
qed

text \<open>A sandbox that is created or restored is new; nothing is added by a failure.\<close>

definition obtained :: "string res \<Rightarrow> string set \<Rightarrow> string set \<Rightarrow> bool" where
  "obtained r L L' \<longleftrightarrow> (case r of Inl _ \<Rightarrow> L' = L | Inr sid \<Rightarrow> good_id sid \<and> sid \<notin> L \<and> L' = insert sid L)"

context sandbox_service
begin

lemma wp_id_of:
  assumes "ok (Suc n) s" "path = ''/create'' \<or> path = ''/snapshot/restore''"
  shows "wp (bench_doJSON C ''POST'' (base @ path) body) (\<lambda>r s'. ok n s' \<and>
    obtained (case r of Inl e \<Rightarrow> Inl e | Inr raw \<Rightarrow> id_of what ''sandbox_id'' raw) (live s) (live s')) s"
proof (rule wp_mono [OF wp_doJSON_creating [OF assms]], goal_cases)
  case (1 r s')
  then show ?case by (cases r) (auto simp: obtained_def id_of_line)
qed

lemma wp_new:
  assumes "ok (Suc n) s"
  shows "wp (br_createSandbox C base) (\<lambda>r s'. ok n s' \<and> obtained r (live s) (live s')) s"
    "wp (br_restoreSandbox C base i) (\<lambda>r s'. ok n s' \<and> obtained r (live s) (live s')) s"
  unfolding br_createSandbox_def br_restoreSandbox_def br_doJSON_eq wp_bind wp_return
  by (rule wp_id_of [OF assms], simp)+

lemma steady_acts:
  "keeps (steady ok live) (br_execInSandbox C base sid cmd)" "keeps (steady ok live) (br_createUserSnapshot C base sid)"
  unfolding br_execInSandbox_def br_createUserSnapshot_def br_doJSON_eq
  by (intro steady.keeps_bind steady.keeps_return steady_ops(3) disjI1 refl, intro steady.keeps_bind steady.keeps_return steady_ops(3) disjI2 refl)

lemma steady_fixture: "keeps (steady ok live) (fixture_snapshot C base mut cmd expect sid)"
  unfolding fixture_snapshot_def by (intro steady.keeps_rules steady_acts)

lemma wp_drop:
  assumes "ok n s" "live s = insert sid L" "sid \<notin> L" "good_id sid"
  shows "wp (br_destroySandbox C base sid) (\<lambda>_ s'. ok n s' \<and> live s' = L) s"
  unfolding br_destroySandbox_def br_doJSON_eq wp_bind wp_return
  by (rule wp_doJSON, rule wp_mono [OF destroying [OF assms(1) _ assms(4)]]) (use assms(2,3) in auto)

text \<open>Both programs end what they began: get a sandbox, use it, destroy it.\<close>

lemma wp_prepareFixture:
  assumes "ok (Suc n) s"
  shows "wp (prepareFixture C base mut cmd expect) (\<lambda>_ s'. ok n s' \<and> live s' = live s) s"
proof -
  have "wp (fixture_snapshot C base mut cmd expect sid) (\<lambda>_. wp (br_destroySandbox C base sid) (\<lambda>_ s'. ok n s' \<and> live s' = live s)) s1"
    if "ok n s1" "obtained (Inr sid) (live s) (live s1)" for s1 sid
    using that by (intro wp_mono [OF wp_steady [OF steady_fixture that(1) refl]]) (auto simp: obtained_def intro: wp_drop)
  then show ?thesis
    unfolding prepareFixture_def wp_bind wp_return wp_sum
    by (intro wp_mono [OF wp_new(1) [OF assms]]) (auto simp: obtained_def)
qed

lemma wp_check:
  assumes s: "ok n s" "live s = insert sid L" "sid \<notin> L" "good_id sid"
  shows "wp (br_check C base cmd expect start sid) (\<lambda>_ s'. ok n s' \<and> live s' = L) s"
proof -
  have drop: "wp (br_destroySandbox C base sid) (\<lambda>_ s'. ok n s' \<and> live s' = L) s1" if "ok n s1 \<and> live s1 = live s" for s1
    using wp_drop [OF _ _ s(3,4)] that s(2) by simp
  have timed: "wp (c_Now C) (\<lambda>_. wp (br_destroySandbox C base sid) (\<lambda>_ s'. ok n s' \<and> live s' = L)) s1"
    if "ok n s1 \<and> live s1 = live s" for s1
    by (rule wp_mono [OF reading]) (use that in \<open>auto intro: drop\<close>)
  show ?thesis
    unfolding br_check_def wp_bind wp_return wp_sum wp_if
    by (rule wp_mono [OF reading [OF s(1)]], rule wp_mono [OF wp_steady [OF steady_acts(1), of n _ "live s"]]) (auto intro: drop timed)
qed

lemma wp_br_runOnce:
  assumes "ok (Suc n) s"
  shows "wp (br_runOnce C base i cmd expect) (\<lambda>_ s'. ok n s' \<and> live s' = live s) s"
  unfolding br_runOnce_def wp_bind
proof (rule wp_mono [OF reading [OF assms]], rule wp_mono [OF wp_new(2) [of n]], goal_cases)
  case (2 start s0 r s1)
  then show ?case
    by (cases r) (auto simp: wp_return obtained_def intro: wp_check)
qed simp

lemma wp_br_warmup: "ok (m + n) s \<Longrightarrow> wp (br_warmup C base i cmd expect m) (\<lambda>_ s'. ok n s' \<and> live s' = live s) s"
proof (induction m arbitrary: s)
  case (Suc m)
  then show ?case
    unfolding br_warmup.simps wp_bind by (intro wp_mono [OF wp_br_runOnce [of "m + n"]]) (auto dest!: Suc.IH)
qed (simp add: wp_return)

lemma wp_br_runs: "ok (m + n) s \<Longrightarrow> wp (br_runs C base i cmd expect m results fs) (\<lambda>_ s'. ok n s' \<and> live s' = live s) s"
proof (induction m arbitrary: s results fs)
  case (Suc m)
  have "wp (case r of Inl (cl, _) \<Rightarrow> br_runs C base i cmd expect m results (count_failure cl fs)
      | Inr res \<Rightarrow> br_runs C base i cmd expect m (results @ [res]) fs) (\<lambda>_ s'. ok n s' \<and> live s' = live s) s1"
    if "ok (m + n) s1 \<and> live s1 = live s" for r s1
    using Suc.IH [of s1] that by (auto split: sum.splits)
  with Suc.prems show ?case
    unfolding br_runs.simps wp_bind by (intro wp_mono [OF wp_br_runOnce [of "m + n"]]) simp_all
qed (simp add: wp_return)

lemma wp_br_main:
  assumes "ok (Suc (nat (rf_warmup fl) + nat (rf_iterations fl))) s" "TrimRight_slash (rf_endpoint fl) = base"
    and "http_Client (rf_timeout fl) = C"
  shows "wp (br_main http_Client fl) (\<lambda>_ s'. ok 0 s' \<and> live s' = live s) s"
proof -
  let ?Q = "\<lambda>_ s'. ok 0 s' \<and> live s' = live s"
  have zero: "ok m t \<Longrightarrow> ok 0 t" for m t by (induction m) (auto dest: spare)
  have runs: "wp (br_runs C base i cmd expect (nat (rf_iterations fl)) [] no_failures)
      (\<lambda>x. wp (case x of (results, fs) \<Rightarrow> if results = [] then return (Exit 1 None) else bench_print C (f results fs)) ?Q) s1"
    if "ok (nat (rf_iterations fl)) s1" "live s1 = live s" for s1 i cmd expect f
    by (rule wp_mono [OF wp_br_runs [of _ 0]]) (use that in \<open>auto simp: wp_return intro!: wp_steady [OF steady_print]\<close>)
  have warm: "wp (br_warmup C base i cmd expect (nat (rf_warmup fl))) (\<lambda>_. wp (if make_panics 16 (rf_iterations fl) then return Crash
      else do { (results, fs) \<leftarrow> br_runs C base i cmd expect (nat (rf_iterations fl)) [] no_failures;
        if results = [] then return (Exit 1 None) else bench_print C (f results fs) }) ?Q) s1"
    if "ok (nat (rf_warmup fl) + nat (rf_iterations fl)) s1" "live s1 = live s" for s1 i cmd expect f
    by (rule wp_mono [OF wp_br_warmup [OF that(1)]]) (use that(2) in \<open>auto simp: wp_return wp_bind intro: runs zero\<close>)
  have "wp (prepareFixture C base mut cmd expect) (\<lambda>r. wp (case r of Inl _ \<Rightarrow> return (Exit 1 None) | Inr i \<Rightarrow> do {
      br_warmup C base i cmd expect (nat (rf_warmup fl));
      if make_panics 16 (rf_iterations fl) then return Crash
      else do { (results, fs) \<leftarrow> br_runs C base i cmd expect (nat (rf_iterations fl)) [] no_failures;
        if results = [] then return (Exit 1 None) else bench_print C (f i results fs) }}) ?Q) s" for mut cmd expect f
    by (rule wp_mono [OF wp_prepareFixture [OF assms(1)]])
       (use warm in \<open>auto simp: wp_return wp_bind [of "br_warmup _ _ _ _ _ _"] intro: zero split: sum.split\<close>)
  then show ?thesis
    unfolding br_main_def assms(2,3) wp_Let wp_if [of "\<not> _"] wp_bind [of "prepareFixture _ _ _ _ _"]
    using zero [OF assms(1)] by (simp add: wp_return)
qed

end

end
