(* ===== verification/Bench_Server.thy ===== *)
theory Bench_Server
  imports Server_Spec Http Bench_Restore
begin

text \<open>
  The benchmarks run against the server of this repository: every request goes through the server's
  routes to its handlers, and what the handlers write is what the client reads. The theory
  interprets the interface of theory Bench_Service on that composition, whatever the host of the
  server does.
\<close>

section \<open>The server as an HTTP peer\<close>

text \<open>
  \<open>http.Client.Do\<close> with a connection that delivers every request and every answer, within the
  client's timeout, whatever it is: a redirect of a POST is followed with a GET, and a connection the
  server closes is an error.
\<close>

fun received :: "answer \<Rightarrow> (int \<times> string res) res" where
  "received (Answer st body) = Inr (st, Inr body)"
| "received (Moved _) = Inl (ErrMsg ''stopped after 10 redirects'')"
| "received Aborted = Inl EOF"

definition server_client :: "'x env \<Rightarrow> config \<Rightarrow> string \<Rightarrow> 'x world client" where
  "server_client E cfg base = \<lparr>
     c_Do = (\<lambda>verb url body.
       if take (length base) url \<noteq> base then return (Inl (ErrMsg ''dial tcp: no such host''))
       else do {
         a \<leftarrow> http_handle E cfg verb (drop (length base) url) body;
         case a of
           Moved p \<Rightarrow> do { b \<leftarrow> http_handle E cfg (if verb = ''HEAD'' then ''HEAD'' else ''GET'') p []; return (received b) }
         | _ \<Rightarrow> return (received a)
       }),
     c_Now = onhost (time_Now E),
     c_Write = (\<lambda>_. return None),
     c_URL = (\<lambda>_. True)\<rparr>"

text \<open>A handler answers with 200 or with an error status.\<close>

definition plain_status :: "reply \<Rightarrow> bool" where
  "plain_status r \<longleftrightarrow> (\<forall>st j. r = Reply st j \<longrightarrow> st = 200 \<or> 400 \<le> st)"

lemma plain_status_simps [simp]: "plain_status Panic" "plain_status (Reply st j) \<longleftrightarrow> st = 200 \<or> 400 \<le> st"
  by (simp_all add: plain_status_def)

lemma returns_onhost: "returns m P \<Longrightarrow> returns (onhost m) P"
  by (auto simp: returns_def onhost_def split: prod.splits)

lemma status_register: "returns (register a) plain_status"
  unfolding register_def by (intro returns_rules) simp

lemma status_exec_reply: "plain_status (exec_reply resp)"
  by (simp add: exec_reply_def split: option.split)

lemma returns_passed: "returns m P \<Longrightarrow> returns (do { r \<leftarrow> m; _ \<leftarrow> g r; return r }) P"
  by (auto simp: returns_def split: prod.splits)

lemma status_ssh: "returns (exec_ssh E cfg sb req) plain_status"
proof -
  have "returns (case s of Inl e \<Rightarrow> return (server_error (f e)) | Inr session \<Rightarrow> do {
           (exitCode, err) \<leftarrow> runSSHCommand E session cmd t;
           (stdout, stderr) \<leftarrow> gets (\<lambda>h. e_ssh_Output E session (ext h));
           _ \<leftarrow> outside (e_ssh_CloseSession E session);
           return (case err of Some e \<Rightarrow> server_error (g e) | None \<Rightarrow> Reply 200 (json_execResponse stdout stderr exitCode))
         }) plain_status" for s f g cmd t
    by (intro returns_rules) (simp_all split: option.split)
  note inner = returns_passed [OF this]
  show ?thesis
    unfolding exec_ssh_def by (rule returns_bind, rule returns_sum, rule returns_return, simp, rule returns_bind, rule inner)
qed

lemma status_exec: "returns (exec_transport E cfg a req useShell) plain_status"
  unfolding exec_transport_def exec_agent_def
  by (intro returns_rules returns_onhost status_ssh) (simp_all add: status_exec_reply)

lemma status_handlers:
  "returns (handleCreate E cfg) plain_status" "returns (handleExec E cfg b) plain_status" "returns (handleDestroy E b) plain_status"
  "returns (handleSnapshotCreate E cfg b) plain_status" "returns (handleSnapshotRestore E cfg b) plain_status"
  "returns (handleSnapshotList E cfg) plain_status" "returns (handleSnapshotDelete E cfg b) plain_status"
proof -
  show "returns (handleCreate E cfg) plain_status"
    unfolding handleCreate_def by (intro returns_rules status_register) simp
  have "returns (case exec_mode req of Inl m \<Rightarrow> return (bad_request m) | Inr useShell \<Rightarrow> exec_transport E cfg a req useShell) plain_status" for req a
    by (intro returns_sum returns_return status_exec) simp
  note mode = returns_passed [OF this]
  show "returns (handleExec E cfg b) plain_status"
    unfolding handleExec_def
    by (intro returns_option returns_if returns_return returns_bind [where m = "lookup_sandbox _"]
        returns_bind [where m = "sb_at _"] returns_bind [where m = "sb_modify _ _"] mode) simp_all
  show "returns (handleDestroy E b) plain_status"
    unfolding handleDestroy_def by (intro returns_rules) (simp_all split: option.split)
  show "returns (handleSnapshotCreate E cfg b) plain_status"
    unfolding handleSnapshotCreate_def by (intro returns_rules) (simp_all split: sum.split)
  show "returns (handleSnapshotRestore E cfg b) plain_status"
    unfolding handleSnapshotRestore_def by (intro returns_rules status_register) simp_all
  show "returns (handleSnapshotList E cfg) plain_status"
    unfolding handleSnapshotList_def by (intro returns_rules) (simp split: sum.split)
  show "returns (handleSnapshotDelete E cfg b) plain_status"
    unfolding handleSnapshotDelete_def by (intro returns_rules) (simp_all split: option.split)
qed

lemma status_serve: "returns (serve E cfg q) plain_status"
  by (cases q) (simp_all add: status_handlers returns_return)

lemma wp_post:
  assumes "route ''POST'' path body = Inr q"
  shows "wp (c_Do (server_client E cfg base) ''POST'' (base @ path) body) Q w = wp (serve E cfg q) (\<lambda>r. Q (received (writeJSON r))) w"
proof -
  have "writeJSON r \<noteq> Moved p" for r p by (cases r) (simp_all add: writeJSON_def)
  then have "(case writeJSON r of Moved p \<Rightarrow> f p | _ \<Rightarrow> return (received (writeJSON r))) = return (received (writeJSON r))" for r and f :: "string \<Rightarrow> ('a world, (int \<times> string res) res) state"
    by (cases "writeJSON r") simp_all
  moreover have "wp (return x) Q = Q x" for x by (rule ext) (rule wp_return)
  ultimately show ?thesis
    by (simp add: server_client_def http_handle_def assms wp_bind wp_return)
qed


section \<open>The server is the service the benchmarks ask for\<close>

definition service_ok :: "nat \<Rightarrow> 'x world \<Rightarrow> bool" where
  "service_ok n w \<longleftrightarrow> server_ok (srv w) \<and> unat (nextSandboxID (srv w)) + n + 1 < 2 ^ 64"

definition live_sandboxes :: "'x world \<Rightarrow> string set" where
  "live_sandboxes w = dom (map_of (sandboxes (srv w)))"

lemma service_next: "service_ok n w \<Longrightarrow> server_ok (srv w) \<and> nextSandboxID (srv w) \<noteq> - 1"
  by (auto simp: service_ok_def unsigned_minus_1_eq_mask mask_eq_exp_minus_1)

lemma spec_of_live: "spec_of (srv w) = (live_sandboxes w, unat (nextSandboxID (srv w)))"
  by (simp add: spec_of_def live_sandboxes_def)

lemma wp_serve_step:
  assumes "service_ok n w"
  shows "wp (serve E cfg q) (\<lambda>r w'. server_ok (srv w') \<and> plain_status r \<and>
    spec_step (live_sandboxes w, unat (nextSandboxID (srv w))) q r (live_sandboxes w', unat (nextSandboxID (srv w')))) w"
proof (rule wpI)
  fix r w' assume run: "run_state (serve E cfg q) w = (r, w')"
  note ok = service_next [OF assms]
  have sok: "sandboxes_ok (srv w)" using ok by (simp add: server_ok_def)
  have "kept (srv w) (srv w')" by (rule wp_run [OF wp_serve run]) (use ok sok in simp_all)
  then have "server_ok (srv w')"
    using ok wp_run [OF wp_serve_settles [OF sok] run] by (auto simp: kept_def intro: server_ok_settles)
  with refines_serve [OF sok _ run] ok returnsD [OF status_serve run]
  show "server_ok (srv w') \<and> plain_status r \<and>
    spec_step (live_sandboxes w, unat (nextSandboxID (srv w))) q r (live_sandboxes w', unat (nextSandboxID (srv w')))"
    by (simp add: spec_of_live)
qed

lemma good_sandbox_name: "good_id (sandbox_name n)"
proof -
  have "list_all (\<lambda>c. code c < 0x80) (sandbox_name n)" using ascii_utoa [of n] by (simp add: sandbox_name_def ascii_def)
  moreover have "TrimSpace (sandbox_name n) = sandbox_name n"
  proof (rule TrimSpace_printable)
    have "is_digit (last (utoa n))" using utoa_digits [of n] by (simp add: list_all_iff)
    then show "printable (last (sandbox_name n))"
      by (auto simp: sandbox_name_def printable_def is_digit_def less_char_def less_eq_char_def)
  qed (simp_all add: sandbox_name_def printable_def)
  ultimately show ?thesis by (simp add: good_id_def valid_utf8_ascii sandbox_name_def)
qed

lemma fresh_sandbox_name:
  assumes "server_ok (srv w)"
  shows "sandbox_name (unat (nextSandboxID (srv w)) + 1) \<notin> live_sandboxes w"
proof
  assume "sandbox_name (unat (nextSandboxID (srv w)) + 1) \<in> live_sandboxes w"
  then obtain a where "map_of (sandboxes (srv w)) (sandbox_name (unat (nextSandboxID (srv w)) + 1)) = Some a"
    by (auto simp: live_sandboxes_def)
  from sandboxes_okD(3) [OF _ this] assms show False by (auto simp: server_ok_def issued_def sandbox_name_def)
qed

lemma spec_creating:
  assumes "spec_step (L, n) q r (L', n')" "creates q" "plain_status r" "sandbox_name (n + 1) \<notin> L"
  shows "n' \<le> n + 1 \<and> made (received (writeJSON r)) L L'"
  using assms(1)
proof (cases rule: spec_step.cases)
  case created
  then show ?thesis
    using assms(4) good_sandbox_name by (auto simp: made_def writeJSON_def id_line_def id_body_def)
next
  case not_created
  with assms(3) show ?thesis by (cases r) (auto simp: made_def writeJSON_def)
next
  case (destroyed k)
  then show ?thesis using assms(2) by (cases q) simp_all
next
  case not_destroyed
  then show ?thesis using assms(2) by simp
qed

lemma spec_quiet:
  assumes "spec_step (L, n) q r (L', n')" "\<not> creates q" "destroys q = None"
  shows "L' = L \<and> n' = n"
  using assms by (cases rule: spec_step.cases) auto

lemma spec_destroying:
  assumes "spec_step (L, n) q r (L', n')" "destroys q = Some k" "k \<in> L" "TrimSpace k \<noteq> []"
  shows "L' = L - {k} \<and> n' = n"
  using assms
proof (cases rule: spec_step.cases)
  case not_destroyed
  then show ?thesis using assms(2-4) by blast
qed (cases q; auto)+

lemma decode_sandbox_body:
  assumes "good_id sid"
  shows "destroys (Destroy (sandbox_body sid)) = Some sid"
proof -
  have "valid_utf8 ''sandbox_id''" by (rule valid_utf8_ascii) simp
  with assms have "wf_json max_depth (JObj [(''sandbox_id'', JStr sid)])" by (intro wf_pair) (simp_all add: good_id_def)
  then show ?thesis
    unfolding destroys.simps sandbox_body_def decodeJSON_def
    by (subst Decode_Marshal) (simp_all add: dec_single_def find_field_exact)
qed

interpretation manta: sandbox_service "server_client E cfg base" base service_ok live_sandboxes
  for E :: "'a env" and cfg base
proof unfold_locales
  fix n and w :: "'a world"
  show "service_ok (Suc n) w \<Longrightarrow> service_ok n w" by (simp add: service_ok_def)
  show "service_ok n w \<Longrightarrow> wp (c_Now (server_client E cfg base)) (\<lambda>_ w'. service_ok n w' \<and> live_sandboxes w' = live_sandboxes w) w"
    by (simp add: server_client_def service_ok_def live_sandboxes_def) (rule wp_onhost_any, simp)
  show "service_ok n w \<Longrightarrow> wp (c_Write (server_client E cfg base) out) (\<lambda>_ w'. service_ok n w' \<and> live_sandboxes w' = live_sandboxes w) w" for out
    by (simp add: server_client_def wp_return)
next
  fix n and w :: "'a world" and path body
  assume ok: "service_ok (Suc n) w" and "path = ''/create'' \<or> path = ''/snapshot/restore''"
  then obtain q where q: "route ''POST'' path body = Inr q" "creates q" using route_endpoints by fastforce
  show "wp (c_Do (server_client E cfg base) ''POST'' (base @ path) body) (\<lambda>r w'. service_ok n w' \<and> made r (live_sandboxes w) (live_sandboxes w')) w"
    unfolding wp_post [OF q(1)]
  proof (rule wp_mono [OF wp_serve_step [OF ok]])
    fix r w' assume step: "server_ok (srv w') \<and> plain_status r \<and>
      spec_step (live_sandboxes w, unat (nextSandboxID (srv w))) q r (live_sandboxes w', unat (nextSandboxID (srv w')))"
    then show "service_ok n w' \<and> made (received (writeJSON r)) (live_sandboxes w) (live_sandboxes w')"
      using spec_creating [OF _ q(2) _ fresh_sandbox_name] ok by (fastforce simp: service_ok_def)
  qed
next
  fix n and w :: "'a world" and path body
  assume ok: "service_ok n w" and "path = ''/exec'' \<or> path = ''/snapshot/create''"
  then obtain q where q: "route ''POST'' path body = Inr q" "\<not> creates q" "destroys q = None" using route_endpoints by fastforce
  show "wp (c_Do (server_client E cfg base) ''POST'' (base @ path) body) (\<lambda>_ w'. service_ok n w' \<and> live_sandboxes w' = live_sandboxes w) w"
    unfolding wp_post [OF q(1)]
    by (rule wp_mono [OF wp_serve_step [OF ok]]) (use spec_quiet [OF _ q(2,3)] ok in \<open>fastforce simp: service_ok_def\<close>)
next
  fix n and w :: "'a world" and sid
  assume ok: "service_ok n w" and sid: "sid \<in> live_sandboxes w" "good_id sid"
  show "wp (c_Do (server_client E cfg base) ''POST'' (base @ ''/destroy'') (sandbox_body sid))
    (\<lambda>_ w'. service_ok n w' \<and> live_sandboxes w' = live_sandboxes w - {sid}) w"
    unfolding wp_post [OF route_endpoints(3)]
    by (rule wp_mono [OF wp_serve_step [OF ok]])
       (use spec_destroying [OF _ decode_sandbox_body [OF sid(2)] sid(1)] sid(2) ok in \<open>fastforce simp: service_ok_def good_id_def\<close>)
qed



section \<open>Properties\<close>

text \<open>
  C17: The benchmark leaves the server as it found it. Run against a server of this repository in
  good order, over connections that deliver within the client's timeout, and whatever fails on the
  server's host, the benchmark ends with the same sandboxes alive as before and with the server in good order: every
  sandbox it created was destroyed, also after a command that failed. The only condition is that
  the counter of sandboxes does not run out.
\<close>

theorem bench_leaves_no_sandbox:
  assumes "server_ok (srv w)"
    and "unat (nextSandboxID (srv w)) + (nat (bf_warmup fl) + nat (bf_iterations fl)) + 1 < 2 ^ 64"
    and "run_state (bench_main (\<lambda>_. server_client E cfg (TrimRight_slash (bf_endpoint fl))) fl) w = (r, w')"
  shows "server_ok (srv w') \<and> dom (map_of (sandboxes (srv w'))) = dom (map_of (sandboxes (srv w)))"
proof -
  have "service_ok (nat (bf_warmup fl) + nat (bf_iterations fl)) w" using assms(1,2) by (simp add: service_ok_def)
  from wp_run [OF manta.wp_bench_main [OF this refl refl] assms(3)] show ?thesis
    by (simp add: service_ok_def live_sandboxes_def)
qed

text \<open>
  C18: The restore benchmark too leaves the server as it found it: the fixture and every restored
  sandbox have been destroyed when it ends, however it ends. As above, no request exceeds the
  client's timeout.
\<close>

theorem br_leaves_no_sandbox:
  assumes "server_ok (srv w)"
    and "unat (nextSandboxID (srv w)) + Suc (nat (rf_warmup fl) + nat (rf_iterations fl)) + 1 < 2 ^ 64"
    and "run_state (br_main (\<lambda>_. server_client E cfg (TrimRight_slash (rf_endpoint fl))) fl) w = (r, w')"
  shows "server_ok (srv w') \<and> dom (map_of (sandboxes (srv w'))) = dom (map_of (sandboxes (srv w)))"
proof -
  have "service_ok (Suc (nat (rf_warmup fl) + nat (rf_iterations fl))) w" using assms(1,2) by (simp add: service_ok_def)
  from wp_run [OF manta.wp_br_main [OF this refl refl] assms(3)] show ?thesis
    by (simp add: service_ok_def live_sandboxes_def)
qed

theorem bench_leaves_no_sandbox_witness:
  "\<exists>r w'. run_state (bench_main (\<lambda>_. server_client demo_env demo_config ''s'') demo_flags) demo_running = (r, w') \<and>
    dom (map_of (sandboxes (srv w'))) = {''sb-1''}"
proof -
  have base: "TrimRight_slash (bf_endpoint demo_flags) = ''s''" by (simp add: demo_flags_def TrimRight_slash_def)
  obtain r w' where run: "run_state (bench_main (\<lambda>_. server_client demo_env demo_config ''s'') demo_flags) demo_running = (r, w')" by (rule prod.exhaust)
  have "unat (nextSandboxID (srv demo_running)) + (nat (bf_warmup demo_flags) + nat (bf_iterations demo_flags)) + 1 < 2 ^ 64"
    by (simp add: demo_running_def demo_flags_def)
  from bench_leaves_no_sandbox [OF demo_running_server_ok this, unfolded base, OF run] run
  show ?thesis by (auto simp: demo_running_def)
qed

theorem br_leaves_no_sandbox_witness:
  "\<exists>r w'. run_state (br_main (\<lambda>_. server_client demo_env demo_config ''s'') demo_br_flags) demo_running = (r, w') \<and>
    dom (map_of (sandboxes (srv w'))) = {''sb-1''}"
proof -
  have base: "TrimRight_slash (rf_endpoint demo_br_flags) = ''s''" by (simp add: demo_br_flags_def TrimRight_slash_def)
  obtain r w' where run: "run_state (br_main (\<lambda>_. server_client demo_env demo_config ''s'') demo_br_flags) demo_running = (r, w')" by (rule prod.exhaust)
  have "unat (nextSandboxID (srv demo_running)) + Suc (nat (rf_warmup demo_br_flags) + nat (rf_iterations demo_br_flags)) + 1 < 2 ^ 64"
    by (simp add: demo_running_def demo_br_flags_def)
  from br_leaves_no_sandbox [OF demo_running_server_ok this, unfolded base, OF run] run
  show ?thesis by (auto simp: demo_running_def)
qed

end
