(* ===== verification/Spec2Isabelle.thy ===== *)
theory Spec2Isabelle
  imports Agent Server_Spec Snapshot_Order Concurrent Vm_Ownership Bench_Server
begin

text \<open>
  \<^bold>\<open>Manta: verification of the sandbox server and its guest agent.\<close>

  Manta runs commands in Firecracker microVMs. The server (\<open>cmd/server\<close>) keeps a map of sandboxes.
  A sandbox is one VM with a work directory, a copy of a root disk, a network namespace, a
  Firecracker process and a connection to the agent (\<open>cmd/agent\<close>) inside the VM. Clients create,
  use and destroy sandboxes and take, list, restore and delete snapshots over HTTP; the server
  talks to the agent with framed JSON messages (\<open>internal/agentrpc\<close>) over a vsock socket. At
  start-up it reads its configuration from the environment, builds or reuses a golden snapshot that
  every sandbox is restored from, and fills a pool of network namespaces.

  \<^bold>\<open>How the program is modelled.\<close> An effectful Go function is a value of the state monad and
  each early return, error and cleanup of the code is a branch of it. The state is a \<open>world\<close>: the
  \<open>server\<close> (the struct of \<open>types.go\<close>, with the sandboxes on a heap, since handlers share them by
  pointer) and the \<open>host\<close> (clock, file system, and an arbitrary state of the rest of the machine). Whatever the
  program calls that is not its own code (the kernel, Firecracker, iptables, the packages netlink,
  netns, vsock and ssh) is the record \<open>env\<close> of functions, an argument of every definition that uses it;
  the guest of the agent is the record \<open>guest_env\<close>. Theorems hold for every such record unless they say
  otherwise. The file system is modelled call by call, and every call may fail as the environment
  decides; reading a file can fail at opening or at reading. SHA-256 and \<open>time.ParseDuration\<close> are parameters too. Integers are unbounded where
  the code cannot overflow, and wrapped (\<open>wrap64\<close>) or words where it can.

  \<^bold>\<open>Theories.\<close>
  \<^item> \<open>Manta_Prelude\<close>: errors, results, the state monad with its weakest preconditions (collections
    \<open>wp_simps\<close>, \<open>wp_intros\<close>), locale \<open>preorder_rel\<close> for relations that every step of a
    program keeps (interpreted for the clock, the file system, the server part of the world).
  \<^item> \<open>Go_Strings\<close>, \<open>Go_Net\<close>, \<open>Go_Time\<close>, \<open>Go_Json\<close>, \<open>Go_Json_Struct\<close>: the standard library as the
    program uses it: \<open>strings\<close>, \<open>strconv\<close>, \<open>filepath\<close>, \<open>net\<close>, \<open>time.Format\<close>, and \<open>encoding/json\<close> with a
    full encoder, scanner and struct decoder; what is encoded is decoded unchanged.
  \<^item> \<open>Agentrpc\<close> (\<open>agentrpc.go\<close>): messages, \<open>WriteMessage\<close>, \<open>ReadMessage\<close>, \<open>ReadLine\<close>; locale
    \<open>frame_channel\<close>. Frames round trip and reading is bounded.
  \<^item> \<open>Agent\<close> (\<open>cmd/agent/main.go\<close>): \<open>serveConn\<close>, \<open>handle\<close>, \<open>runExec\<close>, \<open>configureNetwork\<close>. Every request is
    answered once and in order, outputs and exit codes are bounded, the address of the requested
    interface is replaced and the others are left alone.
  \<^item> \<open>Host\<close>, \<open>Server_Types\<close>: the host and its calls (\<open>cmdutil.go\<close>, \<open>procutil.go\<close>, package \<open>os\<close>), the types of
    \<open>types.go\<close>.
  \<^item> \<open>Netns\<close> (\<open>netns.go\<close>, \<open>netns_util.go\<close>, \<open>iptables.go\<close>) and \<open>Netns_Pool\<close> (\<open>netns_pool.go\<close>, \<open>netns_alloc.go\<close>):
    set-up and clean-up of a namespace; the pool and its channel, with the contract of a
    pool as locale \<open>resource_pool\<close>. The networks of different subnets are disjoint sets of addresses; a filled
    pool has one free namespace per subnet; the account of the pool (\<open>pool_room\<close>, an equation of multisets)
    and what each operation does to it (\<open>moves\<close>, \<open>given_back\<close>, \<open>settles\<close>).
  \<^item> \<open>Lifecycle\<close> (\<open>sandbox_lifecycle.go\<close>), \<open>Agent_Client\<close> (\<open>agent.go\<close>), \<open>Firecracker\<close>
    (\<open>firecracker_api.go\<close>, \<open>vm_config.go\<close>), \<open>Cgroup\<close> (\<open>cgroup.go\<close>), \<open>SSH\<close> (\<open>sshutil.go\<close>), \<open>Snapshot\<close> (\<open>snapshot.go\<close>),
    \<open>Sandbox\<close> (\<open>sandbox.go\<close>, \<open>restore.go\<close>), \<open>User_Snapshot\<close> (\<open>user_snapshot.go\<close>), \<open>Handlers\<close> (\<open>handlers.go\<close>,
    \<open>http_util.go\<close> and the handlers of \<open>user_snapshot.go\<close>), \<open>Startup\<close> (\<open>config.go\<close>, \<open>preflight.go\<close>,
    \<open>diagnostics.go\<close>, \<open>main.go\<close>): one definition per function, its long functions split where they
    nest; the polling loops with proofs of what they return and that they end.
  \<^item> \<open>Server_Invariant\<close>: the invariant of the whole server, from start-up and over every handler: which sandboxes
    are in the map and in which state (\<open>sandboxes_ok\<close>), and where every pooled namespace is (\<open>pool_ok\<close>): free, held
    by a sandbox, or lost to a create that failed while booting, the one path of the code that deletes a
    namespace instead of releasing it.
  \<^item> \<open>Server_Spec\<close>: what a client sees (a set of live identifiers and a counter), refined by the
    handlers.
  \<^item> \<open>Snapshot_Store\<close>: metadata is replaced atomically, the golden snapshot is reused, user
    snapshots can be loaded, listed and deleted under their identifiers and nothing else is touched.
    \<open>Snapshot_Order\<close>: two snapshots from taking them to the listing, which is not in the order of time.
  \<^item> \<open>Processes\<close>, \<open>Vm_Ownership\<close>: which operations can leave a process running, and through all failures
    of booting, restoring and snapshotting: every running VM belongs to a sandbox of the map, and a
    shutdown leaves no process and no open sandbox.
  \<^item> \<open>Http\<close> (the routes of \<open>main.go\<close>, \<open>writeJSON\<close> of \<open>http_util.go\<close>): from a method, a path and a body to
    a handler and from its reply to the bytes of the answer.
  \<^item> \<open>Go_Float\<close>, \<open>Bench\<close> (\<open>cmd/bench/main.go\<close>), \<open>Bench_Restore\<close> (\<open>cmd/bench_restore/main.go\<close>): the two
    benchmark programs over the record \<open>client\<close> (HTTP, clock, output). Their percentiles, computed in
    \<open>float64\<close>, are exact, and every run is accounted for.
  \<^item> \<open>Bench_Service\<close>: locale \<open>sandbox_service\<close>, what a benchmark relies on, with the lemma that it leaves no
    sandbox behind; \<open>Bench_Server\<close> interprets it on the server behind its routes.
  \<^item> \<open>Concurrent\<close>: the handlers and the shutdown as interleaved threads, a step per critical section.
  \<^item> This theory: the host and the agent connected to each other, and an exec from the HTTP request to
    the process in the guest and back.

  \<^bold>\<open>Termination.\<close> Every definition is total. The JSON scanner takes fuel, and \<open>pval_fuel_irrelevant\<close> shows that
  the amount \<open>parse_prefix\<close> gives it is enough for every text. The polling loops recurse with the time left
  to their deadline as measure, since \<open>time.Sleep\<close> advances the clock by at least what it is asked for.

  \<^bold>\<open>Concurrency.\<close> In \<open>Handlers\<close> a handler runs to its end before the next one starts, and a drain
  finds the count it starts with unless execs are given as a function of the time. In
  \<open>Concurrent\<close> any number of threads interleave between critical sections, with the methods of \<open>Lifecycle\<close>,
  while the work outside of them is reduced to what it does to a sandbox. Its step relation \<open>cstep\<close> covers
  the critical sections of \<open>handleCreate\<close>, \<open>handleExec\<close>, \<open>handleDestroy\<close> and of the sweep of \<open>destroyAll\<close>; the snapshot handlers
  are not among its steps. The two
  goroutines of \<open>createSandbox\<close> run one after the other, in either order. Sandboxes are destroyed at
  shutdown in the order of Go's map iteration, which the environment chooses.

  \<^bold>\<open>The benchmarks.\<close> They are sequential clients. They make their HTTP client from the timeout they are given; a request that exceeds
  it is an error of the client. In \<open>Bench_Server\<close> their connections deliver every request
  and every answer within that timeout (a create that is given up would leave its sandbox behind); what the server's host does is arbitrary. Durations and counts are those the program can
  hold: \<open>make\<close> limits the number of runs to \<open>2 ^ 45\<close>, below which the floating-point index is exact.

  \<^bold>\<open>Not modelled.\<close> Log lines, progress messages and stage timings, whose values nothing reads; the
  request-logging middleware, which only logs; the accept loop of the agent, listening and waiting for a
  signal in \<open>main\<close>; \<open>httpServer.Shutdown\<close>, which waits up to 20 seconds for running handlers: where one request
  runs after the other there is none to wait for when \<open>destroyAll\<close> starts; parsing of command-line flags, which are
  given as records; the text of the errors of third-party code.
\<close>

section \<open>The host connected to an agent\<close>

text \<open>
  A host whose connections lead to the agent of this development, as Firecracker's vsock socket
  does: dialling starts a new connection, the first line written to it is the \<open>CONNECT\<close> line that
  Firecracker consumes and answers with \<open>OK\<close>; from then on what the host writes is appended to what the
  agent has to read, and when the host reads and nothing has arrived yet, the agent reads a request, handles
  it and writes the response with \<open>WriteMessage\<close>: one round of \<open>serveConn\<close>. When reading or writing
  fails, \<open>serveConn\<close> ends and closes the connection: \<open>lk_up\<close> is false from then on.
\<close>

record 'g link =
  lk_open :: bool
  lk_up :: bool
  lk_in :: string
  lk_out :: string
  lk_guest :: 'g

definition fresh :: "'g \<Rightarrow> 'g link" where
  "fresh g = \<lparr>lk_open = True, lk_up = True, lk_in = [], lk_out = [], lk_guest = g\<rparr>"

definition agent_turn :: "'g guest_env \<Rightarrow> 'g link \<Rightarrow> 'g link" where
  "agent_turn G l =
    (if \<not> lk_up l then l
     else case run_state (ReadMessage stream_ReadFull (dec_Request True) zero_Request) (lk_in l) of
       (Inl _, rest) \<Rightarrow> l\<lparr>lk_up := False, lk_in := rest\<rparr>
     | (Inr req, rest) \<Rightarrow>
       (case run_state (handle G req) (lk_guest l) of
          (resp, g) \<Rightarrow>
          (case run_state (WriteMessage (\<lambda>b. State (\<lambda>out. (None, out @ b))) (json_Response resp)) (lk_out l) of
             (err, out) \<Rightarrow> l\<lparr>lk_up := (err = None), lk_in := rest, lk_out := out, lk_guest := g\<rparr>)))"

definition link_read :: "'g guest_env \<Rightarrow> nat \<Rightarrow> 'g link \<Rightarrow> string res \<times> nat \<times> 'g link" where
  "link_read G n l =
    (let l' = (if lk_out l = [] then agent_turn G l else l) in
     case run_state (stream_ReadFull n) (lk_out l') of (r, rest) \<Rightarrow> (r, 0, l'\<lparr>lk_out := rest\<rparr>))"

definition link_write :: "string \<Rightarrow> 'g link \<Rightarrow> 'g link" where
  "link_write b l = (if lk_open l then l\<lparr>lk_in := lk_in l @ b\<rparr> else l\<lparr>lk_open := True\<rparr>)"

definition linked :: "'g guest_env \<Rightarrow> 'g link env" where
  "linked G = calm_env\<lparr>e_Dial := \<lambda>_ _ l. (Inr 7, 0, l\<lparr>lk_open := False, lk_up := True, lk_in := [], lk_out := []\<rparr>),
     e_Write := \<lambda>_ b l. (None, 0, link_write b l), e_ReadFull := \<lambda>_ n l. link_read G n l\<rparr>"

lemma linked_Write:
  assumes "small v" "lk_open (ext h)"
  shows "run_state (WriteMessage (\<lambda>b. outside (e_Write (linked G) c b)) v) h = (None, h\<lparr>ext := (ext h)\<lparr>lk_in := lk_in (ext h) @ frame v\<rparr>\<rparr>)"
  using assms by (simp add: WriteMessage_def Let_def small_def outside_def linked_def link_write_def frame_def)

lemma frame_nonempty: "frame v \<noteq> []"
  by (simp add: frame_def PutUint32_def)

text \<open>Reading a whole frame that has arrived, or that the agent sends now.\<close>

lemma link_read_frame:
  assumes "ok_Response resp" "small (json_Response resp)"
    and "lk_out (if lk_out (ext h) = [] then agent_turn G (ext h) else ext h) = frame (json_Response resp)"
  shows "run_state (ReadMessage (\<lambda>n. outside (e_ReadFull (linked G) c n)) (dec_Response True) zero_Response) h =
    (Inr resp, h\<lparr>ext := (if lk_out (ext h) = [] then agent_turn G (ext h) else ext h)\<lparr>lk_out := []\<rparr>\<rparr>)"
proof -
  let ?raw = "Marshal (json_Response resp)"
  let ?l = "if lk_out (ext h) = [] then agent_turn G (ext h) else ext h"
  have wf: "wf_json max_depth (json_Response resp)" by (rule wf_json_Response [OF assms(1)])
  have len: "length ?raw \<le> MaxMessageBytes" "?raw \<noteq> []" using assms(2) Marshal_nonempty [OF wf] by (simp_all add: small_def)
  have 1: "run_state (outside (e_ReadFull (linked G) c 4)) h = (Inr (PutUint32 (of_nat (length ?raw))), h\<lparr>ext := ?l\<lparr>lk_out := ?raw\<rparr>\<rparr>)"
    using assms(3) by (simp add: outside_def linked_def link_read_def stream_ReadFull_def frame_def PutUint32_def Let_def)
  have 2: "run_state (outside (e_ReadFull (linked G) c (length ?raw))) (h\<lparr>ext := ?l\<lparr>lk_out := ?raw\<rparr>\<rparr>) = (Inr ?raw, h\<lparr>ext := ?l\<lparr>lk_out := []\<rparr>\<rparr>)"
    using len(2) by (simp add: outside_def linked_def link_read_def stream_ReadFull_def)
  show ?thesis
    using 1 2 len by (simp add: ReadMessage_def Let_def unat_frame_length Decode_Marshal [OF wf] dec_json_Response [OF assms(1)])
qed

lemma Call_linked:
  assumes "ok_Request req" "small (json_Request req)" "ext h = fresh g0"
    and "run_state (handle G req) g0 = (resp, g)" "ok_Response resp" "small (json_Response resp)"
  shows "\<exists>h'. run_state (Call (linked G) c req timeout) h =
    (if rs_OK resp then Inr resp
     else Inl (ErrMsg (if TrimSpace (rs_Error resp) \<noteq> [] then rs_Error resp else ''agent returned ok=false'')), h') \<and>
    ext h' = fresh g"
proof -
  have now: "run_state (time_Now (linked G)) h = (clock h, h\<lparr>ticks := Suc (ticks h)\<rparr>)"
    by (simp add: time_Now_def tick_def linked_def calm_env_def)
  have dl: "run_state (outside (e_SetDeadline (linked G) c d)) k = ((), k)" for d k
    by (simp add: outside_def linked_def calm_env_def)
  let ?h = "h\<lparr>ticks := Suc (ticks h), ext := (ext h)\<lparr>lk_in := frame (json_Request req)\<rparr>\<rparr>"
  have w: "run_state (WriteMessage (\<lambda>b. outside (e_Write (linked G) c b)) (json_Request req)) (h\<lparr>ticks := Suc (ticks h)\<rparr>) = (None, ?h)"
    using linked_Write [OF assms(2), of "h\<lparr>ticks := Suc (ticks h)\<rparr>" G c] assms(3) by (simp add: fresh_def)
  have turn: "agent_turn G (ext ?h) = (fresh g)\<lparr>lk_out := frame (json_Response resp)\<rparr>"
    using ReadMessage_Request [OF assms(1,2), of "[]"] assms(3,4,6)
    by (simp add: agent_turn_def fresh_def WriteMessage_def Let_def small_def frame_def)
  have r: "run_state (ReadMessage (\<lambda>n. outside (e_ReadFull (linked G) c n)) (dec_Response True) zero_Response) ?h =
      (Inr resp, ?h\<lparr>ext := fresh g\<rparr>)"
    using link_read_frame [OF assms(5,6), of ?h G c] turn assms(3) by (simp add: fresh_def)
  show ?thesis
    by (simp add: Call_def Let_def now dl w r)
qed

text \<open>
  C10: A call of the host over a fresh connection to the agent, with a request and a response that are
  valid UTF-8 and fit a frame, is answered by the agent's handling of exactly that request: the call returns the agent's
  response if it is a success and its error otherwise; the agent has run once and nothing is left on the connection.
\<close>

theorem Call_reaches_agent:
  assumes "ok_Request req" "small (json_Request req)" "ext h = fresh g0"
    and "run_state (handle G req) g0 = (resp, g)" "ok_Response resp" "small (json_Response resp)"
  shows "\<exists>h'. run_state (Call (linked G) c req timeout) h =
    (if rs_OK resp then Inr resp
     else Inl (ErrMsg (if TrimSpace (rs_Error resp) \<noteq> [] then rs_Error resp else ''agent returned ok=false'')), h') \<and>
    ext h' = fresh g"
  by (rule Call_linked [OF assms])

definition link_host :: "'g \<Rightarrow> 'g link host" where
  "link_host g = blank_host (fresh g)"

theorem Call_reaches_agent_witness:
  "\<exists>h'. run_state (Call (linked Agent.demo_env) 7 ping_request Second) (link_host Agent.demo_guest) =
     (Inr (zero_Response\<lparr>rs_OK := True, rs_Ping := Some \<lparr>pr_AgentVersion = ''v0.2.0'', pr_NowUnixMs = 1700000000000\<rparr>\<rparr>), h')"
proof -
  let ?resp = "zero_Response\<lparr>rs_OK := True, rs_Ping := Some \<lparr>pr_AgentVersion = ''v0.2.0'', pr_NowUnixMs = 1700000000000\<rparr>\<rparr>"
  have "ok_Request ping_request" "ok_Response ?resp"
    by (simp_all add: ping_request_def zero_Request_def ok_Request_def ok_Response_def ok_PingResponse_def zero_Response_def int64_def)
  moreover have "small (json_Request ping_request)"
    by (simp add: small_def ping_request_def json_Request_def zero_Request_def omit_ptr_def omit_str_def Marshal_def enc_string_def
        enc_chars.simps(2) esc_def Let_def MaxMessageBytes_def)
  moreover have "small (json_Response ?resp)"
    by (simp add: small_def json_Response_def json_PingResponse_def zero_Response_def omit_ptr_def omit_str_def Marshal_def enc_string_def
        enc_chars.simps(2) esc_def Let_def MaxMessageBytes_def itoa_def utoa.simps)
  moreover have "run_state (handle Agent.demo_env ping_request) Agent.demo_guest = (?resp, Agent.demo_guest)"
    by (simp add: handle_def ping_request_def zero_Request_def Agent.demo_env_def agentVersion_def)
  ultimately show ?thesis
    using Call_reaches_agent [of ping_request "link_host Agent.demo_guest" Agent.demo_guest Agent.demo_env ?resp Agent.demo_guest 7 Second]
    by (auto simp: link_host_def blank_host_def)
qed

section \<open>An exec from end to end\<close>

text \<open>The response of the agent to an exec, and the request inside the server's message.\<close>

definition exec_answer :: "execResult \<Rightarrow> Response" where
  "exec_answer out = zero_Response\<lparr>rs_OK := (exr_err out = None), rs_Error := errString (exr_err out), rs_Exec := Some (exr_resp out)\<rparr>"

definition exec_payload :: "config \<Rightarrow> execRequest \<Rightarrow> bool \<Rightarrow> ExecRequest" where
  "exec_payload cfg req useShell = the (rq_Exec (exec_request cfg req useShell))"

lemma handle_exec_request:
  assumes "run_state (runExec G (exec_payload cfg req useShell)) g0 = (out, g)"
  shows "run_state (handle G (exec_request cfg req useShell)) g0 = (exec_answer out, g)"
  using assms by (simp add: handle_def exec_request_def exec_payload_def exec_answer_def)

definition fits :: "config \<Rightarrow> execRequest \<Rightarrow> bool \<Rightarrow> execResult \<Rightarrow> bool" where
  "fits cfg req useShell out \<longleftrightarrow> ok_Request (exec_request cfg req useShell) \<and> small (json_Request (exec_request cfg req useShell)) \<and>
     ok_Response (exec_answer out) \<and> small (json_Response (exec_answer out))"

lemma exec_call:
  assumes "fits cfg req useShell out" "ext h = fresh g0" "run_state (runExec G (exec_payload cfg req useShell)) g0 = (out, g)"
  shows "\<exists>h'. run_state (Call (linked G) c (exec_request cfg req useShell) timeout) h =
    (if exr_err out = None then Inr (exec_answer out)
     else Inl (ErrMsg (if TrimSpace (errString (exr_err out)) \<noteq> [] then errString (exr_err out) else ''agent returned ok=false'')), h') \<and>
    ext h' = fresh g"
proof -
  have sel: "rs_OK (exec_answer out) = (exr_err out = None)" "rs_Error (exec_answer out) = errString (exr_err out)"
    by (simp_all add: exec_answer_def)
  show ?thesis
    using Call_linked [OF _ _ assms(2) handle_exec_request [OF assms(3)]] assms(1) unfolding sel fits_def by blast
qed

text \<open>A request to run a command in a live sandbox, over the agent: the handler counts it and passes it on.\<close>

definition exec_accepted :: "config \<Rightarrow> string \<Rightarrow> execRequest \<Rightarrow> bool \<Rightarrow> nat \<Rightarrow> server \<Rightarrow> bool" where
  "exec_accepted cfg body req useShell a s \<longleftrightarrow>
     decodeJSON dec_execRequest zero_execRequest body = Some req \<and> TrimSpace (xq_SandboxID req) \<noteq> [] \<and>
     exec_mode req = Inr useShell \<and> ExecTransport cfg \<in> {''agent'', []} \<and>
     sandboxes_ok s \<and> map_of (sandboxes s) (xq_SandboxID req) = Some a"

abbreviation counted :: "nat \<Rightarrow> 'x world \<Rightarrow> 'x world" where
  "counted a w \<equiv> w\<lparr>srv := (srv w)\<lparr>heap := (heap (srv w))[a := snd (tryStartExec (heap (srv w) ! a))]\<rparr>\<rparr>"

lemma exec_accepted_live:
  assumes "exec_accepted cfg body req useShell a (srv w)"
  shows "a < length (heap (srv w))" "fst (tryStartExec (heap (srv w) ! a)) = None"
    "finishExec (snd (tryStartExec (heap (srv w) ! a))) = heap (srv w) ! a"
    "heap (srv (counted a w)) ! a = (heap (srv w) ! a)\<lparr>sb_inFlightExec := sb_inFlightExec (heap (srv w) ! a) + 1\<rparr>"
  using assms sandboxes_okD [of "srv w" "xq_SandboxID req" a] exec_count(2) [of "xq_SandboxID req" "heap (srv w) ! a"]
  by (simp_all add: exec_accepted_def) (simp_all add: tryStartExec_def sb_live_def)

lemma handleExec_agent:
  assumes acc: "exec_accepted cfg body req useShell a (srv w)"
    and run: "run_state (exec_agent E cfg a req useShell) (counted a w) = (r, w2)"
  shows "run_state (handleExec E cfg body) w = (r, w2\<lparr>srv := (srv w2)\<lparr>heap := (heap (srv w2))[a := finishExec (heap (srv w2) ! a)]\<rparr>\<rparr>)"
  using acc run exec_accepted_live [OF acc]
  by (auto simp: handleExec_def exec_accepted_def lookup_sandbox_def sb_at_def sb_modify_def exec_transport_def)

text \<open>
  C9: An exec from the HTTP request to the process in the guest and back. A request to run a command in a live
  sandbox that the server accepts is one the agent accepts too: it has a command line to run. If the sandbox
  has a connection to its agent with nothing pending, request and response are valid UTF-8 and fit a frame,
  and the agent's run of the command ends without an error (an exit status other than 0 is not one), then the
  client gets 200 with exactly the output and the exit code of that run, the agent has run the command once,
  and the server's state is as before.
\<close>

theorem exec_end_to_end:
  assumes "exec_accepted cfg body req useShell a (srv w)" "sb_Agent (heap (srv w) ! a) = Some c" "ext (host w) = fresh g0"
    and "run_state (runExec G (exec_payload cfg req useShell)) g0 = (out, g)" "exr_err out = None" "fits cfg req useShell out"
  shows "(\<exists>arg args. normalizeArgv (exec_payload cfg req useShell) = Inr (arg # args)) \<and>
    (\<exists>w'. run_state (handleExec (linked G) cfg body) w =
      (Reply 200 (json_execResponse (xr_Stdout (exr_resp out)) (xr_Stderr (exr_resp out)) (xr_ExitCode (exr_resp out))), w') \<and>
      ext (host w') = fresh g \<and> srv w' = srv w)"
proof
  show "\<exists>arg args. normalizeArgv (exec_payload cfg req useShell) = Inr (arg # args)"
    using assms(1)
    by (auto simp: exec_accepted_def exec_mode_def normalizeArgv_def exec_payload_def exec_request_def zero_ExecRequest_def Let_def TrimSpace_idem
        neq_Nil_conv split: if_splits)
  note live = exec_accepted_live [OF assms(1)]
  obtain h' where h': "run_state (Call (linked G) c (exec_request cfg req useShell) (AgentCallTimeout cfg)) (host w) = (Inr (exec_answer out), h')"
    "ext h' = fresh g"
    using exec_call [OF assms(6,3,4), of c "AgentCallTimeout cfg"] assms(5) by auto
  have "run_state (exec_agent (linked G) cfg a req useShell) (counted a w) =
      (Reply 200 (json_execResponse (xr_Stdout (exr_resp out)) (xr_Stderr (exr_resp out)) (xr_ExitCode (exr_resp out))), (counted a w)\<lparr>host := h'\<rparr>)"
    using h' assms(2) live(4) by (simp add: exec_agent_def sb_at_def onhost_def exec_reply_def exec_answer_def)
  from handleExec_agent [OF assms(1) this] h'(2) live(1,3)
  show "\<exists>w'. run_state (handleExec (linked G) cfg body) w =
      (Reply 200 (json_execResponse (xr_Stdout (exr_resp out)) (xr_Stderr (exr_resp out)) (xr_ExitCode (exr_resp out))), w') \<and>
      ext (host w') = fresh g \<and> srv w' = srv w"
    by simp
qed


definition demo_request :: execRequest where
  "demo_request = zero_execRequest\<lparr>xq_SandboxID := ''sb-1'', xq_Argv := [''echo'', ''hi'']\<rparr>"

definition link_world :: "'g \<Rightarrow> 'g link world" where
  "link_world g = \<lparr>host = link_host g, srv = new_server\<lparr>nextSandboxID := 1, sandboxes := [(''sb-1'', 0)], heap := [demo_sandbox\<lparr>sb_VsockPath := ''/w/v.sock''\<rparr>]\<rparr>\<rparr>"

lemmas marshal_simps = json_Request_def json_ExecRequest_def zero_Request_def zero_ExecRequest_def json_Response_def json_ExecResponse_def
  zero_Response_def omit_ptr_def omit_str_def omit_strs_def omit_int_def itoa_def utoa.simps Marshal_def enc_string_def enc_chars.simps(2)
  esc_def Let_def MaxMessageBytes_def

lemma demo_payload: "exec_payload demo_config demo_request False =
    zero_ExecRequest\<lparr>er_Argv := [''echo'', ''hi''], er_TimeoutMs := 20000, er_MaxOutputBytes := 1048576\<rparr>"
  by code_simp

lemma demo_exec_request: "exec_request demo_config demo_request False = zero_Request\<lparr>rq_Type := ''exec'',
    rq_Exec := Some (zero_ExecRequest\<lparr>er_Argv := [''echo'', ''hi''], er_TimeoutMs := 20000, er_MaxOutputBytes := 1048576\<rparr>)\<rparr>"
  by code_simp

lemma demo_request_fits: "ok_Request (exec_request demo_config demo_request False)" "small (json_Request (exec_request demo_config demo_request False))"
  unfolding demo_exec_request
  by (simp add: ok_Request_def ok_ExecRequest_def zero_Request_def zero_ExecRequest_def utf8s_def int64_def)
     (simp add: small_def marshal_simps)

definition demo_out :: execResult where
  "demo_out = \<lparr>exr_resp = \<lparr>xr_ExitCode = 0, xr_Stdout = ''hello'', xr_Stderr = [], xr_TimedOut = False\<rparr>, exr_err = None\<rparr>"

lemma demo_out_run: "run_state (runExec Agent.demo_env (exec_payload demo_config demo_request False)) Agent.demo_guest = (demo_out, Agent.demo_guest)"
  unfolding demo_payload
  by (simp add: runExec_def Agent.demo_env_def zero_ExecRequest_def normalizeArgv_def exec_maxOut_def Let_def demo_out_def)

lemma demo_out_fits: "ok_Response (exec_answer demo_out)" "small (json_Response (exec_answer demo_out))"
  by (simp_all add: exec_answer_def demo_out_def errString_def ok_Response_def ok_ExecResponse_def zero_Response_def int64_def)
     (simp add: small_def marshal_simps)

lemma link_world_simps:
  "heap (srv (link_world g)) ! 0 = demo_sandbox\<lparr>sb_VsockPath := ''/w/v.sock''\<rparr>" "ext (host (link_world g)) = fresh g"
  "0 < length (heap (srv (link_world g)))" "sb_Agent (demo_sandbox\<lparr>sb_VsockPath := ''/w/v.sock''\<rparr>) = Some 7"
  by (simp_all add: link_world_def link_host_def blank_host_def demo_sandbox_def new_sandbox_def)

definition demo_body :: string where
  "demo_body = Marshal (JObj [(''sandbox_id'', JStr ''sb-1''), (''argv'', JArr [JStr ''echo'', JStr ''hi''])])"

lemma demo_accepted: "exec_accepted demo_config demo_body demo_request False 0 (srv (link_world g))"
proof -
  have "decodeJSON dec_execRequest zero_execRequest demo_body = Some demo_request" "TrimSpace (xq_SandboxID demo_request) \<noteq> []"
    "exec_mode demo_request = Inr False" "ExecTransport demo_config \<in> {''agent'', []}" "xq_SandboxID demo_request = ''sb-1''"
    by (code_simp, code_simp, code_simp, code_simp, code_simp)
  moreover have "sandboxes_ok (srv (link_world g))"
    using demo_running_ok
    by (auto simp: sandboxes_ok_def issued_def link_world_def demo_running_def new_server_def demo_sandbox_def new_sandbox_def
        sb_live_def sb_dead_def split: if_splits)
  ultimately show ?thesis by (simp add: exec_accepted_def link_world_def)
qed

theorem exec_end_to_end_witness:
  "\<exists>w'. run_state (handleExec (linked Agent.demo_env) demo_config demo_body) (link_world Agent.demo_guest) =
     (Reply 200 (json_execResponse ''hello'' [] 0), w')"
proof -
  have o: "exr_err demo_out = None" "exr_resp demo_out = \<lparr>xr_ExitCode = 0, xr_Stdout = ''hello'', xr_Stderr = [], xr_TimedOut = False\<rparr>"
    by (simp_all add: demo_out_def)
  have "fits demo_config demo_request False demo_out"
    using demo_request_fits demo_out_fits by (simp add: fits_def)
  from exec_end_to_end [OF demo_accepted _ link_world_simps(2) demo_out_run o(1) this] show ?thesis
    unfolding o(2) ExecResponse.select_convs link_world_simps(1,4) by blast
qed

lemma redial:
  assumes "TrimSpace p \<noteq> []" "0 < port" "port \<le> 65535"
  shows "\<exists>h'. run_state (dialAgent (linked G) p port t) h = (Inr 7, h') \<and> ext h' = fresh (lk_guest (ext h))"
  using assms
  by (simp add: dialAgent_def ReadLine_def Let_def outside_def linked_def link_write_def calm_env_def time_Now_def tick_def HasPrefix_def fresh_def)

text \<open>
  C37: An error the agent reports for a command, such as a program that cannot be started, is
  taken for a broken connection: the server closes the connection, dials again and sends the same
  command once more, so that the command is run a second time. What the client gets is the result of the second
  run: 500 if it reports an error as well, and 200 with its output otherwise, with no trace of the first. As
  above the connections work, and request and responses fit their frames; the port and the socket path are such that
  \<open>dialAgent\<close> accepts them.
\<close>

theorem exec_error_runs_twice:
  assumes "exec_accepted cfg body req useShell a (srv w)" "sb_Agent (heap (srv w) ! a) = Some c" "ext (host w) = fresh g0"
    and "TrimSpace (sb_VsockPath (heap (srv w) ! a)) \<noteq> []" "0 < AgentPort cfg" "AgentPort cfg \<le> 65535"
    and "run_state (runExec G (exec_payload cfg req useShell)) g0 = (out1, g1)" "exr_err out1 \<noteq> None" "fits cfg req useShell out1"
    and "run_state (runExec G (exec_payload cfg req useShell)) g1 = (out2, g2)" "fits cfg req useShell out2"
  shows "\<exists>r w'. run_state (handleExec (linked G) cfg body) w = (r, w') \<and> ext (host w') = fresh g2 \<and>
    (if exr_err out2 = None
     then r = Reply 200 (json_execResponse (xr_Stdout (exr_resp out2)) (xr_Stderr (exr_resp out2)) (xr_ExitCode (exr_resp out2)))
     else \<exists>m. r = server_error m)"
proof -
  let ?q = "exec_request cfg req useShell" and ?t = "AgentCallTimeout cfg" and ?sb = "heap (srv w) ! a"
  note live = exec_accepted_live [OF assms(1)]
  obtain e1 h1 where h1: "run_state (Call (linked G) c ?q ?t) (host w) = (Inl e1, h1)" "ext h1 = fresh g1"
    using exec_call [OF assms(9,3,7), of c ?t] assms(8) by auto
  have cl: "run_state (agent_Close (linked G) (Some c)) h1 = (None, h1)"
    by (simp add: agent_Close_def outside_def linked_def calm_env_def)
  obtain h2 where h2: "run_state (dialAgent (linked G) (sb_VsockPath ?sb) (AgentPort cfg) (AgentDialTimeout cfg)) h1 = (Inr 7, h2)" "ext h2 = fresh g1"
    using redial [OF assms(4-6), of G "AgentDialTimeout cfg" h1] h1(2) by (auto simp: fresh_def)
  obtain e2 h3 where h3: "run_state (Call (linked G) 7 ?q ?t) h2 = (if exr_err out2 = None then Inr (exec_answer out2) else Inl e2, h3)" "ext h3 = fresh g2"
    using exec_call [OF assms(11) h2(2) assms(10), of 7 ?t] by auto
  obtain r w2 where "run_state (exec_agent (linked G) cfg a req useShell) (counted a w) = (r, w2)" "host w2 = h3"
    "r = (if exr_err out2 = None then exec_reply (exec_answer out2) else server_error (''agent exec failed: '' @ Error e2))"
    using h1(1) cl h2(1) h3 assms(2) live(1,4)
    by (cases "exr_err out2 = None") (simp_all add: exec_agent_def sb_at_def sb_modify_def onhost_def)
  from handleExec_agent [OF assms(1) this(1)] this(2,3) h3(2) show ?thesis
    by (auto simp: exec_reply_def exec_answer_def)
qed


definition failing_guest :: "demo guest_env" where
  "failing_guest = Agent.demo_env\<lparr>g_Start := \<lambda>_ _ _ g. (Some (Errno ENOENT), g\<lparr>dm_sent := dm_sent g @ ''x''\<rparr>)\<rparr>"

lemma failing_run:
  "run_state (runExec failing_guest (exec_payload demo_config demo_request False)) g =
    (exec_failed 127 (Errno ENOENT), g\<lparr>dm_sent := dm_sent g @ ''x''\<rparr>)"
  unfolding demo_payload
  by (simp add: runExec_def failing_guest_def Agent.demo_env_def zero_ExecRequest_def normalizeArgv_def exec_maxOut_def Let_def)

lemma failing_fits: "fits demo_config demo_request False (exec_failed 127 (Errno ENOENT))"
proof -
  have "ok_Response (exec_answer (exec_failed 127 (Errno ENOENT)))"
    by (simp add: exec_answer_def exec_failed_def errString_def ok_Response_def ok_ExecResponse_def zero_Response_def int64_def)
  moreover have "small (json_Response (exec_answer (exec_failed 127 (Errno ENOENT))))"
    by (simp add: exec_answer_def exec_failed_def errString_def small_def marshal_simps)
  ultimately show ?thesis using demo_request_fits by (simp add: fits_def)
qed

theorem exec_error_runs_twice_witness:
  "\<exists>m w'. run_state (handleExec (linked failing_guest) demo_config demo_body) (link_world Agent.demo_guest) = (server_error m, w') \<and>
     dm_sent (lk_guest (ext (host w'))) = ''xx''"
proof -
  let ?g1 = "Agent.demo_guest\<lparr>dm_sent := dm_sent Agent.demo_guest @ ''x''\<rparr>"
  let ?g2 = "?g1\<lparr>dm_sent := dm_sent ?g1 @ ''x''\<rparr>"
  let ?w = "link_world Agent.demo_guest"
  have err: "exr_err (exec_failed 127 (Errno ENOENT)) \<noteq> None" by (simp add: exec_failed_def)
  have cfg: "TrimSpace (sb_VsockPath (demo_sandbox\<lparr>sb_VsockPath := ''/w/v.sock''\<rparr>)) \<noteq> []" "0 < AgentPort demo_config" "AgentPort demo_config \<le> 65535"
    by (code_simp, code_simp, code_simp)
  have "sb_Agent (heap (srv ?w) ! 0) = Some 7" "TrimSpace (sb_VsockPath (heap (srv ?w) ! 0)) \<noteq> []"
    unfolding link_world_simps(1) by (fact link_world_simps(4), fact cfg(1))
  from exec_error_runs_twice [OF demo_accepted this(1) link_world_simps(2) this(2) cfg(2,3) failing_run err failing_fits failing_run failing_fits]
  obtain r w' where "run_state (handleExec (linked failing_guest) demo_config demo_body) ?w = (r, w')" "ext (host w') = fresh ?g2" "\<exists>m. r = server_error m"
    using err by auto
  then show ?thesis by (auto simp: fresh_def Agent.demo_guest_def)
qed

end
